(* ===== verification/Prelude.thy ===== *)
theory Prelude
  imports Main "HOL-Library.Word"
begin

text \<open>
  Shared vocabulary of the development: Go's byte, string and slice primitives, decimal
  formatting (\<open>fmt\<close> verb \<open>%d\<close>) and parsing (\<open>strconv.Atoi\<close>), and the generic lemmas on
  lists, maps and words that several components use.

  Go strings are byte sequences, so they are \<^typ>\<open>string\<close> (a list of 8-bit \<^typ>\<open>char\<close>);
  \<open>[]byte\<close> is a list of 8-bit words; Go's \<open>int\<close> and \<open>uint\<close> are the 64-bit types of the
  platforms the router is shipped for.
\<close>

named_theorems inv_intros \<open>introduction rules for component invariants\<close>

type_synonym byte = "8 word"
type_synonym bytes = "8 word list"

section \<open>Strings and bytes\<close>

text \<open>The conversions \<open>[]byte(s)\<close> and \<open>string(b)\<close>.\<close>

definition bytes_of_string :: "string \<Rightarrow> bytes" where
  "bytes_of_string s = map of_char s"

definition string_of_bytes :: "bytes \<Rightarrow> string" where
  "string_of_bytes bs = map (\<lambda>b. char_of (unat b)) bs"

text \<open>
  \<open>make([]byte, n)\<close> panics when \<open>n\<close> is negative or larger than the address space the
  runtime manages (\<open>maxAlloc\<close>, 48 bits on the 64-bit Linux targets); the panic is \<open>None\<close>.
\<close>

definition maxAlloc :: int where
  "maxAlloc = 2 ^ 48"

definition make_bytes :: "int \<Rightarrow> bytes option" where
  "make_bytes n = (if n < 0 \<or> n > maxAlloc then None else Some (replicate (nat n) 0))"

section \<open>Decimal numbers\<close>

definition digit_char :: "nat \<Rightarrow> char" where
  "digit_char d = char_of (48 + d)"

definition digit_value :: "char \<Rightarrow> nat option" where
  "digit_value c = (let k = of_char c in if 48 \<le> k \<and> k \<le> (57::nat) then Some (k - 48) else None)"

fun show_nat :: "nat \<Rightarrow> string" where
  "show_nat n = (if n < 10 then [digit_char n] else show_nat (n div 10) @ [digit_char (n mod 10)])"

declare show_nat.simps [simp del]

definition show_int :: "int \<Rightarrow> string" where
  "show_int i = (if i < 0 then CHR ''-'' # show_nat (nat (- i)) else show_nat (nat i))"

fun parse_digits :: "nat \<Rightarrow> string \<Rightarrow> nat option" where
  "parse_digits acc [] = Some acc"
| "parse_digits acc (c # cs) =
     (case digit_value c of None \<Rightarrow> None | Some d \<Rightarrow> parse_digits (10 * acc + d) cs)"

text \<open>
  \<open>strconv.Atoi\<close>: an optional sign, at least one decimal digit, and a value in the range
  of \<open>int\<close>; anything else is an error (\<open>None\<close>).
\<close>

definition parse_magnitude :: "string \<Rightarrow> nat option" where
  "parse_magnitude s = (if s = [] then None else parse_digits 0 s)"

definition in_int64 :: "int \<Rightarrow> bool" where
  "in_int64 i \<longleftrightarrow> - (2 ^ 63) \<le> i \<and> i < 2 ^ 63"

definition Atoi :: "string \<Rightarrow> int option" where
  "Atoi s =
     (let signed = (\<lambda>sg ds. case parse_magnitude ds of
            None \<Rightarrow> None
          | Some m \<Rightarrow> if in_int64 (sg * int m) then Some (sg * int m) else None)
      in case s of
           [] \<Rightarrow> None
         | c # ds \<Rightarrow>
             if c = CHR ''-'' then signed (-1) ds
             else if c = CHR ''+'' then signed 1 ds
             else signed 1 s)"

section \<open>Lemmas on strings and bytes\<close>

lemma unat_of_char [simp]: "unat (of_char c :: 8 word) = of_char c"
proof -
  have "(of_char c :: 8 word) = of_nat (of_char c)"
    by (rule comm_semiring_1_class.of_nat_of_char [symmetric])
  then have "unat (of_char c :: 8 word) = of_char c mod 2 ^ 8"
    by (simp add: unat_of_nat)
  then show ?thesis
    using nat_of_char_less_256 [of c] by simp
qed

lemma bytes_string_roundtrip [simp]: "string_of_bytes (bytes_of_string s) = s"
  by (simp add: string_of_bytes_def bytes_of_string_def map_idI)

lemma length_bytes_of_string [simp]: "length (bytes_of_string s) = length s"
  by (simp add: bytes_of_string_def)

lemma bytes_of_string_inject [simp]: "bytes_of_string s = bytes_of_string t \<longleftrightarrow> s = t"
  by (metis bytes_string_roundtrip)

lemma make_bytes_Some: "make_bytes n = Some bs \<Longrightarrow> length bs = nat n \<and> 0 \<le> n"
  by (auto simp: make_bytes_def split: if_splits)

section \<open>Formatting and parsing decimal numbers\<close>

lemma digit_value_digit_char [simp]: "d < 10 \<Longrightarrow> digit_value (digit_char d) = Some d"
  by (simp add: digit_value_def digit_char_def Let_def)

lemma parse_digits_snoc:
  "parse_digits acc (ds @ [c]) =
     (case parse_digits acc ds of None \<Rightarrow> None
      | Some m \<Rightarrow> (case digit_value c of None \<Rightarrow> None | Some d \<Rightarrow> Some (10 * m + d)))"
  by (induction ds arbitrary: acc) (auto split: option.splits)

lemma show_nat_nonempty [simp]: "show_nat n \<noteq> []"
  by (subst show_nat.simps) simp

lemma parse_digits_show_nat [simp]: "parse_digits 0 (show_nat n) = Some n"
proof (induction n rule: show_nat.induct)
  case (1 n)
  show ?case
  proof (cases "n < 10")
    case True
    then show ?thesis by (subst show_nat.simps) simp
  next
    case False
    with "1.IH" have "parse_digits 0 (show_nat (n div 10)) = Some (n div 10)" by simp
    with False show ?thesis by (subst show_nat.simps) (simp add: parse_digits_snoc)
  qed
qed

lemma show_nat_inject [simp]: "show_nat m = show_nat n \<longleftrightarrow> m = n"
  by (metis option.inject parse_digits_show_nat)

lemma digit_value_set_show_nat: "c \<in> set (show_nat n) \<Longrightarrow> digit_value c \<noteq> None"
proof (induction n rule: show_nat.induct)
  case (1 n)
  show ?case
  proof (cases "n < 10")
    case True
    with "1.prems" show ?thesis by (subst (asm) show_nat.simps) simp
  next
    case False
    with "1.prems" have "c \<in> set (show_nat (n div 10)) \<or> c = digit_char (n mod 10)"
      by (subst (asm) show_nat.simps) auto
    with "1.IH" False show ?thesis by auto
  qed
qed

lemma sign_not_digit [simp]: "digit_value CHR ''-'' = None" "digit_value CHR ''+'' = None"
  by (simp_all add: digit_value_def)

lemma hd_show_nat: "show_nat n = c # cs \<Longrightarrow> c \<noteq> CHR ''-'' \<and> c \<noteq> CHR ''+''"
  using digit_value_set_show_nat [of c n] by force

lemma Atoi_show_int: "in_int64 i \<Longrightarrow> Atoi (show_int i) = Some i"
proof (cases "i < 0")
  case True
  moreover assume "in_int64 i"
  ultimately show ?thesis
    by (simp add: Atoi_def show_int_def parse_magnitude_def)
next
  case False
  moreover assume "in_int64 i"
  moreover obtain c cs where "show_nat (nat i) = c # cs"
    by (meson neq_Nil_conv show_nat_nonempty)
  ultimately show ?thesis
    using hd_show_nat [of "nat i" c cs] parse_digits_show_nat [of "nat i"]
    by (simp add: Atoi_def show_int_def parse_magnitude_def Let_def)
qed

lemma Atoi_in_range: "Atoi s = Some i \<Longrightarrow> in_int64 i"
  by (auto simp: Atoi_def Let_def split: list.splits option.splits if_splits)

section \<open>Invariants of step relations\<close>

text \<open>What holds at the start and is kept by every step holds in every state that the steps reach.\<close>

locale step_invariant =
  fixes init :: "'s \<Rightarrow> bool" and step :: "'s \<Rightarrow> 's \<Rightarrow> bool" and I :: "'s \<Rightarrow> bool"
  assumes init_inv: "init s \<Longrightarrow> I s"
    and step_inv: "\<lbrakk> step s s'; I s \<rbrakk> \<Longrightarrow> I s'"
begin

lemma steps_inv: "\<lbrakk> step\<^sup>*\<^sup>* s s'; I s \<rbrakk> \<Longrightarrow> I s'"
  by (induction rule: rtranclp_induct) (auto intro: step_inv)

lemma reachable_inv: "\<lbrakk> step\<^sup>*\<^sup>* s s'; init s \<rbrakk> \<Longrightarrow> I s'"
  using steps_inv init_inv by blast

end

end
