(* ===== verification/Go_Values.thy ===== *)
theory Go_Values
  imports Prelude
begin

text \<open>
  The Go run-time values the router handles: error values with their wrapping chain
  (\<open>fmt.Errorf\<close> with \<open>%w\<close>, \<open>errors.Is\<close>, \<open>errors.As\<close>), the dynamic values of type \<open>any\<close>
  that travel through the message codec, and the byte streams (\<open>io.Writer\<close>, \<open>net.Conn\<close>)
  that messages are written to.
\<close>

section \<open>Errors\<close>

text \<open>
  \<open>invalidRPCMessageError\<close> and \<open>ErrBufferLimitExceeded\<close> are the error types of package
  msgpackrpc; \<open>WrapError\<close> is what \<open>fmt.Errorf\<close> builds for a format with one \<open>%w\<close>: the
  formatted text and the wrapped error. Every other error (the operating system's, the
  codec's) is known to the router by its text only, except the sentinels the code
  compares with.
\<close>

datatype goerror =
    ErrorString string
  | EOF
  | ErrDeadlineExceeded
  | EAGAIN
  | EINTR
  | ErrBufferLimitExceeded int
  | InvalidRPCMessageError string "goerror option"
  | WrapError string goerror

fun Error :: "goerror \<Rightarrow> string" where
  "Error (ErrorString s) = s"
| "Error EOF = ''EOF''"
| "Error ErrDeadlineExceeded = ''i/o timeout''"
| "Error EAGAIN = ''resource temporarily unavailable''"
| "Error EINTR = ''interrupted system call''"
| "Error (ErrBufferLimitExceeded l) = ''buffer limit ('' @ show_int l @ '' bytes) exceeded''"
| "Error (InvalidRPCMessageError msg (Some cause)) = msg @ '': '' @ Error cause"
| "Error (InvalidRPCMessageError msg None) = msg"
| "Error (WrapError s e) = s"

definition Errorf_w :: "string \<Rightarrow> goerror \<Rightarrow> goerror" where
  "Errorf_w prefix e = WrapError (prefix @ '': '' @ Error e) e"

text \<open>The chain that \<open>errors.Is\<close> and \<open>errors.As\<close> walk by repeated \<open>Unwrap\<close>.\<close>

fun error_chain :: "goerror \<Rightarrow> goerror list" where
  "error_chain (WrapError s e) = WrapError s e # error_chain e"
| "error_chain (InvalidRPCMessageError msg (Some cause)) =
     InvalidRPCMessageError msg (Some cause) # error_chain cause"
| "error_chain e = [e]"

definition Is_ErrBufferLimitExceeded :: "goerror \<Rightarrow> bool" where
  "Is_ErrBufferLimitExceeded e \<longleftrightarrow>
     list_ex (\<lambda>x. case x of ErrBufferLimitExceeded _ \<Rightarrow> True | _ \<Rightarrow> False) (error_chain e)"

definition As_invalidRPCMessageError :: "goerror \<Rightarrow> bool" where
  "As_invalidRPCMessageError e \<longleftrightarrow>
     list_ex (\<lambda>x. case x of InvalidRPCMessageError _ _ \<Rightarrow> True | _ \<Rightarrow> False) (error_chain e)"

definition errors_Is :: "goerror \<Rightarrow> goerror \<Rightarrow> bool" where
  "errors_Is e target \<longleftrightarrow> target \<in> set (error_chain e)"

section \<open>Dynamic values\<close>

text \<open>
  A value of static type \<open>any\<close>, tagged with its dynamic type. Floating-point values are
  their IEEE bit patterns. \<open>GoOther\<close> stands for every dynamic type the router never
  looks into (\<open>time.Time\<close>, codec extension types), by its type name.
\<close>

datatype any =
    GoNil
  | GoBool bool
  | GoInt "64 word" | GoInt8 "8 word" | GoInt16 "16 word" | GoInt32 "32 word" | GoInt64 "64 word"
  | GoUint "64 word" | GoUint8 "8 word" | GoUint16 "16 word" | GoUint32 "32 word" | GoUint64 "64 word"
  | GoFloat32 "32 word" | GoFloat64 "64 word"
  | GoString string
  | GoBytes bytes
  | GoRawMessage bytes
  | GoSlice "any list"
  | GoMapString "(string \<times> any) list"
  | GoMapAny "(any \<times> any) list"
  | GoError goerror
  | GoOther string

text \<open>The \<open>%T\<close> verb of \<open>fmt\<close>.\<close>

fun type_name :: "any \<Rightarrow> string" where
  "type_name GoNil = ''<nil>''"
| "type_name (GoBool _) = ''bool''"
| "type_name (GoInt _) = ''int''"
| "type_name (GoInt8 _) = ''int8''"
| "type_name (GoInt16 _) = ''int16''"
| "type_name (GoInt32 _) = ''int32''"
| "type_name (GoInt64 _) = ''int64''"
| "type_name (GoUint _) = ''uint''"
| "type_name (GoUint8 _) = ''uint8''"
| "type_name (GoUint16 _) = ''uint16''"
| "type_name (GoUint32 _) = ''uint32''"
| "type_name (GoUint64 _) = ''uint64''"
| "type_name (GoFloat32 _) = ''float32''"
| "type_name (GoFloat64 _) = ''float64''"
| "type_name (GoString _) = ''string''"
| "type_name (GoBytes _) = ''[]uint8''"
| "type_name (GoRawMessage _) = ''msgpack.RawMessage''"
| "type_name (GoSlice _) = ''[]interface {}''"
| "type_name (GoMapString _) = ''map[string]interface {}''"
| "type_name (GoMapAny _) = ''map[interface {}]interface {}''"
| "type_name (GoError e) =
     (case e of WrapError _ _ \<Rightarrow> ''*fmt.wrapError''
      | InvalidRPCMessageError _ _ \<Rightarrow> ''*msgpackrpc.invalidRPCMessageError''
      | ErrBufferLimitExceeded _ \<Rightarrow> ''*msgpackrpc.ErrBufferLimitExceeded''
      | _ \<Rightarrow> ''*errors.errorString'')"
| "type_name (GoOther t) = t"

text \<open>The mathematical value of a Go integer, whatever its dynamic type.\<close>

fun int_value :: "any \<Rightarrow> int option" where
  "int_value (GoInt v) = Some (sint v)"
| "int_value (GoInt8 v) = Some (sint v)"
| "int_value (GoInt16 v) = Some (sint v)"
| "int_value (GoInt32 v) = Some (sint v)"
| "int_value (GoInt64 v) = Some (sint v)"
| "int_value (GoUint v) = Some (uint v)"
| "int_value (GoUint8 v) = Some (uint v)"
| "int_value (GoUint16 v) = Some (uint v)"
| "int_value (GoUint32 v) = Some (uint v)"
| "int_value (GoUint64 v) = Some (uint v)"
| "int_value _ = None"

text \<open>The type assertion \<open>v.(string)\<close> with its \<open>ok\<close> result.\<close>

fun as_string :: "any \<Rightarrow> string option" where
  "as_string (GoString s) = Some s"
| "as_string _ = None"

text \<open>\<open>v.([]byte)\<close>, falling back to \<open>v.(string)\<close>: the data parameter of every write method.\<close>

fun as_data :: "any \<Rightarrow> bytes option" where
  "as_data (GoBytes b) = Some b"
| "as_data (GoString s) = Some (bytes_of_string s)"
| "as_data _ = None"

section \<open>Writers\<close>

text \<open>
  \<open>io.Writer.Write\<close> as a state transformer: the number of bytes taken, the error, and the
  new writer. \<open>write_chunks\<close> is a sequence of writes that stops at the first error.
\<close>

type_synonym 'w writer = "'w \<Rightarrow> bytes \<Rightarrow> nat \<times> goerror option \<times> 'w"

fun write_chunks :: "'w writer \<Rightarrow> 'w \<Rightarrow> bytes list \<Rightarrow> goerror option \<times> 'w" where
  "write_chunks wr w [] = (None, w)"
| "write_chunks wr w (p # ps) =
     (case wr w p of
        (n, Some e, w') \<Rightarrow> (Some e, w')
      | (n, None, w') \<Rightarrow> write_chunks wr w' ps)"

text \<open>
  An open stream (\<open>net.Conn\<close>, a pipe, a serial port) seen from the writing side: the bytes
  accepted so far, how many more it will take before a write fails (\<open>None\<close>: no failure),
  the error it then reports, and whether it was closed.
\<close>

record out_stream =
  sent :: bytes
  capacity :: "nat option"
  fail_with :: goerror
  out_closed :: bool

definition stream_Write :: "out_stream writer" where
  "stream_Write st p =
     (if out_closed st then (0, Some (ErrorString ''use of closed network connection''), st)
      else case capacity st of
        None \<Rightarrow> (length p, None, st\<lparr>sent := sent st @ p\<rparr>)
      | Some k \<Rightarrow>
          if length p \<le> k
          then (length p, None, st\<lparr>sent := sent st @ p, capacity := Some (k - length p)\<rparr>)
          else (k, Some (fail_with st), st\<lparr>sent := sent st @ take k p, capacity := Some 0\<rparr>))"

definition stream_Close :: "out_stream \<Rightarrow> out_stream" where
  "stream_Close st = st\<lparr>out_closed := True\<rparr>"

definition new_stream :: out_stream where
  "new_stream = \<lparr>sent = [], capacity = None, fail_with = EOF, out_closed = False\<rparr>"

section \<open>The contract of a writer\<close>

text \<open>
  What the \<open>io.Writer\<close> documentation promises: the count is at most the length, a short
  count comes with an error, and what was counted is appended to the content.
\<close>

locale byte_sink =
  fixes wr :: "'w writer"
    and content :: "'w \<Rightarrow> bytes"
    and sink_inv :: "'w \<Rightarrow> bool"
  assumes write_appends: "sink_inv w \<Longrightarrow> wr w p = (n, e, w') \<Longrightarrow> content w' = content w @ take n p"
    and write_short: "sink_inv w \<Longrightarrow> wr w p = (n, None, w') \<Longrightarrow> n = length p"
    and write_inv: "sink_inv w \<Longrightarrow> wr w p = (n, e, w') \<Longrightarrow> sink_inv w'"
begin

lemma write_chunks_inv: "sink_inv w \<Longrightarrow> write_chunks wr w ps = (e, w') \<Longrightarrow> sink_inv w'"
  by (induction ps arbitrary: w) (auto split: prod.splits option.splits dest: write_inv)

lemma write_chunks_ok:
  "sink_inv w \<Longrightarrow> write_chunks wr w ps = (None, w') \<Longrightarrow> content w' = content w @ concat ps"
proof (induction ps arbitrary: w)
  case Nil
  then show ?case by simp
next
  case (Cons p ps)
  from Cons.prems(2) obtain n w1 where wr: "wr w p = (n, None, w1)"
    and rest: "write_chunks wr w1 ps = (None, w')"
    by (auto split: prod.splits option.splits)
  from Cons.prems(1) wr have "content w1 = content w @ p"
    using write_appends write_short by fastforce
  moreover from Cons.prems(1) wr have "sink_inv w1" by (rule write_inv)
  with rest have "content w' = content w1 @ concat ps" using Cons.IH by blast
  ultimately show ?case by simp
qed

lemma write_chunks_prefix:
  "sink_inv w \<Longrightarrow> write_chunks wr w ps = (e, w') \<Longrightarrow>
     \<exists>k. content w' = content w @ take k (concat ps)"
proof (induction ps arbitrary: w)
  case Nil
  then show ?case by simp
next
  case (Cons p ps)
  obtain n e1 w1 where wr: "wr w p = (n, e1, w1)" by (cases "wr w p") auto
  with Cons.prems(1) have c1: "content w1 = content w @ take n p" by (blast dest: write_appends)
  show ?case
  proof (cases e1)
    case (Some err)
    with wr Cons.prems(2) have "w' = w1" by simp
    with c1 have "content w' = content w @ take (min n (length p)) (concat (p # ps))"
      by (simp add: min_def)
    then show ?thesis by blast
  next
    case None
    with wr Cons.prems have "write_chunks wr w1 ps = (e, w')" and "sink_inv w1"
      by (auto dest: write_inv)
    then obtain k where "content w' = content w1 @ take k (concat ps)" using Cons.IH by blast
    moreover have "n = length p" using write_short Cons.prems(1) wr None by blast
    ultimately have "content w' = content w @ take (length p + k) (concat (p # ps))"
      using c1 by simp
    then show ?thesis by blast
  qed
qed

end

section \<open>Streams satisfy the contract\<close>

interpretation stream_sink: byte_sink stream_Write sent "\<lambda>_. True"
  by unfold_locales (auto simp: stream_Write_def split: if_splits option.splits)

lemma stream_Write_unlimited:
  "\<lbrakk> \<not> out_closed st; capacity st = None \<rbrakk> \<Longrightarrow>
     stream_Write st p = (length p, None, st\<lparr>sent := sent st @ p\<rparr>)"
  by (simp add: stream_Write_def)

lemma stream_Write_closed:
  "out_closed st \<Longrightarrow> \<exists>e. stream_Write st p = (0, Some e, st)"
  by (simp add: stream_Write_def)

lemma stream_Write_keeps_closed:
  "stream_Write st p = (n, e, st') \<Longrightarrow> out_closed st' = out_closed st"
  by (auto simp: stream_Write_def split: if_splits option.splits)

section \<open>Error chains\<close>

lemma error_chain_self [simp]: "e \<in> set (error_chain e)"
  by (induction e rule: error_chain.induct) auto

lemma Is_ErrBufferLimitExceeded_simps [simp]:
  "Is_ErrBufferLimitExceeded (ErrBufferLimitExceeded l)"
  "Is_ErrBufferLimitExceeded (WrapError s e) = Is_ErrBufferLimitExceeded e"
  "Is_ErrBufferLimitExceeded (Errorf_w s e) = Is_ErrBufferLimitExceeded e"
  "\<not> Is_ErrBufferLimitExceeded (ErrorString s)"
  "\<not> Is_ErrBufferLimitExceeded EOF"
  by (simp_all add: Is_ErrBufferLimitExceeded_def Errorf_w_def)

lemma As_invalidRPCMessageError_simps [simp]:
  "As_invalidRPCMessageError (InvalidRPCMessageError m c)"
  "As_invalidRPCMessageError (WrapError s e) = As_invalidRPCMessageError e"
  "As_invalidRPCMessageError (Errorf_w s e) = As_invalidRPCMessageError e"
  "\<not> As_invalidRPCMessageError (ErrorString s)"
  "\<not> As_invalidRPCMessageError EOF"
  by (cases c; simp add: As_invalidRPCMessageError_def Errorf_w_def)+

end
