(* ===== verification/Msgpack_Codec.thy ===== *)
theory Msgpack_Codec
  imports Go_Values
begin

text \<open>
  The MessagePack library (\<open>github.com/vmihailenco/msgpack/v5\<close>) is not part of the
  repository: it is a parameter of the model, a record of the operations the router calls.
  A decoder is the list of bytes still to be read from the stream (the stream ends where
  the list ends), an encoder yields the chunks it writes.

  What the router relies on is stated as two locales: \<open>msgpack_progress\<close> (reading never
  gives bytes back and makes progress, and the library's errors are not of the router's own
  private error type) and \<open>msgpack_format\<close>, which extends it with the
  round-trip laws of the MessagePack format for the values \<open>wire\<close> holds of. Theory
  \<open>Msgpack_Format\<close> shows that the format itself satisfies them.
\<close>

section \<open>The library's operations\<close>

text \<open>
  \<open>PeekCode\<close> looks at the next type code; \<open>DecodeArrayLen\<close> returns the length and an error;
  \<open>DecodeInterface\<close>, \<open>DecodeRaw\<close> and \<open>Skip\<close> read one value; \<open>Unmarshal\<close> decodes a byte slice
  into a variable (the value left there, and the error); \<open>Encode\<close> gives the chunks written
  to the underlying writer and the encoder's own error, if any.
\<close>

record msgpack =
  PeekCode :: "bytes \<Rightarrow> goerror + byte"
  DecodeArrayLen :: "bytes \<Rightarrow> (int \<times> goerror option) \<times> bytes"
  DecodeInterface :: "bytes \<Rightarrow> (goerror + any) \<times> bytes"
  DecodeRaw :: "bytes \<Rightarrow> (goerror + bytes) \<times> bytes"
  Skip :: "bytes \<Rightarrow> goerror option \<times> bytes"
  Unmarshal :: "bytes \<Rightarrow> any \<times> goerror option"
  Encode :: "any \<Rightarrow> bytes list \<times> goerror option"

text \<open>\<open>msgpcode.IsFixedArray(t) || t == msgpcode.Array16 || t == msgpcode.Array32\<close>.\<close>

definition is_array_code :: "byte \<Rightarrow> bool" where
  "is_array_code t \<longleftrightarrow> (0x90 \<le> t \<and> t \<le> 0x9f) \<or> t = 0xdc \<or> t = 0xdd"

text \<open>All the bytes of an encoded value.\<close>

definition enc :: "msgpack \<Rightarrow> any \<Rightarrow> bytes" where
  "enc M v = concat (fst (Encode M v))"

text \<open>\<open>msgpack.Encoder.Encode\<close> on a writer: the chunks in order, then the encoder's error.\<close>

definition encode_to :: "msgpack \<Rightarrow> 'w writer \<Rightarrow> 'w \<Rightarrow> any \<Rightarrow> goerror option \<times> 'w" where
  "encode_to M wr w v =
     (case write_chunks wr w (fst (Encode M v)) of
        (Some e, w') \<Rightarrow> (Some e, w')
      | (None, w') \<Rightarrow> (snd (Encode M v), w'))"

section \<open>Progress\<close>

locale msgpack_progress =
  fixes M :: msgpack
  assumes skip_shrinks: "Skip M s = (None, s') \<Longrightarrow> length s' < length s"
    and skip_le: "Skip M s = (e, s') \<Longrightarrow> length s' \<le> length s"
    and arraylen_shrinks: "\<lbrakk> PeekCode M s = Inr t; is_array_code t; DecodeArrayLen M s = (le, s') \<rbrakk>
        \<Longrightarrow> length s' < length s"
    and arraylen_le: "DecodeArrayLen M s = (le, s') \<Longrightarrow> length s' \<le> length s"
    and arraylen_nonneg: "\<lbrakk> PeekCode M s = Inr t; is_array_code t; DecodeArrayLen M s = ((l, e), s') \<rbrakk>
        \<Longrightarrow> 0 \<le> l"
    and interface_le: "DecodeInterface M s = (v, s') \<Longrightarrow> length s' \<le> length s"
    and raw_le: "DecodeRaw M s = (b, s') \<Longrightarrow> length s' \<le> length s"
    and peek_end: "\<exists>err. PeekCode M [] = Inl err"
    and peek_error: "PeekCode M s = Inl err \<Longrightarrow> \<not> As_invalidRPCMessageError err"
    and skip_error: "Skip M s = (Some err, s') \<Longrightarrow> \<not> As_invalidRPCMessageError err"

section \<open>Round trips\<close>

text \<open>
  \<open>wire v\<close>: the value has a MessagePack representation within the format's size limits and
  contains no pre-encoded part. \<open>norm v\<close> is the value a reader gets back: integers come
  back in the smallest Go type that the wire form suggests, everything else unchanged.
\<close>

locale msgpack_format = msgpack_progress +
  fixes norm :: "any \<Rightarrow> any"
    and wire :: "any \<Rightarrow> bool"
  assumes wire_slice: "wire (GoSlice vs) \<longleftrightarrow> length vs < 2 ^ 32 \<and> (\<forall>v \<in> set vs. wire v)"
    and wire_nil: "wire GoNil"
    and wire_bool: "wire (GoBool bl)"
    and wire_int: "int_value v = Some n \<Longrightarrow> wire v"
    and wire_string: "length str < 2 ^ 32 \<Longrightarrow> wire (GoString str)"
    and encode_ok: "wire v \<Longrightarrow> snd (Encode M v) = None"
    and encode_raw: "enc M (GoRawMessage b) = b" "snd (Encode M (GoRawMessage b)) = None"
    and encode_slice_ok: "\<lbrakk> length vs < 2 ^ 32; \<forall>v \<in> set vs. snd (Encode M v) = None \<rbrakk>
        \<Longrightarrow> snd (Encode M (GoSlice vs)) = None"
    and encode_slice_cong: "map (enc M) vs = map (enc M) vs' \<Longrightarrow> enc M (GoSlice vs) = enc M (GoSlice vs')"
    and peek_slice: "wire (GoSlice vs) \<Longrightarrow>
        \<exists>t. PeekCode M (enc M (GoSlice vs) @ r) = Inr t \<and> is_array_code t"
    and peek_other: "\<lbrakk> wire v; \<forall>vs. v \<noteq> GoSlice vs \<rbrakk> \<Longrightarrow>
        \<exists>t. PeekCode M (enc M v @ r) = Inr t \<and> \<not> is_array_code t"
    and arraylen_enc: "wire (GoSlice vs) \<Longrightarrow>
        DecodeArrayLen M (enc M (GoSlice vs) @ r)
          = ((int (length vs), None), concat (map (enc M) vs) @ r)"
    and interface_enc: "wire v \<Longrightarrow> DecodeInterface M (enc M v @ r) = (Inr (norm v), r)"
    and raw_enc: "wire v \<Longrightarrow> DecodeRaw M (enc M v @ r) = (Inr (enc M v), r)"
    and skip_enc: "wire v \<Longrightarrow> Skip M (enc M v @ r) = (None, r)"
    and unmarshal_enc: "wire v \<Longrightarrow> Unmarshal M (enc M v) = (norm v, None)"
    and norm_int: "wire v \<Longrightarrow> int_value (norm v) = int_value v"
    and norm_string: "wire v \<Longrightarrow> as_string (norm v) = as_string v"
    and norm_nil: "norm GoNil = GoNil"
    and norm_slice: "norm (GoSlice vs) = GoSlice (map norm vs)"
begin

lemmas wire_simps = wire_slice wire_nil wire_bool wire_string

lemma wire_method: "wire (GoString str) \<Longrightarrow> norm (GoString str) = GoString str"
  using norm_string [of "GoString str"] by (cases "norm (GoString str)") auto

text \<open>A message whose parts are already encoded is encoded as if they were not.\<close>

lemma enc_raw_slice: "enc M (GoSlice (map (\<lambda>v. GoRawMessage (enc M v)) vs)) = enc M (GoSlice vs)"
  by (rule encode_slice_cong) (simp add: encode_raw)

lemma encode_raw_slice_ok:
  "length bs < 2 ^ 32 \<Longrightarrow> snd (Encode M (GoSlice (map GoRawMessage bs))) = None"
  by (rule encode_slice_ok) (auto simp: encode_raw)

end

section \<open>Sizes\<close>

text \<open>The sizes the format fixes for short values.\<close>

locale msgpack_sizes = msgpack_format +
  assumes size_nil: "length (enc M GoNil) = 1"
    and size_int: "int_value v = Some n \<Longrightarrow> length (enc M v) \<le> 9"
    and size_small_int: "\<lbrakk> int_value v = Some n; 0 \<le> n; n < 128 \<rbrakk> \<Longrightarrow> length (enc M v) = 1"
    and size_string: "length str < 32 \<Longrightarrow> length (enc M (GoString str)) = Suc (length str)"
    and size_slice: "length vs < 16 \<Longrightarrow>
        length (enc M (GoSlice vs)) = Suc (sum_list (map (\<lambda>v. length (enc M v)) vs))"

section \<open>Encoding into a writer\<close>

context byte_sink
begin

lemma encode_to_ok:
  "\<lbrakk> sink_inv w; encode_to M wr w v = (None, w') \<rbrakk> \<Longrightarrow> content w' = content w @ enc M v"
  by (auto simp: encode_to_def enc_def split: prod.splits option.splits dest: write_chunks_ok)

lemma encode_to_inv: "\<lbrakk> sink_inv w; encode_to M wr w v = (e, w') \<rbrakk> \<Longrightarrow> sink_inv w'"
  by (auto simp: encode_to_def split: prod.splits option.splits dest: write_chunks_inv)

end

end
