(* ===== verification/Msgpack_Format.thy ===== *)
theory Msgpack_Format
  imports Msgpack_Codec
begin

text \<open>
  The MessagePack format (\<open>https://github.com/msgpack/msgpack/blob/master/spec.md\<close>) as a
  concrete value of the parameter \<^typ>\<open>msgpack\<close>: compact integers, strings, binary, floats,
  arrays and string-keyed maps. It models no code of the repository; it shows that the
  laws of \<open>msgpack_format\<close> and \<open>msgpack_sizes\<close> hold of the format, and it is the instance
  that the witnesses evaluate.
\<close>

section \<open>Big-endian numbers\<close>

primrec be_bytes :: "nat \<Rightarrow> nat \<Rightarrow> bytes" where
  "be_bytes 0 n = []"
| "be_bytes (Suc k) n = of_nat (n div 256 ^ k) # be_bytes k n"

definition be_val :: "bytes \<Rightarrow> nat" where
  "be_val bs = foldl (\<lambda>a b. 256 * a + unat b) 0 bs"

lemma length_be_bytes [simp]: "length (be_bytes k n) = k"
  by (induction k) auto

lemma foldl_be_bytes:
  "foldl (\<lambda>a b. 256 * a + unat b) a (be_bytes k n) = a * 256 ^ k + n mod 256 ^ k"
proof (induction k arbitrary: a)
  case 0
  then show ?case by simp
next
  case (Suc k)
  have "n mod 256 ^ Suc k = 256 ^ k * (n div 256 ^ k mod 256) + n mod 256 ^ k"
    using mod_mult2_eq [of n "256 ^ k" 256] by (simp add: mult.commute)
  moreover have "unat (of_nat (n div 256 ^ k) :: 8 word) = n div 256 ^ k mod 256"
    by (simp add: unat_of_nat)
  ultimately show ?case using Suc by (simp add: algebra_simps)
qed

lemma be_val_be_bytes [simp]: "be_val (be_bytes k n) = n mod 256 ^ k"
  by (simp add: be_val_def foldl_be_bytes)

definition take_be :: "nat \<Rightarrow> bytes \<Rightarrow> (nat \<times> bytes) option" where
  "take_be k s = (if length s < k then None else Some (be_val (take k s), drop k s))"

lemma take_be_bytes [simp]: "take_be k (be_bytes k n @ r) = Some (n mod 256 ^ k, r)"
  by (simp add: take_be_def)

declare be_bytes.simps [simp del]

section \<open>Encoding\<close>

definition mp_int :: "int \<Rightarrow> bytes" where
  "mp_int n =
     (if - 32 \<le> n \<and> n < 128 then [word_of_int n]
      else if 0 \<le> n then
        (if n < 2 ^ 8 then 0xcc # be_bytes 1 (nat n)
         else if n < 2 ^ 16 then 0xcd # be_bytes 2 (nat n)
         else if n < 2 ^ 32 then 0xce # be_bytes 4 (nat n)
         else 0xcf # be_bytes 8 (nat n))
      else if - (2 ^ 7) \<le> n then 0xd0 # be_bytes 1 (nat (n mod 2 ^ 8))
      else if - (2 ^ 15) \<le> n then 0xd1 # be_bytes 2 (nat (n mod 2 ^ 16))
      else if - (2 ^ 31) \<le> n then 0xd2 # be_bytes 4 (nat (n mod 2 ^ 32))
      else 0xd3 # be_bytes 8 (nat (n mod 2 ^ 64)))"

definition mp_str_head :: "nat \<Rightarrow> bytes" where
  "mp_str_head n =
     (if n < 32 then [0xa0 + of_nat n]
      else if n < 2 ^ 8 then 0xd9 # be_bytes 1 n
      else if n < 2 ^ 16 then 0xda # be_bytes 2 n
      else 0xdb # be_bytes 4 n)"

definition mp_str :: "string \<Rightarrow> bytes" where
  "mp_str s = mp_str_head (length s) @ bytes_of_string s"

definition mp_bin_head :: "nat \<Rightarrow> bytes" where
  "mp_bin_head n =
     (if n < 2 ^ 8 then 0xc4 # be_bytes 1 n
      else if n < 2 ^ 16 then 0xc5 # be_bytes 2 n
      else 0xc6 # be_bytes 4 n)"

definition mp_arr_head :: "nat \<Rightarrow> bytes" where
  "mp_arr_head n =
     (if n < 16 then [0x90 + of_nat n]
      else if n < 2 ^ 16 then 0xdc # be_bytes 2 n
      else 0xdd # be_bytes 4 n)"

definition mp_map_head :: "nat \<Rightarrow> bytes" where
  "mp_map_head n =
     (if n < 16 then [0x80 + of_nat n]
      else if n < 2 ^ 16 then 0xde # be_bytes 2 n
      else 0xdf # be_bytes 4 n)"

fun mp_enc :: "any \<Rightarrow> bytes" where
  "mp_enc GoNil = [0xc0]"
| "mp_enc (GoBool b) = [if b then 0xc3 else 0xc2]"
| "mp_enc (GoInt v) = mp_int (sint v)"
| "mp_enc (GoInt8 v) = mp_int (sint v)"
| "mp_enc (GoInt16 v) = mp_int (sint v)"
| "mp_enc (GoInt32 v) = mp_int (sint v)"
| "mp_enc (GoInt64 v) = mp_int (sint v)"
| "mp_enc (GoUint v) = mp_int (uint v)"
| "mp_enc (GoUint8 v) = mp_int (uint v)"
| "mp_enc (GoUint16 v) = mp_int (uint v)"
| "mp_enc (GoUint32 v) = mp_int (uint v)"
| "mp_enc (GoUint64 v) = mp_int (uint v)"
| "mp_enc (GoFloat32 w) = 0xca # be_bytes 4 (unat w)"
| "mp_enc (GoFloat64 w) = 0xcb # be_bytes 8 (unat w)"
| "mp_enc (GoString s) = mp_str s"
| "mp_enc (GoBytes b) = mp_bin_head (length b) @ b"
| "mp_enc (GoRawMessage b) = b"
| "mp_enc (GoSlice vs) = mp_arr_head (length vs) @ concat (map mp_enc vs)"
| "mp_enc (GoMapString kvs) =
     mp_map_head (length kvs) @ concat (map (\<lambda>kv. mp_str (fst kv) @ mp_enc (snd kv)) kvs)"
| "mp_enc (GoMapAny kvs) =
     mp_map_head (length kvs) @ concat (map (\<lambda>kv. mp_enc (fst kv) @ mp_enc (snd kv)) kvs)"
| "mp_enc (GoError e) = mp_str (Error e)"
| "mp_enc (GoOther t) = []"

fun mp_supported :: "any \<Rightarrow> bool" where
  "mp_supported (GoSlice vs) = list_all mp_supported vs"
| "mp_supported (GoMapString kvs) = list_all (\<lambda>kv. mp_supported (snd kv)) kvs"
| "mp_supported (GoMapAny kvs) = list_all (\<lambda>kv. mp_supported (fst kv) \<and> mp_supported (snd kv)) kvs"
| "mp_supported (GoOther t) = False"
| "mp_supported _ = True"

fun mp_wire :: "any \<Rightarrow> bool" where
  "mp_wire (GoString s) = (length s < 2 ^ 32)"
| "mp_wire (GoBytes b) = (length b < 2 ^ 32)"
| "mp_wire (GoSlice vs) = (length vs < 2 ^ 32 \<and> list_all mp_wire vs)"
| "mp_wire (GoMapString kvs) =
     (length kvs < 2 ^ 32 \<and> list_all (\<lambda>kv. length (fst kv) < 2 ^ 32 \<and> mp_wire (snd kv)) kvs)"
| "mp_wire (GoRawMessage b) = False"
| "mp_wire (GoMapAny kvs) = False"
| "mp_wire (GoError e) = False"
| "mp_wire (GoOther t) = False"
| "mp_wire _ = True"

definition mp_norm_int :: "int \<Rightarrow> any" where
  "mp_norm_int n =
     (if - 32 \<le> n \<and> n < 128 then GoInt8 (word_of_int n)
      else if 0 \<le> n then
        (if n < 2 ^ 8 then GoUint8 (word_of_int n)
         else if n < 2 ^ 16 then GoUint16 (word_of_int n)
         else if n < 2 ^ 32 then GoUint32 (word_of_int n)
         else GoUint64 (word_of_int n))
      else if - (2 ^ 7) \<le> n then GoInt8 (word_of_int n)
      else if - (2 ^ 15) \<le> n then GoInt16 (word_of_int n)
      else if - (2 ^ 31) \<le> n then GoInt32 (word_of_int n)
      else GoInt64 (word_of_int n))"

fun mp_norm :: "any \<Rightarrow> any" where
  "mp_norm (GoSlice vs) = GoSlice (map mp_norm vs)"
| "mp_norm (GoMapString kvs) = GoMapString (map (\<lambda>kv. (fst kv, mp_norm (snd kv))) kvs)"
| "mp_norm v = (case int_value v of Some n \<Rightarrow> mp_norm_int n | None \<Rightarrow> v)"

section \<open>Decoding\<close>

text \<open>
  The head of a value: a complete leaf, or the number of elements of an array or map whose
  elements follow.
\<close>

datatype mp_head = HLeaf any | HArray nat | HMap nat

definition need :: "nat \<Rightarrow> bytes \<Rightarrow> (nat \<Rightarrow> 'a) \<Rightarrow> (goerror + 'a) \<times> bytes" where
  "need k s f = (case take_be k s of None \<Rightarrow> (Inl EOF, []) | Some (n, r) \<Rightarrow> (Inr (f n), r))"

definition need_blob :: "nat \<Rightarrow> bytes \<Rightarrow> (bytes \<Rightarrow> 'a) \<Rightarrow> (goerror + 'a) \<times> bytes" where
  "need_blob n s f = (if length s < n then (Inl EOF, []) else (Inr (f (take n s)), drop n s))"

definition need_sized :: "nat \<Rightarrow> bytes \<Rightarrow> (bytes \<Rightarrow> 'a) \<Rightarrow> (goerror + 'a) \<times> bytes" where
  "need_sized k s f = (case take_be k s of None \<Rightarrow> (Inl EOF, []) | Some (n, r) \<Rightarrow> need_blob n r f)"

definition leaf_string :: "bytes \<Rightarrow> mp_head" where
  "leaf_string b = HLeaf (GoString (string_of_bytes b))"

definition leaf_bytes :: "bytes \<Rightarrow> mp_head" where
  "leaf_bytes b = HLeaf (GoBytes b)"

definition mp_decode_code :: "byte \<Rightarrow> bytes \<Rightarrow> (goerror + mp_head) \<times> bytes" where
  "mp_decode_code c r =
     (if c \<le> 0x7f \<or> 0xe0 \<le> c then (Inr (HLeaf (GoInt8 c)), r)
      else if c \<le> 0x8f then (Inr (HMap (unat (c - 0x80))), r)
      else if c \<le> 0x9f then (Inr (HArray (unat (c - 0x90))), r)
      else if c \<le> 0xbf then need_blob (unat (c - 0xa0)) r leaf_string
      else if c = 0xc0 then (Inr (HLeaf GoNil), r)
      else if c = 0xc2 then (Inr (HLeaf (GoBool False)), r)
      else if c = 0xc3 then (Inr (HLeaf (GoBool True)), r)
      else if c = 0xc4 then need_sized 1 r leaf_bytes
      else if c = 0xc5 then need_sized 2 r leaf_bytes
      else if c = 0xc6 then need_sized 4 r leaf_bytes
      else if c = 0xca then need 4 r (\<lambda>n. HLeaf (GoFloat32 (of_nat n)))
      else if c = 0xcb then need 8 r (\<lambda>n. HLeaf (GoFloat64 (of_nat n)))
      else if c = 0xcc then need 1 r (\<lambda>n. HLeaf (GoUint8 (of_nat n)))
      else if c = 0xcd then need 2 r (\<lambda>n. HLeaf (GoUint16 (of_nat n)))
      else if c = 0xce then need 4 r (\<lambda>n. HLeaf (GoUint32 (of_nat n)))
      else if c = 0xcf then need 8 r (\<lambda>n. HLeaf (GoUint64 (of_nat n)))
      else if c = 0xd0 then need 1 r (\<lambda>n. HLeaf (GoInt8 (of_nat n)))
      else if c = 0xd1 then need 2 r (\<lambda>n. HLeaf (GoInt16 (of_nat n)))
      else if c = 0xd2 then need 4 r (\<lambda>n. HLeaf (GoInt32 (of_nat n)))
      else if c = 0xd3 then need 8 r (\<lambda>n. HLeaf (GoInt64 (of_nat n)))
      else if c = 0xd9 then need_sized 1 r leaf_string
      else if c = 0xda then need_sized 2 r leaf_string
      else if c = 0xdb then need_sized 4 r leaf_string
      else if c = 0xdc then need 2 r HArray
      else if c = 0xdd then need 4 r HArray
      else if c = 0xde then need 2 r HMap
      else if c = 0xdf then need 4 r HMap
      else (Inl (ErrorString ''msgpack: unknown code''), r))"

definition mp_head_of :: "bytes \<Rightarrow> (goerror + mp_head) \<times> bytes" where
  "mp_head_of s = (case s of [] \<Rightarrow> (Inl EOF, []) | c # r \<Rightarrow> mp_decode_code c r)"

primrec dec_n :: "(bytes \<Rightarrow> (goerror + 'a) \<times> bytes) \<Rightarrow> nat \<Rightarrow> bytes \<Rightarrow> (goerror + 'a list) \<times> bytes" where
  "dec_n d 0 s = (Inr [], s)"
| "dec_n d (Suc n) s =
     (case d s of
        (Inl e, r) \<Rightarrow> (Inl e, r)
      | (Inr v, r) \<Rightarrow>
          (case dec_n d n r of (Inl e, r') \<Rightarrow> (Inl e, r') | (Inr vs, r') \<Rightarrow> (Inr (v # vs), r')))"

definition dec_pair :: "(bytes \<Rightarrow> (goerror + any) \<times> bytes) \<Rightarrow> bytes \<Rightarrow> (goerror + (string \<times> any)) \<times> bytes" where
  "dec_pair d s =
     (case d s of
        (Inl e, r) \<Rightarrow> (Inl e, r)
      | (Inr k, r) \<Rightarrow>
          (case as_string k of
             None \<Rightarrow> (Inl (ErrorString ''msgpack: invalid map key''), r)
           | Some ks \<Rightarrow> (case d r of (Inl e, r') \<Rightarrow> (Inl e, r') | (Inr v, r') \<Rightarrow> (Inr (ks, v), r'))))"

text \<open>Nesting is bounded by the number of bytes, which is the fuel given below.\<close>

primrec mp_dec :: "nat \<Rightarrow> bytes \<Rightarrow> (goerror + any) \<times> bytes" where
  "mp_dec 0 s = (Inl EOF, s)"
| "mp_dec (Suc f) s =
     (case mp_head_of s of
        (Inl e, r) \<Rightarrow> (Inl e, r)
      | (Inr (HLeaf v), r) \<Rightarrow> (Inr v, r)
      | (Inr (HArray n), r) \<Rightarrow>
          (case dec_n (mp_dec f) n r of (Inl e, r') \<Rightarrow> (Inl e, r') | (Inr vs, r') \<Rightarrow> (Inr (GoSlice vs), r'))
      | (Inr (HMap n), r) \<Rightarrow>
          (case dec_n (dec_pair (mp_dec f)) n r of
             (Inl e, r') \<Rightarrow> (Inl e, r') | (Inr kvs, r') \<Rightarrow> (Inr (GoMapString kvs), r')))"

definition mp_decode :: "bytes \<Rightarrow> (goerror + any) \<times> bytes" where
  "mp_decode s = mp_dec (Suc (length s)) s"

definition mp_codec :: msgpack where
  "mp_codec = \<lparr>
     PeekCode = (\<lambda>s. case s of [] \<Rightarrow> Inl EOF | c # _ \<Rightarrow> Inr c),
     DecodeArrayLen = (\<lambda>s. case mp_head_of s of
         (Inr (HArray n), r) \<Rightarrow> ((int n, None), r)
       | (Inl e, r) \<Rightarrow> ((0, Some e), r)
       | (_, r) \<Rightarrow> ((0, Some (ErrorString ''msgpack: invalid code decoding array length'')), r)),
     DecodeInterface = mp_decode,
     DecodeRaw = (\<lambda>s. case mp_decode s of
         (Inl e, r) \<Rightarrow> (Inl e, r) | (Inr v, r) \<Rightarrow> (Inr (take (length s - length r) s), r)),
     Skip = (\<lambda>s. case mp_decode s of (Inl e, r) \<Rightarrow> (Some e, r) | (Inr v, r) \<Rightarrow> (None, r)),
     Unmarshal = (\<lambda>b. case mp_decode b of (Inl e, r) \<Rightarrow> (GoNil, Some e) | (Inr v, r) \<Rightarrow> (v, None)),
     Encode = (\<lambda>v. ([mp_enc v],
       if mp_supported v then None else Some (ErrorString ''msgpack: unsupported type'')))\<rparr>"

section \<open>Reading gives nothing back\<close>

lemma need_le: "length (snd (need k s f)) \<le> length s"
  by (simp add: need_def take_be_def)

lemma need_blob_le: "length (snd (need_blob k s f)) \<le> length s"
  by (simp add: need_blob_def)

lemma need_sized_le: "length (snd (need_sized k s f)) \<le> length s"
  using need_blob_le [of "be_val (take k s)" "drop k s" f]
  by (auto simp: need_sized_def take_be_def)

lemma mp_decode_code_le: "length (snd (mp_decode_code c s)) \<le> length s"
  unfolding mp_decode_code_def
  by (simp add: need_le need_blob_le need_sized_le)

lemma mp_head_of_less: "s \<noteq> [] \<Longrightarrow> length (snd (mp_head_of s)) < length s"
  by (cases s) (simp_all add: mp_head_of_def mp_decode_code_le le_imp_less_Suc)

definition lossy :: "(bytes \<Rightarrow> 'a \<times> bytes) \<Rightarrow> bool" where
  "lossy d \<longleftrightarrow> (\<forall>s x r. d s = (x, r) \<longrightarrow> length r \<le> length s)"

lemma lossyD: "lossy d \<Longrightarrow> d s = (x, r) \<Longrightarrow> length r \<le> length s"
  by (simp add: lossy_def)

lemma lossy_head: "lossy mp_head_of"
  unfolding lossy_def
proof (intro allI impI)
  fix s x r assume "mp_head_of s = (x, r)"
  then show "length r \<le> length s"
    using mp_head_of_less [of s] by (cases "s = []") (auto simp: mp_head_of_def)
qed

lemma lossy_dec_n: "lossy d \<Longrightarrow> lossy (dec_n d n)"
proof (induction n)
  case 0
  then show ?case by (simp add: lossy_def)
next
  case (Suc n)
  then have "lossy (dec_n d n)" by simp
  with Suc.prems show ?case
    unfolding lossy_def by (fastforce split: prod.splits sum.splits)
qed

lemma lossy_dec_pair:
  assumes "lossy d"
  shows "lossy (dec_pair d)"
  unfolding lossy_def
proof (intro allI impI)
  fix s x r assume p: "dec_pair d s = (x, r)"
  obtain k r1 where k: "d s = (k, r1)" by (cases "d s") auto
  obtain v r2 where v: "d r1 = (v, r2)" by (cases "d r1") auto
  from lossyD [OF assms k] lossyD [OF assms v] p k v show "length r \<le> length s"
    by (auto simp: dec_pair_def split: sum.splits option.splits)
qed

lemma mp_dec_after_head:
  assumes "lossy (mp_dec f)" and "mp_head_of s = (h, r0)" and "mp_dec (Suc f) s = (x, r)"
  shows "length r \<le> length r0"
  using assms lossy_dec_n [OF assms(1)] lossy_dec_n [OF lossy_dec_pair [OF assms(1)]]
  by (auto split: sum.splits mp_head.splits prod.splits dest: lossyD)

lemma lossy_mp_dec: "lossy (mp_dec f)"
proof (induction f)
  case 0
  then show ?case by (simp add: lossy_def)
next
  case (Suc f)
  show ?case
    unfolding lossy_def
  proof (intro allI impI)
    fix s x r assume dec: "mp_dec (Suc f) s = (x, r)"
    obtain h r0 where h: "mp_head_of s = (h, r0)" by (cases "mp_head_of s") auto
    from mp_dec_after_head [OF Suc h dec] lossyD [OF lossy_head h]
    show "length r \<le> length s" by simp
  qed
qed

lemma mp_dec_shrinks: "mp_dec f s = (Inr v, r) \<Longrightarrow> length r < length s"
proof (cases f)
  case (Suc g)
  assume dec: "mp_dec f s = (Inr v, r)"
  then have "s \<noteq> []" using Suc by (auto simp: mp_head_of_def)
  obtain h r0 where h: "mp_head_of s = (h, r0)" by (cases "mp_head_of s") auto
  with \<open>s \<noteq> []\<close> have "length r0 < length s" using mp_head_of_less [of s] by simp
  with mp_dec_after_head [OF lossy_mp_dec h] dec Suc show ?thesis by fastforce
qed simp

text \<open>The errors of the format are plain library errors.\<close>

fun plain :: "goerror + 'a \<Rightarrow> bool" where
  "plain (Inl e) = (\<not> As_invalidRPCMessageError e)"
| "plain (Inr v) = True"

lemma plain_need:
  "plain (fst (need k s f))" "plain (fst (need_blob k s g))" "plain (fst (need_sized k s g))"
  by (auto simp: need_def need_blob_def need_sized_def split: option.splits)

lemma plain_head: "plain (fst (mp_head_of s))"
  by (cases s) (simp_all add: mp_head_of_def mp_decode_code_def plain_need)

lemma plain_dec_n: "(\<And>s. plain (fst (d s))) \<Longrightarrow> plain (fst (dec_n d n s))"
proof (induction n arbitrary: s)
  case (Suc n)
  from Suc.prems [of s] Suc.IH [OF Suc.prems] show ?case
    by (auto split: prod.splits sum.splits) (metis fst_conv plain.simps(1))
qed simp

lemma plain_dec_pair: "(\<And>s. plain (fst (d s))) \<Longrightarrow> plain (fst (dec_pair d s))"
  unfolding dec_pair_def
  by (auto split: prod.splits sum.splits option.splits) (metis fst_conv plain.simps(1))+

lemma plain_mp_dec: "plain (fst (mp_dec f s))"
proof (induction f arbitrary: s)
  case (Suc f)
  have n: "plain (fst (dec_n (mp_dec f) n r))" "plain (fst (dec_n (dec_pair (mp_dec f)) n r))" for n r
    by (intro plain_dec_n plain_dec_pair Suc)+
  obtain h r0 where h: "mp_head_of s = (h, r0)" by (cases "mp_head_of s") auto
  with plain_head [of s] have "plain h" by simp
  with h show ?case
    by (auto split: prod.splits sum.splits mp_head.splits) (metis fst_conv n(1) plain.simps(1), metis fst_conv n(2) plain.simps(1))
qed simp

lemma mp_decode_plain: "mp_decode s = (Inl e, r) \<Longrightarrow> \<not> As_invalidRPCMessageError e"
  using plain_mp_dec [of "Suc (length s)" s] by (simp add: mp_decode_def del: mp_dec.simps)

section \<open>Round trip of the heads\<close>

lemma unat_code:
  "n < 32 \<Longrightarrow> unat (0xa0 + of_nat n :: byte) = 160 + n"
  "n < 16 \<Longrightarrow> unat (0x90 + of_nat n :: byte) = 144 + n"
  "n < 16 \<Longrightarrow> unat (0x80 + of_nat n :: byte) = 128 + n"
  by (simp_all add: unat_word_ariths unat_of_nat)

lemma decode_fix_codes:
  "n < 32 \<Longrightarrow> mp_decode_code (0xa0 + of_nat n) r = need_blob n r leaf_string"
  "n < 16 \<Longrightarrow> mp_decode_code (0x90 + of_nat n) r = (Inr (HArray n), r)"
  "n < 16 \<Longrightarrow> mp_decode_code (0x80 + of_nat n) r = (Inr (HMap n), r)"
  by (simp_all add: mp_decode_code_def word_le_nat_alt unat_code unat_of_nat)

lemma decode_codes:
  "mp_decode_code 0xc0 r = (Inr (HLeaf GoNil), r)"
  "mp_decode_code 0xc2 r = (Inr (HLeaf (GoBool False)), r)"
  "mp_decode_code 0xc3 r = (Inr (HLeaf (GoBool True)), r)"
  "mp_decode_code 0xc4 r = need_sized 1 r leaf_bytes"
  "mp_decode_code 0xc5 r = need_sized 2 r leaf_bytes"
  "mp_decode_code 0xc6 r = need_sized 4 r leaf_bytes"
  "mp_decode_code 0xca r = need 4 r (\<lambda>n. HLeaf (GoFloat32 (of_nat n)))"
  "mp_decode_code 0xcb r = need 8 r (\<lambda>n. HLeaf (GoFloat64 (of_nat n)))"
  "mp_decode_code 0xcc r = need 1 r (\<lambda>n. HLeaf (GoUint8 (of_nat n)))"
  "mp_decode_code 0xcd r = need 2 r (\<lambda>n. HLeaf (GoUint16 (of_nat n)))"
  "mp_decode_code 0xce r = need 4 r (\<lambda>n. HLeaf (GoUint32 (of_nat n)))"
  "mp_decode_code 0xcf r = need 8 r (\<lambda>n. HLeaf (GoUint64 (of_nat n)))"
  "mp_decode_code 0xd0 r = need 1 r (\<lambda>n. HLeaf (GoInt8 (of_nat n)))"
  "mp_decode_code 0xd1 r = need 2 r (\<lambda>n. HLeaf (GoInt16 (of_nat n)))"
  "mp_decode_code 0xd2 r = need 4 r (\<lambda>n. HLeaf (GoInt32 (of_nat n)))"
  "mp_decode_code 0xd3 r = need 8 r (\<lambda>n. HLeaf (GoInt64 (of_nat n)))"
  "mp_decode_code 0xd9 r = need_sized 1 r leaf_string"
  "mp_decode_code 0xda r = need_sized 2 r leaf_string"
  "mp_decode_code 0xdb r = need_sized 4 r leaf_string"
  "mp_decode_code 0xdc r = need 2 r HArray"
  "mp_decode_code 0xdd r = need 4 r HArray"
  "mp_decode_code 0xde r = need 2 r HMap"
  "mp_decode_code 0xdf r = need 4 r HMap"
  by (simp_all add: mp_decode_code_def)

lemma need_be [simp]: "need k (be_bytes k n @ r) f = (Inr (f (n mod 256 ^ k)), r)"
  by (simp add: need_def)

lemma need_blob_append [simp]: "length b = n \<Longrightarrow> need_blob n (b @ r) f = (Inr (f b), r)"
  by (simp add: need_blob_def)

lemma need_sized_be [simp]:
  "\<lbrakk> n < 256 ^ k; length b = n \<rbrakk> \<Longrightarrow> need_sized k (be_bytes k n @ b @ r) f = (Inr (f b), r)"
  by (simp add: need_sized_def)

lemma head_str:
  "length b < 2 ^ 32 \<Longrightarrow> mp_head_of (mp_str_head (length b) @ b @ r) = (Inr (leaf_string b), r)"
  by (simp add: mp_str_head_def mp_head_of_def decode_fix_codes decode_codes)

lemma head_bin:
  "length b < 2 ^ 32 \<Longrightarrow> mp_head_of (mp_bin_head (length b) @ b @ r) = (Inr (leaf_bytes b), r)"
  by (simp add: mp_bin_head_def mp_head_of_def decode_codes)

lemma head_arr: "n < 2 ^ 32 \<Longrightarrow> mp_head_of (mp_arr_head n @ r) = (Inr (HArray n), r)"
  by (simp add: mp_arr_head_def mp_head_of_def decode_fix_codes decode_codes)

lemma head_map: "n < 2 ^ 32 \<Longrightarrow> mp_head_of (mp_map_head n @ r) = (Inr (HMap n), r)"
  by (simp add: mp_map_head_def mp_head_of_def decode_fix_codes decode_codes)

lemma of_nat_nat_mod:
  assumes "LENGTH('a) = k"
  shows "(of_nat (nat (i mod 2 ^ k)) :: 'a::len word) = word_of_int i"
proof -
  have "(of_nat (nat (i mod 2 ^ k)) :: 'a word) = word_of_int (i mod 2 ^ LENGTH('a))"
    using assms by simp
  also have "\<dots> = word_of_int i"
    by (simp add: word_of_int_eq_iff flip: take_bit_eq_mod)
  finally show ?thesis .
qed

lemma of_nat_nat_word: "0 \<le> i \<Longrightarrow> (of_nat (nat i) :: 'a::len word) = word_of_int i"
  by simp

lemma fixnum_code:
  assumes "- 32 \<le> n" and "n < 128"
  shows "(word_of_int n :: byte) \<le> 0x7f \<or> 0xe0 \<le> (word_of_int n :: byte)"
proof -
  have "uint (word_of_int n :: byte) = n mod 256" by (simp add: unsigned_of_int take_bit_eq_mod)
  moreover have "n mod 256 = (if 0 \<le> n then n else n + 256)"
    using assms by presburger
  ultimately show ?thesis using assms by (auto simp: word_le_def)
qed

lemma head_int:
  assumes "- (2 ^ 63) \<le> n" and "n < 2 ^ 64"
  shows "mp_head_of (mp_int n @ r) = (Inr (HLeaf (mp_norm_int n)), r)"
proof -
  have m: "nat n mod 2 ^ k = nat n" if "0 \<le> n" "n < 2 ^ k" for k
    using that by (simp add: nat_less_iff)
  have z: "nat (n mod 2 ^ k) mod 2 ^ k = nat (n mod 2 ^ k)" for k
    by (simp add: nat_less_iff)
  consider (small) "- 32 \<le> n \<and> n < 128" | (pos) "128 \<le> n" | (neg) "n < - 32" by linarith
  then show ?thesis
  proof cases
    case small
    then show ?thesis
      using fixnum_code [of n] by (simp add: mp_int_def mp_norm_int_def mp_head_of_def mp_decode_code_def)
  next
    case pos
    then show ?thesis
      using assms m [of 8] m [of 16] m [of 32] m [of 64]
      by (simp add: mp_int_def mp_norm_int_def mp_head_of_def decode_codes)
  next
    case neg
    then show ?thesis
      using z [of 8] z [of 16] z [of 32] z [of 64]
        of_nat_nat_mod [where 'a = 8, of 8 n] of_nat_nat_mod [where 'a = 16, of 16 n]
        of_nat_nat_mod [where 'a = 32, of 32 n] of_nat_nat_mod [where 'a = 64, of 64 n]
      by (simp add: mp_int_def mp_norm_int_def mp_head_of_def decode_codes)
  qed
qed

section \<open>Round trip of values\<close>

lemma head_leaf_length: "mp_int n \<noteq> []" "mp_str_head k \<noteq> []" "mp_bin_head k \<noteq> []"
  "mp_arr_head k \<noteq> []" "mp_map_head k \<noteq> []"
  by (simp_all add: mp_int_def mp_str_head_def mp_bin_head_def mp_arr_head_def mp_map_head_def)

lemma sint_range_64:
  fixes v :: "'a::len word"
  assumes "LENGTH('a) \<le> 64"
  shows "- (2 ^ 63) \<le> sint v" "sint v < 2 ^ 64"
proof -
  from assms have "(2::int) ^ (LENGTH('a) - 1) \<le> 2 ^ 63" by (intro power_increasing) auto
  then show "- (2 ^ 63) \<le> sint v" "sint v < 2 ^ 64"
    using sint_ge [of v] sint_lt [of v] by auto
qed

lemma uint_range_64:
  fixes v :: "'a::len word"
  assumes "LENGTH('a) \<le> 64"
  shows "- (2 ^ 63) \<le> uint v" "uint v < 2 ^ 64"
proof -
  from assms have "(2::int) ^ LENGTH('a) \<le> 2 ^ 64" by (intro power_increasing) auto
  with uint_lt2p [of v] show "uint v < 2 ^ 64" by (rule less_le_trans)
  show "- (2 ^ 63) \<le> uint v" using uint_ge_0 [of v] by (smt (verit) zero_le_power)
qed

lemma int_value_range:
  assumes "int_value v = Some n"
  shows "- (2 ^ 63) \<le> n" "n < 2 ^ 64"
  using assms
  by (cases v; auto intro: sint_range_64 [simplified] uint_range_64 [simplified])+

lemma mp_enc_int: "int_value v = Some n \<Longrightarrow> mp_enc v = mp_int n"
  by (cases v) auto

lemma mp_norm_of_int: "int_value v = Some n \<Longrightarrow> mp_norm v = mp_norm_int n"
  by (cases v) auto

lemma of_nat_unat_mod:
  fixes w :: "'a::len word"
  assumes "LENGTH('a) = 8 * k"
  shows "of_nat (unat w mod 256 ^ k) = w"
proof -
  have "unat w < 256 ^ k"
    using unsigned_less [of w] assms by (simp add: power_mult)
  then show ?thesis by simp
qed

fun composite :: "any \<Rightarrow> bool" where
  "composite (GoSlice _) = True"
| "composite (GoMapString _) = True"
| "composite _ = False"

lemma mp_head_leaf:
  assumes "mp_wire v" and "\<not> composite v"
  shows "mp_head_of (mp_enc v @ r) = (Inr (HLeaf (mp_norm v)), r)"
proof (cases "int_value v")
  case (Some n)
  then show ?thesis
    using head_int [OF int_value_range [OF Some]] by (simp add: mp_enc_int mp_norm_of_int)
next
  case None
  have str: "length k < 2 ^ 32 \<Longrightarrow>
      mp_head_of (mp_str k @ r) = (Inr (HLeaf (GoString k)), r)" for k
    using head_str [of "bytes_of_string k" r] by (simp add: mp_str_def leaf_string_def)
  from None assms show ?thesis
    by (cases v)
       (simp_all add: mp_head_of_def decode_codes str [unfolded mp_head_of_def]
          head_bin [unfolded mp_head_of_def] leaf_bytes_def
          of_nat_unat_mod [where 'a = 32 and k = 4, simplified]
          of_nat_unat_mod [where 'a = 64 and k = 8, simplified])
qed

lemma dec_n_enc:
  "(\<And>x r. x \<in> set xs \<Longrightarrow> d (g x @ r) = (Inr (h x), r)) \<Longrightarrow>
     dec_n d (length xs) (concat (map g xs) @ r) = (Inr (map h xs), r)"
  by (induction xs) simp_all

lemma mp_enc_nonempty: "mp_wire v \<Longrightarrow> mp_enc v \<noteq> []"
  by (cases v) (auto simp: head_leaf_length mp_str_def)

lemma length_elem_concat: "x \<in> set xs \<Longrightarrow> length (g x) \<le> length (concat (map g xs))"
  by (induction xs) auto

lemma mp_dec_str:
  "\<lbrakk> length k < 2 ^ 32; 0 < f \<rbrakk> \<Longrightarrow> mp_dec f (mp_str k @ r) = (Inr (GoString k), r)"
  using head_str [of "bytes_of_string k" r] by (cases f) (simp_all add: mp_str_def leaf_string_def)

lemma mp_dec_enc:
  "\<lbrakk> mp_wire v; length (mp_enc v) \<le> f \<rbrakk> \<Longrightarrow> mp_dec f (mp_enc v @ r) = (Inr (mp_norm v), r)"
proof (induction v arbitrary: f r)
  case (GoSlice vs)
  then obtain g where f: "f = Suc g" by (cases f) (auto simp: head_leaf_length)
  have "length (mp_enc x) \<le> g" if "x \<in> set vs" for x
    using GoSlice.prems(2) f length_elem_concat [OF that, of mp_enc] head_leaf_length(4) [of "length vs"]
    by (cases "mp_arr_head (length vs)") auto
  with GoSlice have "dec_n (mp_dec g) (length vs) (concat (map mp_enc vs) @ r) = (Inr (map mp_norm vs), r)"
    by (intro dec_n_enc) (auto simp: list_all_iff)
  with GoSlice.prems f show ?case by (simp add: head_arr)
next
  case (GoMapString kvs)
  let ?e = "\<lambda>kv. mp_str (fst kv) @ mp_enc (snd kv)"
  from GoMapString.prems obtain g where f: "f = Suc g" by (cases f) (auto simp: head_leaf_length)
  have len: "length (?e kv) \<le> g" if "kv \<in> set kvs" for kv
    using GoMapString.prems(2) f length_elem_concat [OF that, of ?e] head_leaf_length(5) [of "length kvs"]
    by (cases "mp_map_head (length kvs)") auto
  have "dec_pair (mp_dec g) (?e kv @ s) = (Inr (fst kv, mp_norm (snd kv)), s)" if "kv \<in> set kvs" for kv s
  proof -
    have "0 < length (mp_str (fst kv))" by (simp add: mp_str_def head_leaf_length)
    with len [OF that] have "0 < g" by (cases g) auto
    moreover have "mp_dec g (mp_enc (snd kv) @ s) = (Inr (mp_norm (snd kv)), s)"
      using GoMapString.prems(1) len [OF that] that
      by (intro GoMapString.IH [of kv]) (auto simp: list_all_iff snds.simps)
    ultimately show ?thesis
      using GoMapString.prems(1) that by (simp add: dec_pair_def mp_dec_str list_all_iff)
  qed
  then have "dec_n (dec_pair (mp_dec g)) (length kvs) (concat (map ?e kvs) @ r)
      = (Inr (map (\<lambda>kv. (fst kv, mp_norm (snd kv))) kvs), r)"
    by (intro dec_n_enc) auto
  with GoMapString.prems f show ?case by (simp add: head_map)
qed (use mp_head_leaf mp_enc_nonempty in \<open>(case_tac f; fastforce)+\<close>)

section \<open>The format satisfies the laws\<close>

lemma int_value_norm_int:
  assumes "- (2 ^ 63) \<le> n" and "n < 2 ^ 64"
  shows "int_value (mp_norm_int n) = Some n"
  using assms
  by (auto simp: mp_norm_int_def signed_of_int unsigned_of_int signed_take_bit_int_eq_self
        take_bit_int_eq_self)

lemma int_value_mp_norm: "int_value (mp_norm v) = int_value v"
proof (cases "int_value v")
  case None
  then show ?thesis by (cases v) simp_all
next
  case (Some n)
  then show ?thesis using int_value_norm_int [OF int_value_range [OF Some]] by (simp add: mp_norm_of_int)
qed

lemma as_string_mp_norm: "as_string (mp_norm v) = as_string v"
  by (cases v) (simp_all add: mp_norm_int_def)

lemma mp_codec_simps [simp]:
  "PeekCode mp_codec s = (case s of [] \<Rightarrow> Inl EOF | c # _ \<Rightarrow> Inr c)"
  "DecodeArrayLen mp_codec s = (case mp_head_of s of
      (Inr (HArray n), r) \<Rightarrow> ((int n, None), r)
    | (Inl e, r) \<Rightarrow> ((0, Some e), r)
    | (_, r) \<Rightarrow> ((0, Some (ErrorString ''msgpack: invalid code decoding array length'')), r))"
  "DecodeInterface mp_codec s = mp_decode s"
  "DecodeRaw mp_codec s = (case mp_decode s of
      (Inl e, r) \<Rightarrow> (Inl e, r) | (Inr v, r) \<Rightarrow> (Inr (take (length s - length r) s), r))"
  "Skip mp_codec s = (case mp_decode s of (Inl e, r) \<Rightarrow> (Some e, r) | (Inr v, r) \<Rightarrow> (None, r))"
  "Unmarshal mp_codec b = (case mp_decode b of (Inl e, r) \<Rightarrow> (GoNil, Some e) | (Inr v, r) \<Rightarrow> (v, None))"
  "Encode mp_codec v = ([mp_enc v],
      if mp_supported v then None else Some (ErrorString ''msgpack: unsupported type''))"
  by (simp_all add: mp_codec_def)

lemma enc_mp_codec [simp]: "enc mp_codec = mp_enc"
  by (rule ext) (simp add: enc_def)

lemma mp_decode_enc: "mp_wire v \<Longrightarrow> mp_decode (mp_enc v @ r) = (Inr (mp_norm v), r)"
  unfolding mp_decode_def by (intro mp_dec_enc) simp_all

lemma mp_supported_wire: "mp_wire v \<Longrightarrow> mp_supported v"
proof (induction v)
  case (GoMapString kvs)
  then show ?case by (fastforce simp: list_all_iff snds.simps)
qed (auto simp: list_all_iff)

lemma array_code_head:
  "n < 2 ^ 32 \<Longrightarrow> mp_arr_head n \<noteq> [] \<and> is_array_code (hd (mp_arr_head n))"
  by (simp add: mp_arr_head_def is_array_code_def word_le_nat_alt unat_code unat_of_nat)

lemma other_code_head:
  assumes "mp_wire v" and "\<forall>vs. v \<noteq> GoSlice vs"
  shows "mp_enc v \<noteq> [] \<and> \<not> is_array_code (hd (mp_enc v))"
proof (cases "int_value v")
  case None
  with assms show ?thesis
    by (cases v) (simp_all add: mp_str_def mp_str_head_def mp_bin_head_def mp_map_head_def
          is_array_code_def word_le_nat_alt unat_code unat_of_nat word_unat_eq_iff)
next
  case (Some n)
  show ?thesis
    using fixnum_code [of n]
    by (auto simp: mp_enc_int [OF Some] mp_int_def is_array_code_def word_le_nat_alt word_unat_eq_iff)
qed

lemma length_mp_int: "length (mp_int n) \<le> 9"
  by (simp add: mp_int_def)

lemma mp_decode_lossy:
  "mp_decode s = (x, r) \<Longrightarrow> length r \<le> length s"
  "mp_decode s = (Inr v, r) \<Longrightarrow> length r < length s"
  unfolding mp_decode_def by (blast dest: lossyD [OF lossy_mp_dec], blast dest: mp_dec_shrinks)

interpretation mp: msgpack_sizes mp_codec mp_norm mp_wire
proof (unfold_locales, goal_cases)
  case (1 s s')
  then show ?case by (auto split: prod.splits sum.splits dest: mp_decode_lossy)
next
  case (2 s e s')
  then show ?case by (auto split: prod.splits sum.splits dest: mp_decode_lossy)
next
  case (3 s t le s')
  then show ?case
    using mp_head_of_less [of s] by (auto split: list.splits prod.splits sum.splits mp_head.splits)
next
  case (4 s le s')
  then show ?case
    by (auto split: prod.splits sum.splits mp_head.splits dest: lossyD [OF lossy_head])
next
  case (5 s t l e s')
  then show ?case by (auto split: prod.splits sum.splits mp_head.splits)
next
  case (6 s v s')
  then show ?case by (auto dest: mp_decode_lossy)
next
  case (7 s b s')
  then show ?case by (auto split: prod.splits sum.splits dest: mp_decode_lossy)
next
  case 8
  then show ?case by simp
next
  case (9 s err)
  then show ?case by (auto split: list.splits)
next
  case (10 s err s')
  then show ?case by (auto split: prod.splits sum.splits dest: mp_decode_plain)
next
  case (11 vs)
  then show ?case by (simp add: list_all_iff)
next
  case (14 v n)
  then show ?case by (cases v) auto
next
  case (16 v)
  then show ?case by (simp add: mp_supported_wire)
next
  case (19 vs)
  then show ?case by (auto simp: list_all_iff split: if_splits)
next
  case (20 vs vs')
  then show ?case by (metis enc_mp_codec length_map mp_enc.simps(18))
next
  case (21 vs r)
  then show ?case using array_code_head [of "length vs"] by (cases "mp_arr_head (length vs)") auto
next
  case (22 v r)
  then show ?case using other_code_head [of v] by (cases "mp_enc v") auto
next
  case (27 v)
  then show ?case using mp_decode_enc [of v "[]"] by simp
next
  case (33 v n)
  then show ?case by (simp add: mp_enc_int length_mp_int)
next
  case (34 v n)
  then show ?case by (simp add: mp_enc_int mp_int_def)
next
  case (36 vs)
  then show ?case by (simp add: mp_arr_head_def length_concat comp_def)
qed (simp_all add: mp_decode_enc head_arr int_value_mp_norm as_string_mp_norm mp_str_def mp_str_head_def)

end
