(* ===== verification/Type_Conversion.thy ===== *)
theory Type_Conversion
  imports Go_Values
begin

text \<open>
  \<open>msgpackrpc/type_conversion.go\<close>: the two conversions that every handler applies to the
  integers a peer sends. The \<open>(value, ok)\<close> pair of the source is an \<open>option\<close>, \<open>None\<close> for
  \<open>(0, false)\<close>. The specification is \<^const>\<open>int_value\<close>: a conversion succeeds exactly when
  the mathematical value fits the result type, and then preserves it.
\<close>

section \<open>Definitions\<close>

definition MaxInt64 :: "64 word" where
  "MaxInt64 = 9223372036854775807"

fun ToInt :: "any \<Rightarrow> 64 word option" where
  "ToInt (GoInt v) = Some v"
| "ToInt (GoInt8 v) = Some (scast v)"
| "ToInt (GoInt16 v) = Some (scast v)"
| "ToInt (GoInt32 v) = Some (scast v)"
| "ToInt (GoInt64 v) = Some v"
| "ToInt (GoUint v) = (if v > MaxInt64 then None else Some v)"
| "ToInt (GoUint8 v) = Some (ucast v)"
| "ToInt (GoUint16 v) = Some (ucast v)"
| "ToInt (GoUint32 v) = Some (ucast v)"
| "ToInt (GoUint64 v) = (if v > MaxInt64 then None else Some v)"
| "ToInt _ = None"

fun ToUint :: "any \<Rightarrow> 64 word option" where
  "ToUint (GoInt v) = (if v <s 0 then None else Some v)"
| "ToUint (GoInt8 v) = (if v <s 0 then None else Some (scast v))"
| "ToUint (GoInt16 v) = (if v <s 0 then None else Some (scast v))"
| "ToUint (GoInt32 v) = (if v <s 0 then None else Some (scast v))"
| "ToUint (GoInt64 v) = (if v <s 0 then None else Some v)"
| "ToUint (GoUint v) = Some v"
| "ToUint (GoUint8 v) = Some (ucast v)"
| "ToUint (GoUint16 v) = Some (ucast v)"
| "ToUint (GoUint32 v) = Some (ucast v)"
| "ToUint (GoUint64 v) = Some v"
| "ToUint _ = None"

section \<open>Word lemmas\<close>

lemma sint_inject_iff: "(v = w) \<longleftrightarrow> sint v = sint w"
  by (auto intro: signed_word_eqI)

lemma sint_eq_uint:
  fixes v :: "'a::len word"
  shows "uint v < 2 ^ (LENGTH('a) - 1) \<Longrightarrow> sint v = uint v"
  by (simp add: sint_uint signed_take_bit_int_eq_self_iff) (smt (verit) uint_ge_0 zero_le_power)

lemma sint_nonneg_eq_uint:
  fixes v :: "'a::len word"
  assumes "0 \<le> sint v"
  shows "sint v = uint v"
proof -
  have "uint v = take_bit LENGTH('a) (sint v)" by (rule uint_sint)
  also have "\<dots> = sint v"
  proof (rule take_bit_int_eq_self [OF assms])
    have "sint v < 2 ^ (LENGTH('a) - 1)" by (rule sint_lt)
    also have "\<dots> \<le> 2 ^ LENGTH('a)" by (simp add: power_increasing)
    finally show "sint v < 2 ^ LENGTH('a)" .
  qed
  finally show ?thesis by simp
qed

lemma sint_ucast_64:
  fixes v :: "'a::len word"
  assumes "LENGTH('a) < 64"
  shows "sint (ucast v :: 64 word) = uint v" "uint (ucast v :: 64 word) = uint v"
proof -
  from assms show u: "uint (ucast v :: 64 word) = uint v"
    by (intro uint_up_ucast) (simp add: is_up_def source_size_def target_size_def word_size)
  have "uint v < 2 ^ LENGTH('a)" by (rule uint_lt2p)
  also have "(2::int) ^ LENGTH('a) \<le> 2 ^ 63" using assms by (intro power_increasing) auto
  finally show "sint (ucast v :: 64 word) = uint v"
    using u by (subst sint_eq_uint) auto
qed

lemma sint_scast_64:
  fixes v :: "'a::len word"
  assumes "LENGTH('a) \<le> 64"
  shows "sint (scast v :: 64 word) = sint v"
  using assms by (intro sint_up_scast) (simp add: is_up_def source_size_def target_size_def word_size)

lemma le_MaxInt64: "v \<le> MaxInt64 \<longleftrightarrow> uint v < 2 ^ 63"
  by (auto simp: MaxInt64_def word_le_def)

lemma MaxInt64_sint_iff:
  fixes v w :: "64 word"
  shows "(if v > MaxInt64 then None else Some v) = Some w \<longleftrightarrow> uint v = sint w"
proof (cases "v \<le> MaxInt64")
  case True
  then have "sint v = uint v" by (intro sint_eq_uint) (simp add: le_MaxInt64)
  with True show ?thesis by (auto simp: sint_inject_iff)
next
  case False
  then have "uint v \<ge> 2 ^ 63" by (simp add: le_MaxInt64)
  moreover have "sint w < 2 ^ 63" using sint_lt [of w] by simp
  ultimately show ?thesis using False by auto
qed

lemma sless_uint_iff:
  fixes v :: "'a::len word" and w :: "64 word"
  assumes "LENGTH('a) \<le> 64"
  shows "(if v <s 0 then None else Some (scast v)) = Some w \<longleftrightarrow> sint v = uint w"
proof (cases "v <s 0")
  case True
  then have "sint v < 0" by (simp add: word_sless_alt)
  with True show ?thesis using uint_ge_0 [of w] by auto
next
  case False
  then have "0 \<le> sint v" by (simp add: word_sless_alt)
  with sint_scast_64 [OF assms, of v] have "uint (scast v :: 64 word) = sint v"
    by (metis sint_nonneg_eq_uint)
  with False show ?thesis by (auto simp: word_uint_eq_iff)
qed

lemma sless_uint_iff_64:
  fixes v w :: "64 word"
  shows "(if v <s 0 then None else Some v) = Some w \<longleftrightarrow> sint v = uint w"
  using sless_uint_iff [of v w] by (simp only: scast_id len_bit0 len_num1)

section \<open>The conversions are exact\<close>

lemma ToInt_iff: "ToInt v = Some w \<longleftrightarrow> int_value v = Some (sint w)"
  by (cases v) (simp_all add: sint_inject_iff sint_ucast_64 sint_scast_64 MaxInt64_sint_iff)

lemma ToUint_iff: "ToUint v = Some w \<longleftrightarrow> int_value v = Some (uint w)"
proof (cases v)
  case (GoInt x)
  then show ?thesis
    using sless_uint_iff_64 [of x w] by (simp only: ToUint.simps int_value.simps option.inject)
next
  case (GoInt64 x)
  then show ?thesis
    using sless_uint_iff_64 [of x w] by (simp only: ToUint.simps int_value.simps option.inject)
qed (simp_all add: sless_uint_iff word_uint_eq_iff sint_ucast_64)

text \<open>
  C33. \<open>ToInt\<close> accepts a value exactly when it is an integer of any of the ten Go integer
  types whose mathematical value lies in the range of \<open>int\<close>, and \<open>ToUint\<close> exactly when it is such
  an integer and not negative; both return the value: no integer is ever truncated, wrapped
  or sign-confused, and everything else is refused.
\<close>

theorem conversions_exact:
  "(ToInt v = Some w \<longleftrightarrow> int_value v = Some (sint w)) \<and> (ToUint v = Some w \<longleftrightarrow> int_value v = Some (uint w))"
  using ToInt_iff ToUint_iff by blast

section \<open>Consequences the handlers use\<close>

lemma ToUint_cong: "int_value v = int_value v' \<Longrightarrow> ToUint v = ToUint v'"
  by (metis ToUint_iff not_None_eq)

lemma ToInt_cong: "int_value v = int_value v' \<Longrightarrow> ToInt v = ToInt v'"
  by (metis ToInt_iff not_None_eq)

lemma ToUint_of_int_value: "int_value v = Some (int n) \<Longrightarrow> n < 2 ^ 64 \<Longrightarrow> ToUint v = Some (of_nat n)"
  by (simp add: ToUint_iff unsigned_of_nat take_bit_nat_eq_self)

end
