(* ===== verification/Rpc_Decode.thy ===== *)
theory Rpc_Decode
  imports Msgpack_Format Type_Conversion
begin

text \<open>
  The reading half of \<open>msgpackrpc/connection.go\<close>: the packet type and \<open>decodeRpcPacket\<close>, with
  its error paths and the skipping of invalid packets. The abstract specification is
  \<open>rpc_spec\<close>, which classifies a message by its value and not by its bytes; the refinement
  theorem says that decoding reads exactly one value from the stream and agrees with it.
\<close>

section \<open>Packets\<close>

type_synonym MessageID = "64 word"

abbreviation (input) messageTypeRequest :: int where "messageTypeRequest \<equiv> 0"
abbreviation (input) messageTypeResponse :: int where "messageTypeResponse \<equiv> 1"
abbreviation (input) messageTypeNotification :: int where "messageTypeNotification \<equiv> 2"

record rpcPacket =
  msgType :: int
  msgID :: MessageID
  pkt_method :: string
  params :: "any list"
  reqError :: any
  reqResult :: any

definition empty_rpcPacket :: rpcPacket where
  "empty_rpcPacket = \<lparr>msgType = 0, msgID = 0, pkt_method = [], params = [],
                      reqError = GoNil, reqResult = GoNil\<rparr>"

text \<open>
  The result of \<open>decodeRpcPacket\<close>; \<open>DecodePanic\<close> is the run-time panic of \<open>make([]any, n)\<close>
  for a negative \<open>n\<close>.
\<close>

datatype decode_result = Packet rpcPacket | DecodeErr goerror | DecodePanic

definition invalidRPC :: "string \<Rightarrow> goerror" where
  "invalidRPC msg = InvalidRPCMessageError msg None"

section \<open>decodeRpcPacket\<close>

fun skip_values :: "msgpack \<Rightarrow> nat \<Rightarrow> bytes \<Rightarrow> goerror option \<times> bytes" where
  "skip_values M 0 s = (None, s)"
| "skip_values M (Suc n) s =
     (case Skip M s of
        (Some skipErr, s') \<Rightarrow> (Some skipErr, s')
      | (None, s') \<Rightarrow> skip_values M n s')"

definition skipAndError :: "msgpack \<Rightarrow> int \<Rightarrow> goerror \<Rightarrow> bytes \<Rightarrow> decode_result \<times> bytes" where
  "skipAndError M n err s =
     (case skip_values M (nat n) s of
        (Some skipErr, s') \<Rightarrow>
          (DecodeErr (WrapError (''failed to skip invalid packet: '' @ Error skipErr @
             ''; invalid packet: '' @ Error err) skipErr), s')
      | (None, s') \<Rightarrow> (DecodeErr err, s'))"

text \<open>One parameter or response field: raw bytes or a decoded value.\<close>

definition decode_field :: "msgpack \<Rightarrow> bool \<Rightarrow> bytes \<Rightarrow> (goerror + any) \<times> bytes" where
  "decode_field M asRaw s =
     (if asRaw
      then (case DecodeRaw M s of (Inl e, s') \<Rightarrow> (Inl e, s') | (Inr b, s') \<Rightarrow> (Inr (GoRawMessage b), s'))
      else DecodeInterface M s)"

fun decode_params :: "msgpack \<Rightarrow> bool \<Rightarrow> nat \<Rightarrow> nat \<Rightarrow> bytes \<Rightarrow> (goerror + any list) \<times> bytes" where
  "decode_params M asRaw i 0 s = (Inr [], s)"
| "decode_params M asRaw i (Suc n) s =
     (case decode_field M asRaw s of
        (Inl e, s') \<Rightarrow> (Inl (Errorf_w (''error decoding param '' @ show_nat i) e), s')
      | (Inr p, s') \<Rightarrow>
          (case decode_params M asRaw (Suc i) n s' of
             (Inl e, s'') \<Rightarrow> (Inl e, s'')
           | (Inr ps, s'') \<Rightarrow> (Inr (p # ps), s'')))"

text \<open>The method name and the parameter array of a request or a notification.\<close>

definition decode_call :: "msgpack \<Rightarrow> bool \<Rightarrow> int \<Rightarrow> rpcPacket \<Rightarrow> bytes \<Rightarrow> decode_result \<times> bytes" where
  "decode_call M asRaw l packet s =
     (case DecodeInterface M s of
        (Inl err, s1) \<Rightarrow> (DecodeErr (Errorf_w ''can't read method name'' err), s1)
      | (Inr maybeMethod, s1) \<Rightarrow>
          (case as_string maybeMethod of
             None \<Rightarrow> skipAndError M (l - 1)
               (invalidRPC ''invalid packet, expected string for method name'') s1
           | Some method \<Rightarrow>
               (case PeekCode M s1 of
                  Inl err \<Rightarrow> (DecodeErr (Errorf_w ''can't read message'' err), s1)
                | Inr t \<Rightarrow>
                    if \<not> is_array_code t
                    then skipAndError M 1
                      (invalidRPC ''invalid packet, expected array for parameters'') s1
                    else
                      (case DecodeArrayLen M s1 of
                         ((paramLen, _), s2) \<Rightarrow>
                           if paramLen < 0 then (DecodePanic, s2)
                           else (case decode_params M asRaw 0 (nat paramLen) s2 of
                                   (Inl e, s3) \<Rightarrow> (DecodeErr e, s3)
                                 | (Inr ps, s3) \<Rightarrow>
                                     (Packet (packet\<lparr>pkt_method := method, params := ps\<rparr>), s3))))))"

text \<open>The error and the result of a response.\<close>

definition decode_response :: "msgpack \<Rightarrow> bool \<Rightarrow> rpcPacket \<Rightarrow> bytes \<Rightarrow> decode_result \<times> bytes" where
  "decode_response M asRaw packet s =
     (case decode_field M asRaw s of
        (Inl err, s1) \<Rightarrow> (DecodeErr (Errorf_w ''error decoding error'' err), s1)
      | (Inr e, s1) \<Rightarrow>
          (case decode_field M asRaw s1 of
             (Inl err, s2) \<Rightarrow> (DecodeErr (Errorf_w ''error decoding result'' err), s2)
           | (Inr r, s2) \<Rightarrow> (Packet (packet\<lparr>reqError := e, reqResult := r\<rparr>), s2)))"

text \<open>
  The message ID of a request or response. The first argument is the number of elements of
  the array that are still unread when the ID is to be read.
\<close>

definition decode_msgID ::
  "msgpack \<Rightarrow> int \<Rightarrow> bytes \<Rightarrow> (MessageID \<Rightarrow> bytes \<Rightarrow> decode_result \<times> bytes) \<Rightarrow> decode_result \<times> bytes" where
  "decode_msgID M l s cont =
     (case DecodeInterface M s of
        (Inl err, s1) \<Rightarrow> (DecodeErr (Errorf_w ''can't read message ID'' err), s1)
      | (Inr maybeId, s1) \<Rightarrow>
          (case ToUint maybeId of
             None \<Rightarrow> skipAndError M (l - 1)
               (invalidRPC ''invalid packet, expected uint for message ID'') s1
           | Some mid \<Rightarrow> cont mid s1))"

definition decode_body :: "msgpack \<Rightarrow> bool \<Rightarrow> int \<Rightarrow> int \<Rightarrow> bytes \<Rightarrow> decode_result \<times> bytes" where
  "decode_body M asRaw t l s =
     (let packet = empty_rpcPacket\<lparr>msgType := t\<rparr> in
      if t = messageTypeRequest \<or> t = messageTypeResponse then
        (if l \<noteq> 3
         then skipAndError M l
           (invalidRPC ''invalid packet, expected array with 4 elements for request or response'') s
         else decode_msgID M l s (\<lambda>mid s1.
           if t = messageTypeRequest
           then decode_call M asRaw (l - 1) (packet\<lparr>msgID := mid\<rparr>) s1
           else decode_response M asRaw (packet\<lparr>msgID := mid\<rparr>) s1))
      else if t = messageTypeNotification then
        (if l \<noteq> 2
         then skipAndError M l
           (invalidRPC ''invalid packet, expected array with 3 elements for notification'') s
         else decode_call M asRaw l packet s)
      else skipAndError M l
        (invalidRPC ''invalid packet, expected request, response or notification'') s)"

definition decodeRpcPacket :: "msgpack \<Rightarrow> bool \<Rightarrow> bytes \<Rightarrow> decode_result \<times> bytes" where
  "decodeRpcPacket M asRaw s =
     (case PeekCode M s of
        Inl err \<Rightarrow> (DecodeErr (Errorf_w ''can't read message'' err), s)
      | Inr t \<Rightarrow>
          if \<not> is_array_code t
          then skipAndError M 1 (invalidRPC ''invalid packet, expected array'') s
          else
            (case DecodeArrayLen M s of
               ((l, _), s1) \<Rightarrow>
                 if l < 3 \<or> l > 4
                 then skipAndError M l
                   (invalidRPC ''invalid packet, expected array with 3 or 4 elements'') s1
                 else
                   (case DecodeInterface M s1 of
                      (Inl err, s2) \<Rightarrow> (DecodeErr (Errorf_w ''can't read message type'' err), s2)
                    | (Inr maybeMsgType, s2) \<Rightarrow>
                        (case ToInt maybeMsgType of
                           None \<Rightarrow> skipAndError M (l - 1)
                             (invalidRPC ''invalid packet, expected int for message type'') s2
                         | Some mt \<Rightarrow> decode_body M asRaw (sint mt) (l - 1) s2))))"

section \<open>The specification: messages as values\<close>

text \<open>
  How a reader sees a parameter or response field \<open>v\<close> of a message: its exact wire bytes
  when fields are kept raw, the decoded value otherwise.
\<close>

definition field_view :: "msgpack \<Rightarrow> (any \<Rightarrow> any) \<Rightarrow> bool \<Rightarrow> any \<Rightarrow> any" where
  "field_view M norm asRaw v = (if asRaw then GoRawMessage (enc M v) else norm v)"

definition call_spec ::
  "msgpack \<Rightarrow> (any \<Rightarrow> any) \<Rightarrow> bool \<Rightarrow> rpcPacket \<Rightarrow> any \<Rightarrow> any \<Rightarrow> decode_result" where
  "call_spec M norm asRaw packet m ps =
     (case as_string m of
        None \<Rightarrow> DecodeErr (invalidRPC ''invalid packet, expected string for method name'')
      | Some method \<Rightarrow>
          (case ps of
             GoSlice vs \<Rightarrow> Packet (packet\<lparr>pkt_method := method, params := map (field_view M norm asRaw) vs\<rparr>)
           | _ \<Rightarrow> DecodeErr (invalidRPC ''invalid packet, expected array for parameters'')))"

text \<open>
  The MessagePack-RPC specification: a message is an array \<open>[0, id, method, params]\<close>,
  \<open>[1, id, error, result]\<close> or \<open>[2, method, params]\<close>; anything else is an invalid packet
  with the reason the connection reports.
\<close>

definition body_spec :: "msgpack \<Rightarrow> (any \<Rightarrow> any) \<Rightarrow> bool \<Rightarrow> int \<Rightarrow> any list \<Rightarrow> decode_result" where
  "body_spec M norm asRaw t ws =
     (let packet = empty_rpcPacket\<lparr>msgType := t\<rparr> in
      if t = messageTypeRequest \<or> t = messageTypeResponse then
        (case ws of
           [i, x, y] \<Rightarrow>
             (case ToUint i of
                None \<Rightarrow> DecodeErr (invalidRPC ''invalid packet, expected uint for message ID'')
              | Some mid \<Rightarrow>
                  if t = messageTypeRequest
                  then call_spec M norm asRaw (packet\<lparr>msgID := mid\<rparr>) x y
                  else Packet (packet\<lparr>msgID := mid, reqError := field_view M norm asRaw x,
                                      reqResult := field_view M norm asRaw y\<rparr>))
         | _ \<Rightarrow> DecodeErr (invalidRPC
                 ''invalid packet, expected array with 4 elements for request or response''))
      else if t = messageTypeNotification then
        (case ws of
           [m, ps] \<Rightarrow> call_spec M norm asRaw packet m ps
         | _ \<Rightarrow> DecodeErr (invalidRPC
                 ''invalid packet, expected array with 3 elements for notification''))
      else DecodeErr (invalidRPC ''invalid packet, expected request, response or notification''))"

definition rpc_spec :: "msgpack \<Rightarrow> (any \<Rightarrow> any) \<Rightarrow> bool \<Rightarrow> any \<Rightarrow> decode_result" where
  "rpc_spec M norm asRaw v =
     (case v of
        GoSlice vs \<Rightarrow>
          (if length vs < 3 \<or> length vs > 4
           then DecodeErr (invalidRPC ''invalid packet, expected array with 3 or 4 elements'')
           else case ToInt (hd vs) of
             None \<Rightarrow> DecodeErr (invalidRPC ''invalid packet, expected int for message type'')
           | Some t \<Rightarrow> body_spec M norm asRaw (sint t) (tl vs))
      | _ \<Rightarrow> DecodeErr (invalidRPC ''invalid packet, expected array''))"

section \<open>Decoding makes progress\<close>

context msgpack_progress
begin

lemma skip_values_le: "skip_values M n s = (e, s') \<Longrightarrow> length s' \<le> length s"
  by (induction n arbitrary: s) (fastforce split: prod.splits option.splits dest: skip_le)+

lemma skip_values_error:
  "skip_values M n s = (Some err, s') \<Longrightarrow> \<not> As_invalidRPCMessageError err"
  by (induction n arbitrary: s) (auto split: prod.splits option.splits dest: skip_error)

lemma skipAndError_le: "skipAndError M n err s = (r, s') \<Longrightarrow> length s' \<le> length s"
  by (auto simp: skipAndError_def split: prod.splits option.splits dest: skip_values_le)

lemma skipAndError_not_panic: "skipAndError M n err s \<noteq> (DecodePanic, s')"
  by (auto simp: skipAndError_def split: prod.splits option.splits)

lemma decode_field_le: "decode_field M asRaw s = (v, s') \<Longrightarrow> length s' \<le> length s"
  by (auto simp: decode_field_def split: if_splits prod.splits sum.splits dest: raw_le interface_le)

lemma decode_params_le: "decode_params M asRaw i n s = (v, s') \<Longrightarrow> length s' \<le> length s"
  by (induction n arbitrary: i s v s')
     (fastforce split: prod.splits sum.splits dest: decode_field_le)+

lemma decode_call_le: "decode_call M asRaw l p s = (r, s') \<Longrightarrow> length s' \<le> length s"
  by (auto simp: decode_call_def split: prod.splits sum.splits option.splits if_splits
       dest!: interface_le skipAndError_le arraylen_le decode_params_le)

lemma decode_call_not_panic: "decode_call M asRaw l p s \<noteq> (DecodePanic, s')"
  by (auto simp: decode_call_def skipAndError_not_panic
       split: prod.splits sum.splits option.splits if_splits dest: arraylen_nonneg)

lemma decode_response_le: "decode_response M asRaw p s = (r, s') \<Longrightarrow> length s' \<le> length s"
  by (auto simp: decode_response_def split: prod.splits sum.splits dest!: decode_field_le)

lemma decode_response_not_panic: "decode_response M asRaw p s \<noteq> (DecodePanic, s')"
  by (auto simp: decode_response_def split: prod.splits sum.splits)

lemma decode_body_le: "decode_body M asRaw t l s = (r, s') \<Longrightarrow> length s' \<le> length s"
  by (auto simp: decode_body_def decode_msgID_def Let_def
       split: prod.splits sum.splits option.splits if_splits
       dest!: interface_le skipAndError_le decode_call_le decode_response_le)

lemma decode_body_not_panic: "decode_body M asRaw t l s \<noteq> (DecodePanic, s')"
  by (auto simp: decode_body_def decode_msgID_def Let_def skipAndError_not_panic
         decode_call_not_panic decode_response_not_panic
       split: prod.splits sum.splits option.splits if_splits)

text \<open>Every result after which \<open>Run\<close> goes on reading has consumed at least one byte.\<close>

lemma decodeRpcPacket_shrinks:
  assumes "decodeRpcPacket M asRaw s = (r, s')"
    and "\<And>err. r = DecodeErr err \<Longrightarrow> As_invalidRPCMessageError err"
  shows "length s' < length s"
proof (cases "PeekCode M s")
  case (Inl err)
  with assms peek_error show ?thesis by (auto simp: decodeRpcPacket_def)
next
  case (Inr t)
  show ?thesis
  proof (cases "is_array_code t")
    case False
    with assms Inr have "skipAndError M 1 (invalidRPC ''invalid packet, expected array'') s = (r, s')"
      by (simp add: decodeRpcPacket_def)
    then show ?thesis
      using assms(2) skip_error skip_shrinks
      by (auto simp: skipAndError_def numeral_eq_Suc split: prod.splits option.splits)
  next
    case True
    obtain l e s1 where al: "DecodeArrayLen M s = ((l, e), s1)" by (metis prod.exhaust)
    with Inr True have "length s1 < length s" by (blast dest: arraylen_shrinks)
    moreover from assms(1) Inr True al have "length s' \<le> length s1"
      by (auto simp: decodeRpcPacket_def split: prod.splits sum.splits option.splits if_splits
           dest!: interface_le skipAndError_le decode_body_le)
    ultimately show ?thesis by simp
  qed
qed

lemma decodeRpcPacket_not_panic: "decodeRpcPacket M asRaw s \<noteq> (DecodePanic, s')"
  by (auto simp: decodeRpcPacket_def skipAndError_not_panic decode_body_not_panic
       split: prod.splits sum.splits option.splits if_splits)

lemma decodeRpcPacket_end:
  "\<exists>err. decodeRpcPacket M asRaw [] = (DecodeErr err, []) \<and> \<not> As_invalidRPCMessageError err"
  using peek_end peek_error by (auto simp: decodeRpcPacket_def)

end

section \<open>Decoding refines the specification\<close>

context msgpack_format
begin

lemma skip_values_enc:
  "\<forall>v \<in> set vs. wire v \<Longrightarrow> skip_values M (length vs) (concat (map (enc M) vs) @ r) = (None, r)"
  by (induction vs) (simp_all add: skip_enc)

lemma skipAndError_enc:
  "\<lbrakk> \<forall>v \<in> set vs. wire v; n = int (length vs) \<rbrakk> \<Longrightarrow>
     skipAndError M n err (concat (map (enc M) vs) @ r) = (DecodeErr err, r)"
  by (simp add: skipAndError_def skip_values_enc)

lemma decode_field_enc:
  "wire v \<Longrightarrow> decode_field M asRaw (enc M v @ r) = (Inr (field_view M norm asRaw v), r)"
  by (simp add: decode_field_def field_view_def raw_enc interface_enc)

lemma decode_params_enc:
  "\<forall>v \<in> set vs. wire v \<Longrightarrow>
     decode_params M asRaw i (length vs) (concat (map (enc M) vs) @ r)
       = (Inr (map (field_view M norm asRaw) vs), r)"
  by (induction vs arbitrary: i) (simp_all add: decode_field_enc)

lemma decode_call_enc:
  assumes "wire m" and "wire ps" and "l = 2"
  shows "decode_call M asRaw l packet (enc M m @ enc M ps @ r) = (call_spec M norm asRaw packet m ps, r)"
proof (cases "as_string m")
  case None
  with assms show ?thesis
    using skipAndError_enc [of "[ps]" 1]
    by (simp add: decode_call_def call_spec_def interface_enc norm_string)
next
  case (Some mname)
  show ?thesis
  proof (cases "\<exists>vs. ps = GoSlice vs")
    case True
    then obtain vs where ps: "ps = GoSlice vs" by blast
    with assms obtain t where "PeekCode M (enc M ps @ r) = Inr t" "is_array_code t"
      using peek_slice by blast
    with assms Some ps show ?thesis
      by (simp add: decode_call_def call_spec_def interface_enc norm_string arraylen_enc
            decode_params_enc wire_slice)
  next
    case False
    with assms obtain t where "PeekCode M (enc M ps @ r) = Inr t" "\<not> is_array_code t"
      using peek_other by blast
    with assms Some False show ?thesis
      using skipAndError_enc [of "[ps]" 1]
      by (cases ps) (simp_all add: decode_call_def call_spec_def interface_enc norm_string)
  qed
qed

lemma decode_response_enc:
  "\<lbrakk> wire e; wire res \<rbrakk> \<Longrightarrow>
     decode_response M asRaw packet (enc M e @ enc M res @ r)
       = (Packet (packet\<lparr>reqError := field_view M norm asRaw e,
                         reqResult := field_view M norm asRaw res\<rparr>), r)"
  by (simp add: decode_response_def decode_field_enc)

lemma ToInt_norm: "wire v \<Longrightarrow> ToInt (norm v) = ToInt v"
  by (intro ToInt_cong norm_int)

lemma ToUint_norm: "wire v \<Longrightarrow> ToUint (norm v) = ToUint v"
  by (intro ToUint_cong norm_int)

lemma decode_msgID_enc:
  assumes "wire i" and "\<forall>v \<in> set vs. wire v" and "l = int (length vs) + 1"
  shows "decode_msgID M l (enc M i @ concat (map (enc M) vs) @ r) cont =
     (case ToUint i of
        None \<Rightarrow> (DecodeErr (invalidRPC ''invalid packet, expected uint for message ID''), r)
      | Some mid \<Rightarrow> cont mid (concat (map (enc M) vs) @ r))"
  using assms by (simp add: decode_msgID_def interface_enc ToUint_norm skipAndError_enc split: option.split)

text \<open>The body of a packet: what follows the type.\<close>

lemma decode_body_enc:
  assumes w: "\<forall>v \<in> set vs. wire v" and len: "length vs = 3 \<or> length vs = 2"
  shows "decode_body M asRaw t (int (length vs)) (concat (map (enc M) vs) @ r)
           = (body_spec M norm asRaw t vs, r)"
  using len
proof
  assume "length vs = 3"
  then obtain a b c where vs: "vs = [a, b, c]"
    by (metis (no_types, opaque_lifting) length_0_conv length_Suc_conv numeral_3_eq_3)
  with w show ?thesis
    using decode_msgID_enc [of a "[b, c]" 3] skipAndError_enc [of vs 3]
    by (auto simp: decode_body_def body_spec_def Let_def decode_call_enc decode_response_enc
             split: option.split)
next
  assume "length vs = 2"
  then obtain a b where vs: "vs = [a, b]"
    by (metis (no_types, opaque_lifting) length_0_conv length_Suc_conv numeral_2_eq_2)
  with w show ?thesis
    using skipAndError_enc [of vs 2]
    by (auto simp: decode_body_def body_spec_def Let_def decode_call_enc)
qed

lemma decodeRpcPacket_enc:
  assumes "wire v"
  shows "decodeRpcPacket M asRaw (enc M v @ r) = (rpc_spec M norm asRaw v, r)"
proof (cases "\<exists>vs. v = GoSlice vs")
  case False
  with assms obtain t where "PeekCode M (enc M v @ r) = Inr t" "\<not> is_array_code t"
    using peek_other by blast
  with assms False show ?thesis
    using skipAndError_enc [of "[v]" 1]
    by (cases v) (simp_all add: decodeRpcPacket_def rpc_spec_def)
next
  case True
  then obtain vs where v: "v = GoSlice vs" by blast
  with assms have w: "\<forall>v \<in> set vs. wire v" by (simp add: wire_slice)
  from assms v obtain t where pk: "PeekCode M (enc M v @ r) = Inr t" "is_array_code t"
    using peek_slice by blast
  show ?thesis
  proof (cases "length vs < 3 \<or> length vs > 4")
    case True
    with pk assms v w show ?thesis
      by (auto simp: decodeRpcPacket_def rpc_spec_def arraylen_enc skipAndError_enc)
  next
    case False
    then have "length vs = 4 \<or> length vs = 3" by arith
    then obtain a ws where vs: "vs = a # ws" and ws: "length ws = 3 \<or> length ws = 2"
      by (cases vs) auto
    with w have wa: "wire a" and wws: "\<forall>v \<in> set ws. wire v" by auto
    have "decodeRpcPacket M asRaw (enc M v @ r) =
        (case ToInt a of
           None \<Rightarrow> (DecodeErr (invalidRPC ''invalid packet, expected int for message type''), r)
         | Some t \<Rightarrow> decode_body M asRaw (sint t) (int (length ws)) (concat (map (enc M) ws) @ r))"
      using pk assms v vs False wa wws
      by (auto simp: decodeRpcPacket_def arraylen_enc interface_enc ToInt_norm skipAndError_enc
               split: option.split)
    with v vs False show ?thesis
      by (cases "ToInt a") (simp_all add: rpc_spec_def decode_body_enc [OF wws ws])
  qed
qed

end

section \<open>Properties\<close>

text \<open>
  C11. Decoding a packet refines the MessagePack-RPC specification: whatever value \<open>v\<close> is
  encoded at the front of the stream, \<open>decodeRpcPacket\<close> consumes exactly the bytes of \<open>v\<close>
  (also when it rejects the packet, so that the next packet is read from its beginning) and
  returns the packet, or the error, that the specification assigns to \<open>v\<close>.
\<close>

theorem decode_refines_spec:
  assumes "msgpack_format M norm wire" and "wire v"
  shows "decodeRpcPacket M asRaw (enc M v @ rest) = (rpc_spec M norm asRaw v, rest)"
  using assms by (rule msgpack_format.decodeRpcPacket_enc)

theorem decode_refines_spec_witness:
  "decodeRpcPacket mp_codec True
     (enc mp_codec (GoSlice [GoInt 2, GoString ''f'', GoSlice [GoBool True]]) @ [0xc0])
   = (Packet (empty_rpcPacket\<lparr>msgType := 2, pkt_method := ''f'',
        params := [GoRawMessage (enc mp_codec (GoBool True))]\<rparr>), [0xc0])"
  using decode_refines_spec [OF mp.msgpack_format_axioms,
      of "GoSlice [GoInt 2, GoString ''f'', GoSlice [GoBool True]]" True "[0xc0]"]
  by (simp add: mp.wire_slice mp.wire_bool mp.wire_string mp.wire_int rpc_spec_def body_spec_def
        call_spec_def field_view_def)

end
