(* ===== verification/Limited_Buffer.thy ===== *)
theory Limited_Buffer
  imports Msgpack_Codec
begin

text \<open>
  \<open>msgpackrpc/limited_buffer.go\<close>: the fixed-size buffer an outgoing message is encoded into
  when the peer has announced a maximum message size. The operations keep the methods'
  names with the prefix \<open>lb_\<close>; \<open>lb_inv\<close> is the invariant of the three fields under which no
  slice expression of the methods is out of range.
\<close>

section \<open>The buffer and its methods\<close>

record LimitedBuffer =
  lb_buf :: bytes
  lb_limit :: int
  lb_length :: nat

text \<open>\<open>make([]byte, limit)\<close> panics (\<open>None\<close>) on a size it cannot allocate.\<close>

definition NewLimitedBuffer :: "int \<Rightarrow> LimitedBuffer option" where
  "NewLimitedBuffer limit =
     (case make_bytes limit of
        None \<Rightarrow> None
      | Some b \<Rightarrow> Some \<lparr>lb_buf = b, lb_limit = limit, lb_length = 0\<rparr>)"

definition lb_Write :: "LimitedBuffer writer" where
  "lb_Write b p =
     (let n = min (length (drop (lb_length b) (lb_buf b))) (length p);
          b' = b\<lparr>lb_buf := take (lb_length b) (lb_buf b) @ take n p @ drop (lb_length b + n) (lb_buf b),
                 lb_length := lb_length b + n\<rparr>
      in if n < length p then (n, Some (ErrBufferLimitExceeded (lb_limit b)), b')
         else (n, None, b'))"

definition lb_Bytes :: "LimitedBuffer \<Rightarrow> bytes" where
  "lb_Bytes b = take (lb_length b) (lb_buf b)"

definition lb_Reset :: "LimitedBuffer \<Rightarrow> LimitedBuffer" where
  "lb_Reset b = b\<lparr>lb_length := 0\<rparr>"

definition lb_Len :: "LimitedBuffer \<Rightarrow> nat" where
  "lb_Len b = lb_length b"

definition lb_Cap :: "LimitedBuffer \<Rightarrow> int" where
  "lb_Cap b = lb_limit b"

definition lb_String :: "LimitedBuffer \<Rightarrow> string" where
  "lb_String b = string_of_bytes (lb_Bytes b)"

definition lb_inv :: "LimitedBuffer \<Rightarrow> bool" where
  "lb_inv b \<longleftrightarrow> lb_limit b = int (length (lb_buf b)) \<and> lb_length b \<le> length (lb_buf b)"

section \<open>The invariant\<close>

lemma NewLimitedBuffer_inv [inv_intros]: "NewLimitedBuffer l = Some b \<Longrightarrow> lb_inv b"
  by (auto simp: NewLimitedBuffer_def lb_inv_def make_bytes_def split: if_splits)

lemma NewLimitedBuffer_fields:
  "NewLimitedBuffer l = Some b \<Longrightarrow> lb_Bytes b = [] \<and> lb_limit b = l"
  by (auto simp: NewLimitedBuffer_def lb_Bytes_def split: option.splits)

lemma lb_Reset_inv [inv_intros]: "lb_inv b \<Longrightarrow> lb_inv (lb_Reset b)"
  by (simp add: lb_inv_def lb_Reset_def)

lemma lb_Reset_simps [simp]: "lb_Bytes (lb_Reset b) = []" "lb_limit (lb_Reset b) = lb_limit b"
  by (simp_all add: lb_Bytes_def lb_Reset_def)

lemma lb_Write_inv [inv_intros]: "lb_inv b \<Longrightarrow> lb_Write b p = (n, e, b') \<Longrightarrow> lb_inv b'"
  by (auto simp: lb_inv_def lb_Write_def Let_def split: if_splits)

lemma length_lb_Bytes: "lb_inv b \<Longrightarrow> length (lb_Bytes b) = lb_length b"
  by (simp add: lb_inv_def lb_Bytes_def)

text \<open>
  One write, as the specification sees it: the content is extended and cut at the limit,
  and the error is reported exactly when something was cut.
\<close>

lemma lb_Write_spec:
  assumes "lb_inv b" and "lb_Write b p = (n, e, b')"
  shows "lb_Bytes b' = take (nat (lb_limit b)) (lb_Bytes b @ p)"
    and "lb_limit b' = lb_limit b"
    and "n = min (nat (lb_limit b) - length (lb_Bytes b)) (length p)"
    and "e = (if int (length (lb_Bytes b @ p)) \<le> lb_limit b then None
              else Some (ErrBufferLimitExceeded (lb_limit b)))"
  using assms
  by (auto simp: lb_Write_def lb_Bytes_def lb_inv_def Let_def min_def split: if_splits)

interpretation lb_sink: byte_sink lb_Write lb_Bytes lb_inv
proof unfold_locales
  fix b p n e b'
  assume inv: "lb_inv b" and w: "lb_Write b p = (n, e, b')"
  have "take (nat (lb_limit b)) (lb_Bytes b @ p)
        = lb_Bytes b @ take (nat (lb_limit b) - length (lb_Bytes b)) p"
    using inv by (auto simp: lb_inv_def lb_Bytes_def min_def)
  with lb_Write_spec [OF inv w] show "lb_Bytes b' = lb_Bytes b @ take n p"
    by (auto simp: min_def)
next
  fix b p n b'
  assume "lb_inv b" and "lb_Write b p = (n, None, b')"
  then show "n = length p"
    by (auto simp: lb_Write_def Let_def split: if_splits)
qed (rule lb_Write_inv)

section \<open>A sequence of writes\<close>

lemma lb_write_chunks_spec:
  assumes "lb_inv b" and "write_chunks lb_Write b ps = (e, b')"
  shows "lb_Bytes b' = take (nat (lb_limit b)) (lb_Bytes b @ concat ps)
       \<and> lb_limit b' = lb_limit b
       \<and> e = (if int (length (lb_Bytes b @ concat ps)) \<le> lb_limit b then None
              else Some (ErrBufferLimitExceeded (lb_limit b)))"
  using assms
proof (induction ps arbitrary: b)
  case Nil
  then show ?case by (auto simp: lb_inv_def lb_Bytes_def)
next
  case (Cons p ps)
  obtain n e1 b1 where w: "lb_Write b p = (n, e1, b1)" by (cases "lb_Write b p") auto
  note spec = lb_Write_spec [OF Cons.prems(1) w]
  have inv1: "lb_inv b1" using lb_Write_inv [OF Cons.prems(1) w] .
  have lim: "int (nat (lb_limit b)) = lb_limit b" using Cons.prems(1) by (simp add: lb_inv_def)
  show ?case
  proof (cases "int (length (lb_Bytes b @ p)) \<le> lb_limit b")
    case True
    with spec w Cons.prems(2) have "write_chunks lb_Write b1 ps = (e, b')" by simp
    from Cons.IH [OF inv1 this] True spec lim show ?thesis
      by (simp add: add.assoc)
  next
    case False
    with spec w Cons.prems(2) have "e = Some (ErrBufferLimitExceeded (lb_limit b))" "b' = b1"
      by auto
    with False spec lim show ?thesis by auto
  qed
qed

text \<open>
  Encoding into a limited buffer is all-or-error and does not depend on how the encoder
  splits its output: whatever chunks are written, the buffer ends up holding the first
  \<open>limit\<close> bytes of the whole message, and \<open>ErrBufferLimitExceeded\<close> is returned exactly when
  the message does not fit.
\<close>

lemma limited_buffer_chunks:
  assumes "lb_inv b"
  shows "lb_Bytes (snd (write_chunks lb_Write b ps)) = take (nat (lb_limit b)) (lb_Bytes b @ concat ps)
       \<and> fst (write_chunks lb_Write b ps)
           = (if int (length (lb_Bytes b @ concat ps)) \<le> lb_limit b then None
              else Some (ErrBufferLimitExceeded (lb_limit b)))"
  using lb_write_chunks_spec [OF assms, of ps "fst (write_chunks lb_Write b ps)"
          "snd (write_chunks lb_Write b ps)"] by simp

end
