(* ===== verification/Rpc_Connection.thy ===== *)
theory Rpc_Connection
  imports Rpc_Decode Limited_Buffer
begin

text \<open>
  \<open>msgpackrpc/connection.go\<close>: the connection record and its operations. The handlers of a
  connection are closures over the program's state; here they are arguments (the record
  \<open>rpc_handlers\<close>) that transform a state of any type, and a response callback is a value of
  a type \<open>'k\<close> that the caller interprets. Logging has no effect on this state, as \<open>Rpc_Logging\<close> shows, and is left out here.
\<close>

section \<open>The connection\<close>

record 'k outRequest =
  req_res :: 'k
  req_method :: string

record 'k Connection =
  conn_out :: out_stream
  in_closed :: bool
  msgpBuffer :: "LimitedBuffer option"
  paramsAndResponsesAsRaw :: bool
  activeOutRequests :: "MessageID \<rightharpoonup> 'k outRequest"
  lastOutRequestsIndex :: "32 word"

definition NewConnection :: "out_stream \<Rightarrow> 'k Connection" where
  "NewConnection out =
     \<lparr>conn_out = out, in_closed = False, msgpBuffer = None, paramsAndResponsesAsRaw = False,
      activeOutRequests = Map.empty, lastOutRequestsIndex = 0\<rparr>"

text \<open>The request handler a connection gets when none is given.\<close>

definition default_requestHandler :: "string \<Rightarrow> any \<times> any" where
  "default_requestHandler method =
     (GoNil, GoError (ErrorString (''method not implemented: '' @ method)))"

text \<open>
  \<open>SetMaxOutgoingMessageSize\<close>; \<open>None\<close> is the panic of \<open>NewLimitedBuffer\<close>. The source has no
  return after the \<open>size <= 0\<close> branch, so that branch falls through to the allocation.
\<close>

definition SetMaxOutgoingMessageSize :: "int \<Rightarrow> 'k Connection \<Rightarrow> 'k Connection option" where
  "SetMaxOutgoingMessageSize sz c =
     (let c1 = (if sz \<le> 0 then c\<lparr>msgpBuffer := None\<rparr> else c) in
      case NewLimitedBuffer sz of
        None \<Rightarrow> None
      | Some b \<Rightarrow> Some (c1\<lparr>msgpBuffer := Some b\<rparr>))"

definition SetKeepParamsAndResponsesAsRaw :: "bool \<Rightarrow> 'k Connection \<Rightarrow> 'k Connection" where
  "SetKeepParamsAndResponsesAsRaw keepAsRaw c = c\<lparr>paramsAndResponsesAsRaw := keepAsRaw\<rparr>"

section \<open>Sending\<close>

definition send :: "msgpack \<Rightarrow> any list \<Rightarrow> 'k Connection \<Rightarrow> goerror option \<times> 'k Connection" where
  "send M data c =
     (case msgpBuffer c of
        None \<Rightarrow>
          (case encode_to M stream_Write (conn_out c) (GoSlice data) of
             (e, out) \<Rightarrow> (e, c\<lparr>conn_out := out\<rparr>))
      | Some buf \<Rightarrow>
          (case encode_to M lb_Write (lb_Reset buf) (GoSlice data) of
             (Some e, buf') \<Rightarrow> (Some e, c\<lparr>msgpBuffer := Some buf'\<rparr>)
           | (None, buf') \<Rightarrow>
               (case stream_Write (conn_out c) (lb_Bytes buf') of
                  (_, e, out) \<Rightarrow> (e, c\<lparr>msgpBuffer := Some buf', conn_out := out\<rparr>))))"

definition request_message :: "MessageID \<Rightarrow> string \<Rightarrow> any list \<Rightarrow> any list" where
  "request_message mid method ps = [GoInt 0, GoUint mid, GoString method, GoSlice ps]"

definition response_message :: "MessageID \<Rightarrow> any \<Rightarrow> any \<Rightarrow> any list" where
  "response_message mid err result = [GoInt 1, GoUint mid, err, result]"

definition notification_message :: "string \<Rightarrow> any list \<Rightarrow> any list" where
  "notification_message method ps = [GoInt 2, GoString method, GoSlice ps]"

definition sendRequest ::
  "msgpack \<Rightarrow> string \<Rightarrow> any list \<Rightarrow> 'k \<Rightarrow> 'k Connection \<Rightarrow> (goerror + MessageID) \<times> 'k Connection" where
  "sendRequest M method ps res c =
     (let idx = lastOutRequestsIndex c + 1;
          mid = ucast idx;
          c1 = c\<lparr>lastOutRequestsIndex := idx,
                 activeOutRequests := (activeOutRequests c)(mid \<mapsto> \<lparr>req_res = res, req_method = method\<rparr>)\<rparr>
      in case send M (request_message mid method ps) c1 of
           (Some err, c2) \<Rightarrow>
             (Inl (Errorf_w ''sending request'' err),
              c2\<lparr>activeOutRequests := (activeOutRequests c2)(mid := None)\<rparr>)
         | (None, c2) \<Rightarrow> (Inr mid, c2))"

definition SendRequestWithAsyncResult ::
  "msgpack \<Rightarrow> 'k \<Rightarrow> string \<Rightarrow> any list \<Rightarrow> 'k Connection \<Rightarrow> goerror option \<times> 'k Connection" where
  "SendRequestWithAsyncResult M res method ps c =
     (case sendRequest M method ps res c of
        (Inl err, c') \<Rightarrow> (Some err, c')
      | (Inr _, c') \<Rightarrow> (None, c'))"

definition SendNotification ::
  "msgpack \<Rightarrow> string \<Rightarrow> any list \<Rightarrow> 'k Connection \<Rightarrow> goerror option \<times> 'k Connection" where
  "SendNotification M method ps c =
     (case send M (notification_message method ps) c of
        (Some err, c') \<Rightarrow> (Some (Errorf_w ''sending notification'' err), c')
      | (None, c') \<Rightarrow> (None, c'))"

text \<open>The callback \<open>cb\<close> that \<open>handleIncomingRequest\<close> hands to the request handler.\<close>

definition sendResponse ::
  "msgpack \<Rightarrow> MessageID \<Rightarrow> any \<Rightarrow> any \<Rightarrow> 'k Connection \<Rightarrow> goerror option \<times> 'k Connection" where
  "sendResponse M mid result err c = send M (response_message mid err result) c"

section \<open>Receiving\<close>

text \<open>
  A response: the error reported when no request with that ID is pending, or the callback to
  call. The arguments of the callback are the response's result and error.
\<close>

definition handleIncomingResponse ::
  "MessageID \<Rightarrow> 'k Connection \<Rightarrow> (goerror + 'k) \<times> 'k Connection" where
  "handleIncomingResponse mid c =
     (case activeOutRequests c mid of
        None \<Rightarrow> (Inl (ErrorString (''invalid ID in request response '' @ [CHR 0x27] @ show_nat (unat mid) @
                   [CHR 0x27] @ '': double answer or request not sent'')), c)
      | Some req \<Rightarrow> (Inr (req_res req), c\<lparr>activeOutRequests := (activeOutRequests c)(mid := None)\<rparr>))"

definition Close :: "'k Connection \<Rightarrow> 'k Connection" where
  "Close c = c\<lparr>in_closed := True, conn_out := stream_Close (conn_out c)\<rparr>"

text \<open>
  \<open>SendRequest\<close> waits for the response or for its context: the two outcomes of the \<open>select\<close>,
  the first one carrying what the callback stored. Nothing else of the connection changes,
  in particular an abandoned request stays pending.
\<close>

datatype await_outcome = Answered any any | Cancelled goerror

fun SendRequest_result :: "await_outcome \<Rightarrow> goerror + (any \<times> any)" where
  "SendRequest_result (Answered result err) = Inr (result, err)"
| "SendRequest_result (Cancelled e) = Inl e"

section \<open>The read loop\<close>

record 'w rpc_handlers =
  onRequest :: "MessageID \<Rightarrow> string \<Rightarrow> any list \<Rightarrow> 'w \<Rightarrow> 'w"
  onResponse :: "MessageID \<Rightarrow> any \<Rightarrow> any \<Rightarrow> 'w \<Rightarrow> 'w"
  onNotification :: "string \<Rightarrow> any list \<Rightarrow> 'w \<Rightarrow> 'w"
  onError :: "goerror \<Rightarrow> 'w \<Rightarrow> 'w"

definition dispatch :: "'w rpc_handlers \<Rightarrow> rpcPacket \<Rightarrow> 'w \<Rightarrow> 'w" where
  "dispatch H p w =
     (if msgType p = messageTypeRequest then onRequest H (msgID p) (pkt_method p) (params p) w
      else if msgType p = messageTypeResponse then onResponse H (msgID p) (reqError p) (reqResult p) w
      else if msgType p = messageTypeNotification then onNotification H (pkt_method p) (params p) w
      else w)"

datatype 'w run_result = Stopped 'w | RunPanic

text \<open>
  \<open>Run\<close> with fuel for its unbounded loop: \<open>None\<close> means that the fuel ran out, which the
  termination theorem excludes once the fuel exceeds the number of bytes in the stream.
\<close>

fun Run :: "msgpack \<Rightarrow> bool \<Rightarrow> 'w rpc_handlers \<Rightarrow> nat \<Rightarrow> bytes \<Rightarrow> 'w \<Rightarrow> 'w run_result option" where
  "Run M asRaw H 0 s w = None"
| "Run M asRaw H (Suc fuel) s w =
     (case decodeRpcPacket M asRaw s of
        (DecodePanic, s') \<Rightarrow> Some RunPanic
      | (DecodeErr err, s') \<Rightarrow>
          (let w' = onError H (Errorf_w ''decoding packet'' err) w in
           if As_invalidRPCMessageError err then Run M asRaw H fuel s' w' else Some (Stopped w'))
      | (Packet p, s') \<Rightarrow> Run M asRaw H fuel s' (dispatch H p w))"

text \<open>What one packet, or one decoding error after which reading goes on, does to the state.\<close>

definition deliver :: "'w rpc_handlers \<Rightarrow> decode_result \<Rightarrow> 'w \<Rightarrow> 'w" where
  "deliver H r w =
     (case r of
        Packet p \<Rightarrow> dispatch H p w
      | DecodeErr err \<Rightarrow> onError H (Errorf_w ''decoding packet'' err) w
      | DecodePanic \<Rightarrow> w)"

section \<open>The invariant of a connection\<close>

definition conn_inv :: "'k Connection \<Rightarrow> bool" where
  "conn_inv c \<longleftrightarrow>
     (\<forall>b. msgpBuffer c = Some b \<longrightarrow> lb_inv b) \<and>
     (\<forall>mid. activeOutRequests c mid \<noteq> None \<longrightarrow> unat mid < 2 ^ 32)"

lemma conn_inv_New [inv_intros, simp]: "conn_inv (NewConnection out)"
  by (simp add: conn_inv_def NewConnection_def)

lemma conn_inv_SetMax [inv_intros]:
  "\<lbrakk> conn_inv c; SetMaxOutgoingMessageSize n c = Some c' \<rbrakk> \<Longrightarrow> conn_inv c'"
  by (auto simp: conn_inv_def SetMaxOutgoingMessageSize_def Let_def split: option.splits if_splits
       dest: NewLimitedBuffer_inv)

lemma conn_inv_SetKeep [inv_intros]: "conn_inv c \<Longrightarrow> conn_inv (SetKeepParamsAndResponsesAsRaw b c)"
  by (simp add: conn_inv_def SetKeepParamsAndResponsesAsRaw_def)

lemma conn_inv_Close [inv_intros]: "conn_inv c \<Longrightarrow> conn_inv (Close c)"
  by (simp add: conn_inv_def Close_def)

lemma conn_inv_response [inv_intros]:
  "\<lbrakk> conn_inv c; handleIncomingResponse mid c = (r, c') \<rbrakk> \<Longrightarrow> conn_inv c'"
  by (auto simp: conn_inv_def handleIncomingResponse_def split: option.splits if_splits)

lemma send_frame:
  assumes "send M data c = (e, c')"
  shows "activeOutRequests c' = activeOutRequests c"
    and "lastOutRequestsIndex c' = lastOutRequestsIndex c"
    and "paramsAndResponsesAsRaw c' = paramsAndResponsesAsRaw c"
    and "in_closed c' = in_closed c"
    and "map_option lb_limit (msgpBuffer c') = map_option lb_limit (msgpBuffer c) \<or> \<not> conn_inv c"
  using assms
  by (auto simp: send_def encode_to_def conn_inv_def split: option.splits prod.splits
       dest!: lb_write_chunks_spec [OF lb_Reset_inv])

lemma conn_inv_send [inv_intros]:
  assumes "conn_inv c" and "send M data c = (e, c')"
  shows "conn_inv c'"
proof (cases "msgpBuffer c")
  case None
  with assms show ?thesis by (auto simp: conn_inv_def send_def split: prod.splits)
next
  case (Some b)
  obtain e1 b' where w: "encode_to M lb_Write (lb_Reset b) (GoSlice data) = (e1, b')"
    by (cases "encode_to M lb_Write (lb_Reset b) (GoSlice data)") auto
  from assms(1) Some have "lb_inv (lb_Reset b)" by (simp add: conn_inv_def lb_Reset_inv)
  then have "lb_inv b'" using w by (rule lb_sink.encode_to_inv)
  moreover have "msgpBuffer c' = Some b' \<and> activeOutRequests c' = activeOutRequests c"
    using assms(2) Some w by (auto simp: send_def split: option.splits prod.splits)
  ultimately show ?thesis using assms(1) by (simp add: conn_inv_def)
qed

lemma unat_ucast_32: "unat (ucast w :: 64 word) < 2 ^ 32" for w :: "32 word"
proof -
  have "unat (ucast w :: 64 word) \<le> unat w"
    by (simp only: unsigned_ucast_eq take_bit_nat_less_eq_self)
  also have "unat w < 2 ^ 32" using unsigned_less [of w, where 'a = nat] by simp
  finally show ?thesis .
qed

lemma conn_inv_sendRequest [inv_intros]:
  assumes "conn_inv c" and "sendRequest M method ps res c = (r, c')"
  shows "conn_inv c'"
proof -
  let ?idx = "lastOutRequestsIndex c + 1"
  let ?c1 = "c\<lparr>lastOutRequestsIndex := ?idx, activeOutRequests :=
     (activeOutRequests c)(ucast ?idx \<mapsto> \<lparr>req_res = res, req_method = method\<rparr>)\<rparr>"
  have "conn_inv ?c1"
    using assms(1) unat_ucast_32 [of ?idx] by (auto simp: conn_inv_def)
  moreover obtain e c2 where s: "send M (request_message (ucast ?idx) method ps) ?c1 = (e, c2)"
    by (cases "send M (request_message (ucast ?idx) method ps) ?c1") auto
  ultimately have "conn_inv c2" by (rule conn_inv_send)
  then show ?thesis
    using assms(2) s
    by (auto simp: sendRequest_def Let_def conn_inv_def split: option.splits if_splits)
qed

section \<open>What reaches the stream\<close>

lemma send_limited:
  assumes inv: "lb_inv b" and buf: "msgpBuffer c = Some b"
    and ok: "snd (Encode M (GoSlice data)) = None"
  shows "send M data c =
     (let buf' = snd (encode_to M lb_Write (lb_Reset b) (GoSlice data)) in
      if int (length (enc M (GoSlice data))) \<le> lb_limit b
      then (case stream_Write (conn_out c) (enc M (GoSlice data)) of
              (_, e, out) \<Rightarrow> (e, c\<lparr>msgpBuffer := Some buf', conn_out := out\<rparr>))
      else (Some (ErrBufferLimitExceeded (lb_limit b)), c\<lparr>msgpBuffer := Some buf'\<rparr>))"
proof -
  obtain e b' where w: "write_chunks lb_Write (lb_Reset b) (fst (Encode M (GoSlice data))) = (e, b')"
    by (cases "write_chunks lb_Write (lb_Reset b) (fst (Encode M (GoSlice data)))") auto
  from lb_write_chunks_spec [OF lb_Reset_inv [OF inv] w] w buf ok show ?thesis
    by (auto simp: send_def encode_to_def enc_def Let_def split: option.splits prod.splits)
qed

lemma send_unlimited:
  assumes "msgpBuffer c = None" and "snd (Encode M (GoSlice data)) = None"
    and "\<not> out_closed (conn_out c)" and "capacity (conn_out c) = None"
  shows "send M data c =
     (None, c\<lparr>conn_out := (conn_out c)\<lparr>sent := sent (conn_out c) @ enc M (GoSlice data)\<rparr>\<rparr>)"
proof -
  have "write_chunks stream_Write out ps = (None, out\<lparr>sent := sent out @ concat ps\<rparr>)"
    if "\<not> out_closed out" "capacity out = None" for out ps
    using that by (induction ps arbitrary: out) (simp_all add: stream_Write_unlimited)
  with assms show ?thesis by (simp add: send_def encode_to_def enc_def)
qed

lemma send_appends:
  assumes "conn_inv c" and "send M data c = (e, c')"
  shows "\<exists>k. sent (conn_out c') = sent (conn_out c) @ take k (enc M (GoSlice data))"
proof (cases "msgpBuffer c")
  case None
  obtain e1 out where w: "write_chunks stream_Write (conn_out c) (fst (Encode M (GoSlice data))) = (e1, out)"
    by (cases "write_chunks stream_Write (conn_out c) (fst (Encode M (GoSlice data)))") auto
  from stream_sink.write_chunks_prefix [OF TrueI w] w None assms(2) show ?thesis
    by (auto simp: send_def encode_to_def enc_def split: option.splits)
next
  case (Some b)
  with assms(1) have inv: "lb_inv (lb_Reset b)" by (simp add: conn_inv_def lb_Reset_inv)
  show ?thesis
  proof (cases "encode_to M lb_Write (lb_Reset b) (GoSlice data)")
    case (Pair e1 b')
    show ?thesis
    proof (cases e1)
      case None
      with Pair inv have "lb_Bytes b' = enc M (GoSlice data)"
        using lb_sink.encode_to_ok by fastforce
      then show ?thesis
        using assms(2) Some Pair None stream_sink.write_appends
        by (fastforce simp: send_def split: prod.splits)
    next
      case (Some err)
      with assms(2) \<open>msgpBuffer c = Some b\<close> Pair have "conn_out c' = conn_out c"
        by (auto simp: send_def)
      then show ?thesis by (metis append.right_neutral take0)
    qed
  qed
qed

lemma send_ok_appends:
  assumes "conn_inv c" and "send M data c = (None, c')"
  shows "sent (conn_out c') = sent (conn_out c) @ enc M (GoSlice data)"
proof (cases "msgpBuffer c")
  case None
  with assms(2) obtain out where "encode_to M stream_Write (conn_out c) (GoSlice data) = (None, out)"
    and "c' = c\<lparr>conn_out := out\<rparr>"
    by (auto simp: send_def split: prod.splits)
  with stream_sink.encode_to_ok [OF TrueI] show ?thesis by simp
next
  case (Some b)
  with assms(1) have inv: "lb_inv (lb_Reset b)" by (simp add: conn_inv_def lb_Reset_inv)
  from assms(2) Some obtain b' n out
    where e: "encode_to M lb_Write (lb_Reset b) (GoSlice data) = (None, b')"
      and w: "stream_Write (conn_out c) (lb_Bytes b') = (n, None, out)"
      and c': "conn_out c' = out"
    by (auto simp: send_def split: prod.splits option.splits)
  from lb_sink.encode_to_ok [OF inv e] stream_sink.write_appends [OF TrueI w]
    stream_sink.write_short [OF TrueI w] c' show ?thesis by simp
qed

section \<open>The read loop ends and sees every message\<close>

lemma Run_fuel_mono: "Run M asRaw H fuel s w = Some x \<Longrightarrow> Run M asRaw H (fuel + k) s w = Some x"
proof (induction fuel arbitrary: s w)
  case (Suc fuel)
  then show ?case
    by (auto simp: Let_def split: prod.splits decode_result.splits if_splits)
qed simp

context msgpack_progress
begin

lemma Run_terminates:
  "length s < fuel \<Longrightarrow> \<exists>w'. Run M asRaw H fuel s w = Some (Stopped w')"
proof (induction fuel arbitrary: s w)
  case (Suc fuel)
  obtain r s' where d: "decodeRpcPacket M asRaw s = (r, s')" by (metis prod.exhaust)
  show ?case
  proof (cases "\<exists>err. r = DecodeErr err \<and> \<not> As_invalidRPCMessageError err")
    case True
    with d show ?thesis by (auto simp: Let_def)
  next
    case False
    with d have "length s' < length s" by (blast intro: decodeRpcPacket_shrinks)
    with Suc.prems have "length s' < fuel" by simp
    from Suc.IH [OF this] False d decodeRpcPacket_not_panic show ?thesis
      by (cases r) (auto simp: Let_def)
  qed
qed simp

end

context msgpack_format
begin

lemma enc_nonempty: "wire v \<Longrightarrow> enc M v \<noteq> []"
  using skip_enc [of v "[]"] skip_shrinks [of "enc M v" "[]"] by auto

lemma messages_le_bytes: "\<forall>v \<in> set vs. wire v \<Longrightarrow> length vs \<le> length (concat (map (enc M) vs))"
proof (induction vs)
  case (Cons v vs)
  then have "Suc 0 \<le> length (enc M v)" by (simp add: Suc_le_eq enc_nonempty)
  from add_mono [OF this Cons.IH] Cons.prems show ?case by simp
qed simp

lemma call_spec_invalid: "call_spec M norm asRaw p m ps = DecodeErr err \<Longrightarrow> As_invalidRPCMessageError err"
  by (auto simp: call_spec_def invalidRPC_def split: option.splits any.splits)

lemma call_spec_not_panic: "call_spec M norm asRaw p m ps \<noteq> DecodePanic"
  by (simp add: call_spec_def split: option.split any.split)

lemma body_spec_invalid: "body_spec M norm asRaw t ws = DecodeErr err \<Longrightarrow> As_invalidRPCMessageError err"
  by (auto simp: body_spec_def Let_def invalidRPC_def dest: call_spec_invalid
       split: option.splits list.splits if_splits)

lemma body_spec_not_panic: "body_spec M norm asRaw t ws \<noteq> DecodePanic"
  by (auto simp: body_spec_def Let_def call_spec_not_panic split: option.splits list.splits)

lemma rpc_spec_invalid: "rpc_spec M norm asRaw v = DecodeErr err \<Longrightarrow> As_invalidRPCMessageError err"
  by (auto simp: rpc_spec_def invalidRPC_def dest: body_spec_invalid
       split: any.splits option.splits if_splits)

lemma rpc_spec_not_panic: "rpc_spec M norm asRaw v \<noteq> DecodePanic"
  by (auto simp: rpc_spec_def body_spec_not_panic split: any.splits option.splits)

lemma Run_messages:
  "\<forall>v \<in> set vs. wire v \<Longrightarrow>
     Run M asRaw H (length vs + fuel) (concat (map (enc M) vs) @ r) w
       = Run M asRaw H fuel r (fold (\<lambda>v. deliver H (rpc_spec M norm asRaw v)) vs w)"
proof (induction vs arbitrary: w)
  case (Cons v vs)
  then show ?case
    using rpc_spec_invalid [of asRaw v] rpc_spec_not_panic [of asRaw v]
    by (auto simp: decodeRpcPacket_enc deliver_def Let_def split: decode_result.split)
qed simp

text \<open>A stream of messages: each one is delivered in order, then the end of the stream is reported.\<close>

lemma Run_stream:
  assumes "\<forall>v \<in> set vs. wire v" and "length (concat (map (enc M) vs)) < fuel"
  shows "\<exists>e. \<not> As_invalidRPCMessageError e \<and>
     Run M asRaw H fuel (concat (map (enc M) vs)) w
       = Some (Stopped (onError H e (fold (\<lambda>v. deliver H (rpc_spec M norm asRaw v)) vs w)))"
proof -
  from decodeRpcPacket_end [of asRaw] obtain err where
    d: "decodeRpcPacket M asRaw [] = (DecodeErr err, [])" "\<not> As_invalidRPCMessageError err"
    by blast
  have "Run M asRaw H (length vs + 1) (concat (map (enc M) vs) @ []) w
      = Some (Stopped (onError H (Errorf_w ''decoding packet'' err)
          (fold (\<lambda>v. deliver H (rpc_spec M norm asRaw v)) vs w)))"
    unfolding Run_messages [OF assms(1)] using d by (simp add: Let_def)
  from Run_fuel_mono [OF this, of "fuel - (length vs + 1)"] messages_le_bytes [OF assms(1)]
    assms(2) d(2) show ?thesis
    by (intro exI [of _ "Errorf_w ''decoding packet'' err"]) simp
qed

end

section \<open>Properties\<close>

text \<open>Handlers that only record what they were called with.\<close>

definition log_handlers :: "string list rpc_handlers" where
  "log_handlers =
     \<lparr>onRequest = (\<lambda>mid method ps w. w @ [method]), onResponse = (\<lambda>mid err result w. w @ [''response'']),
      onNotification = (\<lambda>method ps w. w @ [method]), onError = (\<lambda>e w. w @ [''error''])\<rparr>"

text \<open>
  C13. The read loop of a connection ends, without a panic, on every finite stream,
  well-formed or not: one iteration per byte of the stream is always enough.
\<close>

theorem run_terminates:
  assumes "msgpack_progress M" and "length s < fuel"
  shows "\<exists>w'. Run M asRaw H fuel s w = Some (Stopped w')"
  using assms by (rule msgpack_progress.Run_terminates)

theorem run_terminates_witness:
  "\<exists>w'. Run mp_codec True log_handlers 4 [0x93, 0xff, 0x01] [] = Some (Stopped w')"
  by (rule run_terminates [OF mp.msgpack_progress_axioms]) simp

text \<open>
  C12. On a stream of messages the read loop hands every message, in order and exactly
  once, to the handler that the specification selects for it; an invalid message is reported
  and skipped without losing its successors; at the end of the stream the error handler is
  told once more and the loop stops.
\<close>

theorem run_delivers_stream:
  assumes "msgpack_format M norm wire" and "\<forall>v \<in> set vs. wire v"
    and "length (concat (map (enc M) vs)) < fuel"
  shows "\<exists>e. \<not> As_invalidRPCMessageError e \<and>
     Run M asRaw H fuel (concat (map (enc M) vs)) w
       = Some (Stopped (onError H e (fold (\<lambda>v. deliver H (rpc_spec M norm asRaw v)) vs w)))"
  using assms by (rule msgpack_format.Run_stream)

theorem run_delivers_stream_witness:
  "\<exists>fuel e. \<not> As_invalidRPCMessageError e \<and>
     Run mp_codec True log_handlers fuel
       (concat (map (enc mp_codec)
          [GoSlice [GoInt 2, GoString ''f'', GoSlice []], GoNil, GoSlice [GoInt 2, GoString ''g'', GoSlice []]])) []
     = Some (Stopped (onError log_handlers e [''f'', ''error'', ''g'']))"
proof -
  let ?vs = "[GoSlice [GoInt 2, GoString ''f'', GoSlice []], GoNil, GoSlice [GoInt 2, GoString ''g'', GoSlice []]]"
  have w: "\<forall>v \<in> set ?vs. mp_wire v"
    by (simp add: mp.wire_slice mp.wire_string mp.wire_int)
  have "fold (\<lambda>v. deliver log_handlers (rpc_spec mp_codec mp_norm True v)) ?vs [] = [''f'', ''error'', ''g'']"
    by (simp add: deliver_def rpc_spec_def body_spec_def call_spec_def dispatch_def log_handlers_def
          empty_rpcPacket_def)
  with run_delivers_stream [OF mp.msgpack_format_axioms w lessI, of True log_handlers "[]"]
  show ?thesis by metis
qed

text \<open>
  C15. With a message size limit in force, sending is all or nothing: a message that fits is
  written completely, a larger one leaves the stream untouched and the sender gets
  \<open>ErrBufferLimitExceeded\<close> with the limit.
\<close>

theorem send_all_or_nothing:
  assumes "conn_inv c" and "msgpBuffer c = Some b" and "snd (Encode M (GoSlice data)) = None"
    and "\<not> out_closed (conn_out c)" and "capacity (conn_out c) = None"
  shows "if int (length (enc M (GoSlice data))) \<le> lb_limit b
         then fst (send M data c) = None \<and>
              sent (conn_out (snd (send M data c))) = sent (conn_out c) @ enc M (GoSlice data)
         else fst (send M data c) = Some (ErrBufferLimitExceeded (lb_limit b)) \<and>
              conn_out (snd (send M data c)) = conn_out c"
proof -
  from assms(1,2) have "lb_inv b" by (simp add: conn_inv_def)
  with assms show ?thesis
    by (simp add: send_limited Let_def stream_Write_unlimited)
qed

theorem send_all_or_nothing_witness:
  "\<exists>c. SetMaxOutgoingMessageSize 2 (NewConnection new_stream :: unit Connection) = Some c
     \<and> fst (send mp_codec [GoBool True] c) = None
     \<and> fst (send mp_codec [GoBool True, GoNil] c) = Some (ErrBufferLimitExceeded 2)
     \<and> sent (conn_out (snd (send mp_codec [GoBool True, GoNil] c))) = []"
proof -
  obtain b where b: "NewLimitedBuffer 2 = Some b"
    by (simp add: NewLimitedBuffer_def make_bytes_def maxAlloc_def)
  let ?c = "(NewConnection new_stream)\<lparr>msgpBuffer := Some b\<rparr> :: unit Connection"
  have c: "SetMaxOutgoingMessageSize 2 (NewConnection new_stream) = Some ?c"
    using b by (simp add: SetMaxOutgoingMessageSize_def)
  have inv: "conn_inv ?c" using conn_inv_SetMax [OF conn_inv_New c] .
  have lim: "lb_limit b = 2" using NewLimitedBuffer_fields [OF b] by simp
  have len: "length (enc mp_codec (GoSlice [GoBool True])) = 2"
    "length (enc mp_codec (GoSlice [GoBool True, GoNil])) = 3"
    by code_simp+
  have ok: "snd (Encode mp_codec (GoSlice vs)) = None" if "mp_wire (GoSlice vs)" for vs
    using that by (rule mp.encode_ok)
  have w: "mp_wire (GoSlice [GoBool True])" "mp_wire (GoSlice [GoBool True, GoNil])"
    by (simp_all add: mp.wire_slice mp.wire_bool)
  have fields: "msgpBuffer ?c = Some b" "conn_out ?c = new_stream"
    "\<not> out_closed (conn_out ?c)" "capacity (conn_out ?c) = None" "sent new_stream = []"
    by (simp_all add: NewConnection_def new_stream_def)
  have small: "int (length (enc mp_codec (GoSlice [GoBool True]))) \<le> lb_limit b"
    and big: "\<not> int (length (enc mp_codec (GoSlice [GoBool True, GoNil]))) \<le> lb_limit b"
    unfolding len lim by simp_all
  from send_all_or_nothing [OF inv fields(1) ok [OF w(1)] fields(3,4), unfolded if_P [OF small]]
    send_all_or_nothing [OF inv fields(1) ok [OF w(2)] fields(3,4), unfolded if_not_P [OF big]]
    c lim fields
  show ?thesis by (intro exI [of _ ?c]) simp
qed

text \<open>
  \<open>SetMaxOutgoingMessageSize\<close> with a size of zero or less does not lift the limit, as its
  comment says it does: a size of zero installs a limit of zero bytes, under which every
  message is refused, and a negative size panics.
\<close>

lemma set_max_nonpositive:
  "(case SetMaxOutgoingMessageSize 0 c of None \<Rightarrow> False
    | Some c' \<Rightarrow> map_option lb_limit (msgpBuffer c') = Some 0)
   \<and> SetMaxOutgoingMessageSize (- int (Suc n)) c = None"
  by (simp add: SetMaxOutgoingMessageSize_def NewLimitedBuffer_def make_bytes_def maxAlloc_def)

end
