(* ===== verification/Rpc_Session.thy ===== *)
theory Rpc_Session
  imports Rpc_Connection
begin

text \<open>
  Two connections talking to each other, and one connection used by several goroutines.

  The first part follows a message from \<open>send\<close> on one side to \<open>decodeRpcPacket\<close> on the other:
  request, response and notification arrive as they were sent, also when their fields are
  forwarded as raw bytes. The second part is a step relation on a connection in which a
  request is sent in the two atomic parts that \<open>sendRequest\<close> has (the update of the table of
  pending requests under \<open>activeOutRequestsMutex\<close>, the write under \<open>outMutex\<close>), interleaved
  with incoming responses and with everything else that is written to the connection.
\<close>

section \<open>Messages as the peer reads them\<close>

text \<open>
  A field of a message: the value itself or its wire bytes, which is what a connection
  that keeps its fields raw passes on.
\<close>

definition represents :: "msgpack \<Rightarrow> any \<Rightarrow> any \<Rightarrow> bool" where
  "represents M p v \<longleftrightarrow> p = v \<or> p = GoRawMessage (enc M v)"

definition request_packet :: "MessageID \<Rightarrow> string \<Rightarrow> any list \<Rightarrow> rpcPacket" where
  "request_packet mid method ps = empty_rpcPacket\<lparr>msgID := mid, pkt_method := method, params := ps\<rparr>"

definition response_packet :: "MessageID \<Rightarrow> any \<Rightarrow> any \<Rightarrow> rpcPacket" where
  "response_packet mid err result =
     empty_rpcPacket\<lparr>msgType := 1, msgID := mid, reqError := err, reqResult := result\<rparr>"

definition notification_packet :: "string \<Rightarrow> any list \<Rightarrow> rpcPacket" where
  "notification_packet method ps = empty_rpcPacket\<lparr>msgType := 2, pkt_method := method, params := ps\<rparr>"

context msgpack_format
begin

lemma wire_GoInt [simp]: "wire (GoInt w)" and wire_GoUint [simp]: "wire (GoUint w)"
  by (rule wire_int, simp)+

lemma represents_enc: "represents M p v \<Longrightarrow> enc M p = enc M v"
  by (auto simp: represents_def encode_raw)

lemma represents_slice: "list_all2 (represents M) ps vs \<Longrightarrow> enc M (GoSlice ps) = enc M (GoSlice vs)"
  by (rule encode_slice_cong) (induction rule: list_all2_induct, simp_all add: represents_enc)

lemma represents_encode_ok: "\<lbrakk> represents M p v; wire v \<rbrakk> \<Longrightarrow> snd (Encode M p) = None"
  by (auto simp: represents_def encode_raw encode_ok)

lemma represents_all_ok:
  "\<lbrakk> list_all2 (represents M) ps vs; \<forall>v \<in> set vs. wire v \<rbrakk> \<Longrightarrow> \<forall>p \<in> set ps. snd (Encode M p) = None"
  by (induction rule: list_all2_induct) (auto intro: represents_encode_ok)

lemma represents_slice_ok:
  assumes "list_all2 (represents M) ps vs" and "wire (GoSlice vs)"
  shows "snd (Encode M (GoSlice ps)) = None"
  using assms by (intro encode_slice_ok represents_all_ok [OF assms(1)]) 
    (simp_all add: wire_slice list_all2_lengthD)

lemma decode_represented:
  assumes "list_all2 (represents M) ps vs" and "wire (GoSlice vs)"
  shows "decodeRpcPacket M asRaw (enc M (GoSlice ps) @ r) = (rpc_spec M norm asRaw (GoSlice vs), r)"
  using decodeRpcPacket_enc [OF assms(2)] by (simp add: represents_slice [OF assms(1)])

lemma rpc_spec_request [simp]:
  "rpc_spec M norm asRaw (GoSlice (request_message mid method vs))
     = Packet (request_packet mid method (map (field_view M norm asRaw) vs))"
  by (simp add: rpc_spec_def request_message_def body_spec_def call_spec_def request_packet_def
        empty_rpcPacket_def)

lemma rpc_spec_response [simp]:
  "rpc_spec M norm asRaw (GoSlice (response_message mid err result))
     = Packet (response_packet mid (field_view M norm asRaw err) (field_view M norm asRaw result))"
  by (simp add: rpc_spec_def response_message_def body_spec_def response_packet_def)

lemma rpc_spec_notification [simp]:
  "rpc_spec M norm asRaw (GoSlice (notification_message method vs))
     = Packet (notification_packet method (map (field_view M norm asRaw) vs))"
  by (simp add: rpc_spec_def notification_message_def body_spec_def call_spec_def
        notification_packet_def)

lemma enc_request_represents:
  "list_all2 (represents M) ps vs \<Longrightarrow>
     enc M (GoSlice (request_message mid method ps)) = enc M (GoSlice (request_message mid method vs))"
  by (rule encode_slice_cong) (simp add: request_message_def represents_slice)

lemma enc_notification_represents:
  "list_all2 (represents M) ps vs \<Longrightarrow>
     enc M (GoSlice (notification_message method ps)) = enc M (GoSlice (notification_message method vs))"
  by (rule encode_slice_cong) (simp add: notification_message_def represents_slice)

lemma enc_response_represents:
  "\<lbrakk> represents M e ve; represents M res vres \<rbrakk> \<Longrightarrow>
     enc M (GoSlice (response_message mid e res)) = enc M (GoSlice (response_message mid ve vres))"
  by (rule encode_slice_cong) (simp add: response_message_def represents_enc)

text \<open>What the peer decodes from the bytes of each kind of message.\<close>

lemma decode_request:
  assumes "list_all2 (represents M) ps vs" and "wire (GoSlice vs)" and "length method < 2 ^ 32"
  shows "decodeRpcPacket M asRaw (enc M (GoSlice (request_message mid method ps)) @ r)
     = (Packet (request_packet mid method (map (field_view M norm asRaw) vs)), r)"
proof -
  have "wire (GoSlice (request_message mid method vs))"
    using assms(2,3) by (simp add: request_message_def wire_slice wire_string)
  from decodeRpcPacket_enc [OF this] assms(1) show ?thesis by (simp add: enc_request_represents)
qed

lemma decode_notification:
  assumes "list_all2 (represents M) ps vs" and "wire (GoSlice vs)" and "length method < 2 ^ 32"
  shows "decodeRpcPacket M asRaw (enc M (GoSlice (notification_message method ps)) @ r)
     = (Packet (notification_packet method (map (field_view M norm asRaw) vs)), r)"
proof -
  have "wire (GoSlice (notification_message method vs))"
    using assms(2,3) by (simp add: notification_message_def wire_slice wire_string)
  from decodeRpcPacket_enc [OF this] assms(1) show ?thesis by (simp add: enc_notification_represents)
qed

lemma decode_response_msg:
  assumes "represents M e ve" and "represents M res vres" and "wire ve" and "wire vres"
  shows "decodeRpcPacket M asRaw (enc M (GoSlice (response_message mid e res)) @ r)
     = (Packet (response_packet mid (field_view M norm asRaw ve) (field_view M norm asRaw vres)), r)"
proof -
  have "wire (GoSlice (response_message mid ve vres))"
    using assms(3,4) by (simp add: response_message_def wire_slice)
  from decodeRpcPacket_enc [OF this] assms(1,2) show ?thesis by (simp add: enc_response_represents)
qed

end

section \<open>A connection shared by several goroutines\<close>

text \<open>
  The two atomic parts of \<open>sendRequest\<close>: the ID is taken from the atomic counter and the
  request is entered into the table; then the message is written and, when that fails, the
  request is removed from the table again.
\<close>

definition reserveRequest :: "string \<Rightarrow> 'k \<Rightarrow> 'k Connection \<Rightarrow> MessageID \<times> 'k Connection" where
  "reserveRequest method res c =
     (let idx = lastOutRequestsIndex c + 1; mid = ucast idx in
      (mid, c\<lparr>lastOutRequestsIndex := idx,
              activeOutRequests := (activeOutRequests c)(mid \<mapsto> \<lparr>req_res = res, req_method = method\<rparr>)\<rparr>))"

definition transmitRequest ::
  "msgpack \<Rightarrow> MessageID \<Rightarrow> string \<Rightarrow> any list \<Rightarrow> 'k Connection \<Rightarrow> goerror option \<times> 'k Connection" where
  "transmitRequest M mid method ps c =
     (case send M (request_message mid method ps) c of
        (Some err, c') \<Rightarrow>
          (Some (Errorf_w ''sending request'' err),
           c'\<lparr>activeOutRequests := (activeOutRequests c')(mid := None)\<rparr>)
      | (None, c') \<Rightarrow> (None, c'))"

text \<open>Run one after the other they are \<open>sendRequest\<close>.\<close>

lemma sendRequest_parts:
  "sendRequest M method ps res c =
     (case reserveRequest method res c of
        (mid, c1) \<Rightarrow>
          (case transmitRequest M mid method ps c1 of
             (Some err, c2) \<Rightarrow> (Inl err, c2)
           | (None, c2) \<Rightarrow> (Inr mid, c2)))"
  by (simp add: sendRequest_def reserveRequest_def transmitRequest_def Let_def
        split: prod.split option.split)

text \<open>
  The connection with the history of its requests: those reserved and not yet written, all
  that were ever issued with their callbacks, the callbacks invoked so far, and the
  requests whose sending failed.
\<close>

record 'k session =
  se_conn :: "'k Connection"
  inflight :: "(MessageID \<times> string \<times> any list) set"
  issued :: "(MessageID \<times> 'k) list"
  invoked :: "(MessageID \<times> 'k) list"
  failed :: "MessageID list"

definition new_session :: "'k Connection \<Rightarrow> 'k session" where
  "new_session c = \<lparr>se_conn = c, inflight = {}, issued = [], invoked = [], failed = []\<rparr>"

inductive session_step :: "msgpack \<Rightarrow> 'k session \<Rightarrow> 'k session \<Rightarrow> bool" for M :: msgpack where
  reserve:
    "reserveRequest method k (se_conn s) = (mid, c) \<Longrightarrow>
     session_step M s (s\<lparr>se_conn := c, inflight := insert (mid, method, ps) (inflight s),
                         issued := issued s @ [(mid, k)]\<rparr>)"
| transmit:
    "\<lbrakk> (mid, method, ps) \<in> inflight s; transmitRequest M mid method ps (se_conn s) = (None, c) \<rbrakk> \<Longrightarrow>
     session_step M s (s\<lparr>se_conn := c, inflight := inflight s - {(mid, method, ps)}\<rparr>)"
| transmit_fail:
    "\<lbrakk> (mid, method, ps) \<in> inflight s; transmitRequest M mid method ps (se_conn s) = (Some err, c) \<rbrakk> \<Longrightarrow>
     session_step M s (s\<lparr>se_conn := c, inflight := inflight s - {(mid, method, ps)},
                         failed := failed s @ [mid]\<rparr>)"
| answer:
    "handleIncomingResponse mid (se_conn s) = (Inr k, c) \<Longrightarrow>
     session_step M s (s\<lparr>se_conn := c, invoked := invoked s @ [(mid, k)]\<rparr>)"
| stray_answer:
    "handleIncomingResponse mid (se_conn s) = (Inl err, c) \<Longrightarrow>
     session_step M s (s\<lparr>se_conn := c\<rparr>)"
| notify:
    "SendNotification M method ps (se_conn s) = (e, c) \<Longrightarrow> session_step M s (s\<lparr>se_conn := c\<rparr>)"
| respond:
    "sendResponse M mid result err (se_conn s) = (e, c) \<Longrightarrow> session_step M s (s\<lparr>se_conn := c\<rparr>)"
| set_max:
    "SetMaxOutgoingMessageSize n (se_conn s) = Some c \<Longrightarrow> session_step M s (s\<lparr>se_conn := c\<rparr>)"
| close:
    "session_step M s (s\<lparr>se_conn := Close (se_conn s)\<rparr>)"

inductive session_reachable :: "msgpack \<Rightarrow> 'k session \<Rightarrow> bool" for M :: msgpack where
  start: "session_reachable M (new_session (SetKeepParamsAndResponsesAsRaw b (NewConnection out)))"
| step: "\<lbrakk> session_reachable M s; session_step M s s' \<rbrakk> \<Longrightarrow> session_reachable M s'"

section \<open>The invariant of a shared connection\<close>

text \<open>The operations that leave the table of pending requests alone.\<close>

definition same_requests :: "'k Connection \<Rightarrow> 'k Connection \<Rightarrow> bool" where
  "same_requests c c' \<longleftrightarrow>
     activeOutRequests c' = activeOutRequests c \<and> lastOutRequestsIndex c' = lastOutRequestsIndex c"

lemma same_requests_send: "send M data c = (e, c') \<Longrightarrow> same_requests c c'"
  by (simp add: same_requests_def send_frame)

lemma same_requests_SendNotification: "SendNotification M method ps c = (e, c') \<Longrightarrow> same_requests c c'"
  by (auto simp: SendNotification_def split: prod.splits option.splits dest: same_requests_send)

lemma same_requests_sendResponse: "sendResponse M mid result err c = (e, c') \<Longrightarrow> same_requests c c'"
  by (auto simp: sendResponse_def dest: same_requests_send)

lemma same_requests_SetMax: "SetMaxOutgoingMessageSize n c = Some c' \<Longrightarrow> same_requests c c'"
  by (auto simp: SetMaxOutgoingMessageSize_def same_requests_def Let_def split: option.splits if_splits)

lemma same_requests_Close: "same_requests c (Close c)"
  by (simp add: same_requests_def Close_def)

lemma same_requests_stray: "handleIncomingResponse mid c = (Inl err, c') \<Longrightarrow> same_requests c c'"
  by (auto simp: handleIncomingResponse_def same_requests_def split: option.splits)

lemma same_requests_transmit: "transmitRequest M mid method ps c = (None, c') \<Longrightarrow> same_requests c c'"
  by (auto simp: transmitRequest_def split: prod.splits option.splits dest: same_requests_send)

lemma transmit_fail_requests:
  "transmitRequest M mid method ps c = (Some err, c') \<Longrightarrow>
     activeOutRequests c' = (activeOutRequests c)(mid := None)
     \<and> lastOutRequestsIndex c' = lastOutRequestsIndex c"
  by (auto simp: transmitRequest_def split: prod.splits option.splits
       dest!: same_requests_send simp: same_requests_def)

lemmas same_requests_intros =
  same_requests_SendNotification same_requests_sendResponse same_requests_SetMax
  same_requests_Close same_requests_stray same_requests_transmit

text \<open>The ID of the \<open>i\<close>-th request.\<close>

definition nth_id :: "nat \<Rightarrow> MessageID" where
  "nth_id i = ucast (of_nat (Suc i) :: 32 word)"

lemma unat_nth_id: "unat (nth_id i) = Suc i mod 2 ^ 32"
  by (simp add: nth_id_def unsigned_ucast_eq unsigned_of_nat take_bit_eq_mod mod_mod_cancel
        del: of_nat_Suc)

lemma nth_id_inject:
  assumes "i < 2 ^ 32" and "j < 2 ^ 32" and "nth_id i = nth_id j"
  shows "i = j"
proof -
  from assms(3) have "Suc i mod 2 ^ 32 = Suc j mod 2 ^ 32" by (metis unat_nth_id)
  with assms(1,2) show ?thesis
    by (cases "Suc i = 2 ^ 32"; cases "Suc j = 2 ^ 32") simp_all
qed

text \<open>
  The IDs are handed out in order; and as long as the counter has not wrapped around, every
  entry of the table belongs to an issued request, no callback was invoked twice, an
  invoked callback is no longer in the table, and a request that is neither pending nor
  answered is one whose sending failed.
\<close>

definition requests_ok :: "'k session \<Rightarrow> bool" where
  "requests_ok s \<longleftrightarrow>
     (\<forall>mid req. activeOutRequests (se_conn s) mid = Some req \<longrightarrow> (mid, req_res req) \<in> set (issued s)) \<and>
     set (invoked s) \<subseteq> set (issued s) \<and>
     distinct (map fst (invoked s)) \<and>
     (\<forall>mid k. (mid, k) \<in> set (invoked s) \<longrightarrow> activeOutRequests (se_conn s) mid = None) \<and>
     (\<forall>mid k. (mid, k) \<in> set (issued s) \<longrightarrow> activeOutRequests (se_conn s) mid \<noteq> None
        \<or> (mid, k) \<in> set (invoked s) \<or> mid \<in> set (failed s))"

definition session_inv :: "'k session \<Rightarrow> bool" where
  "session_inv s \<longleftrightarrow>
     map fst (issued s) = map nth_id [0..<length (issued s)] \<and>
     lastOutRequestsIndex (se_conn s) = of_nat (length (issued s)) \<and>
     (length (issued s) \<le> 2 ^ 32 \<longrightarrow> requests_ok s)"

lemma issued_distinct:
  assumes "map fst (issued s) = map nth_id [0..<length (issued s)]" and "length (issued s) \<le> 2 ^ 32"
  shows "distinct (map fst (issued s))"
  unfolding assms(1) using assms(2) by (auto simp: distinct_map inj_on_def intro: nth_id_inject)

lemma issued_fresh:
  assumes "map fst (issued s) = map nth_id [0..<length (issued s)]" and "length (issued s) < 2 ^ 32"
  shows "(nth_id (length (issued s)), k) \<notin> set (issued s)"
proof
  assume "(nth_id (length (issued s)), k) \<in> set (issued s)"
  then have "nth_id (length (issued s)) \<in> set (map fst (issued s))" by force
  then obtain i where "i < length (issued s)" "nth_id (length (issued s)) = nth_id i"
    unfolding assms(1) by auto
  with assms(2) nth_id_inject [of i "length (issued s)"] show False by simp
qed

lemma session_inv_same:
  assumes "session_inv s" and "same_requests (se_conn s) c"
  shows "session_inv (s\<lparr>se_conn := c\<rparr>)" and "session_inv (s\<lparr>se_conn := c, inflight := X\<rparr>)"
  using assms by (simp_all add: session_inv_def requests_ok_def same_requests_def)

lemma session_inv_reserve:
  assumes inv: "session_inv s" and r: "reserveRequest method k (se_conn s) = (mid, c)"
  shows "session_inv (s\<lparr>se_conn := c, inflight := X, issued := issued s @ [(mid, k)]\<rparr>)"
proof -
  let ?n = "length (issued s)"
  have ids: "map fst (issued s) = map nth_id [0..<?n]"
    and idx: "lastOutRequestsIndex (se_conn s) = of_nat ?n"
    using inv by (auto simp: session_inv_def)
  have mid: "mid = nth_id ?n"
    and c: "activeOutRequests c =
        (activeOutRequests (se_conn s))(mid \<mapsto> \<lparr>req_res = k, req_method = method\<rparr>)"
      "lastOutRequestsIndex c = of_nat (Suc ?n)"
    using r idx by (auto simp: reserveRequest_def Let_def nth_id_def add.commute)
  have "requests_ok (s\<lparr>se_conn := c, inflight := X, issued := issued s @ [(mid, k)]\<rparr>)"
    if "Suc ?n \<le> 2 ^ 32"
  proof -
    have ok: "requests_ok s" using inv that by (simp add: session_inv_def)
    moreover have "\<And>k'. (mid, k') \<notin> set (issued s)"
      using issued_fresh [OF ids] that mid by simp
    ultimately show ?thesis
      using c(1) unfolding requests_ok_def by (auto split: if_splits)
  qed
  with ids mid c(2) show ?thesis by (simp add: session_inv_def)
qed

lemma session_inv_fail:
  assumes "session_inv s" and "transmitRequest M mid method ps (se_conn s) = (Some err, c)"
  shows "session_inv (s\<lparr>se_conn := c, inflight := X, failed := failed s @ [mid]\<rparr>)"
  using assms(1) transmit_fail_requests [OF assms(2)]
  unfolding session_inv_def requests_ok_def by auto

lemma session_inv_answer:
  assumes "session_inv s" and "handleIncomingResponse mid (se_conn s) = (Inr k, c)"
  shows "session_inv (s\<lparr>se_conn := c, invoked := invoked s @ [(mid, k)]\<rparr>)"
proof -
  from assms(2) obtain req where
    a: "activeOutRequests (se_conn s) mid = Some req" "k = req_res req"
      "activeOutRequests c = (activeOutRequests (se_conn s))(mid := None)"
      "lastOutRequestsIndex c = lastOutRequestsIndex (se_conn s)"
    by (auto simp: handleIncomingResponse_def split: option.splits)
  show ?thesis
  proof (cases "length (issued s) \<le> 2 ^ 32")
    case True
    with assms(1) have ok: "requests_ok s"
      and ids: "map fst (issued s) = map nth_id [0..<length (issued s)]"
      by (auto simp: session_inv_def)
    have "\<forall>k'. (mid, k') \<in> set (issued s) \<longrightarrow> k' = k"
      using issued_distinct [OF ids True] ok a unfolding requests_ok_def
      by (blast intro: eq_key_imp_eq_value)
    moreover have "mid \<notin> fst ` set (invoked s)"
      using ok a(1) unfolding requests_ok_def by force
    ultimately have "requests_ok (s\<lparr>se_conn := c, invoked := invoked s @ [(mid, k)]\<rparr>)"
      using ok a unfolding requests_ok_def by auto
    with assms(1) a show ?thesis by (simp add: session_inv_def)
  next
    case False
    with assms(1) a show ?thesis by (simp add: session_inv_def)
  qed
qed

lemma session_step_inv: "\<lbrakk> session_step M s s'; session_inv s \<rbrakk> \<Longrightarrow> session_inv s'"
  by (induction rule: session_step.induct)
     (blast intro: session_inv_same session_inv_reserve session_inv_fail session_inv_answer
        same_requests_intros)+

lemma session_reachable_inv: "session_reachable M s \<Longrightarrow> session_inv s"
proof (induction rule: session_reachable.induct)
  case (start b out)
  show ?case
    by (simp add: session_inv_def requests_ok_def new_session_def SetKeepParamsAndResponsesAsRaw_def
          NewConnection_def)
qed (rule session_step_inv)

section \<open>Properties\<close>

lemma sendRequest_ok:
  assumes "conn_inv c" and "sendRequest M method ps k c = (Inr mid, c')"
  shows "sent (conn_out c') = sent (conn_out c) @ enc M (GoSlice (request_message mid method ps))"
    and "activeOutRequests c' = (activeOutRequests c)(mid \<mapsto> \<lparr>req_res = k, req_method = method\<rparr>)"
    and "mid = ucast (lastOutRequestsIndex c + 1)"
proof -
  let ?idx = "lastOutRequestsIndex c + 1"
  let ?c1 = "c\<lparr>lastOutRequestsIndex := ?idx, activeOutRequests :=
     (activeOutRequests c)(ucast ?idx \<mapsto> \<lparr>req_res = k, req_method = method\<rparr>)\<rparr>"
  have s: "send M (request_message mid method ps) ?c1 = (None, c')" and m: "mid = ucast ?idx"
    using assms(2) by (auto simp: sendRequest_def Let_def split: prod.splits option.splits)
  have inv: "conn_inv ?c1" using assms(1) unat_ucast_32 [of ?idx] by (auto simp: conn_inv_def)
  show "sent (conn_out c') = sent (conn_out c) @ enc M (GoSlice (request_message mid method ps))"
    using send_ok_appends [OF inv s] by simp
  show "activeOutRequests c' = (activeOutRequests c)(mid \<mapsto> \<lparr>req_res = k, req_method = method\<rparr>)"
    using send_frame(1) [OF s] m by simp
  show "mid = ucast ?idx" by (rule m)
qed

text \<open>
  A request that was sent without error reaches the peer: the stream is extended by
  bytes from which the peer decodes a request with the same ID, the same method and the same
  parameters, whether the sender passed the parameters as values or as raw wire bytes; and
  the sender holds the callback under that ID.
\<close>

lemma request_reaches_peer:
  assumes "msgpack_format M norm wire" and "conn_inv c"
    and "list_all2 (represents M) ps vs" and "wire (GoSlice vs)" and "length method < 2 ^ 32"
    and "sendRequest M method ps k c = (Inr mid, c')"
  shows "\<exists>new. sent (conn_out c') = sent (conn_out c) @ new
     \<and> decodeRpcPacket M asRaw (new @ rest)
         = (Packet (request_packet mid method (map (field_view M norm asRaw) vs)), rest)
     \<and> activeOutRequests c' mid = Some \<lparr>req_res = k, req_method = method\<rparr>"
  using sendRequest_ok [OF assms(2,6)] msgpack_format.decode_request [OF assms(1,3,4,5)]
  by (metis fun_upd_same)

text \<open>
  A response that was sent without error reaches the caller: the peer decodes a response
  with the same ID, error and result. If the peer has a request pending under that ID, the
  response invokes the callback of that request and removes it, so that a second response
  with the same ID is refused as a double answer.
\<close>

lemma response_reaches_caller:
  assumes "msgpack_format M norm wire" and "conn_inv c"
    and "represents M err verr" and "represents M result vresult" and "wire verr" and "wire vresult"
    and "sendResponse M mid result err c = (None, c')"
    and "activeOutRequests caller mid = Some req"
  shows "\<exists>new caller'. sent (conn_out c') = sent (conn_out c) @ new
     \<and> decodeRpcPacket M asRaw (new @ rest)
         = (Packet (response_packet mid (field_view M norm asRaw verr) (field_view M norm asRaw vresult)), rest)
     \<and> handleIncomingResponse mid caller = (Inr (req_res req), caller')
     \<and> (\<exists>e. handleIncomingResponse mid caller' = (Inl e, caller'))"
proof -
  from assms(7) have "send M (response_message mid err result) c = (None, c')"
    by (simp add: sendResponse_def)
  from send_ok_appends [OF assms(2) this]
    msgpack_format.decode_response_msg [OF assms(1,3,4,5,6), of asRaw mid rest] assms(8)
  show ?thesis by (auto simp: handleIncomingResponse_def)
qed

text \<open>
  C14. However requests, their transmission, responses (also unsolicited or duplicate ones) and
  other traffic are interleaved on a connection, as long as at most \<open>2 ^ 32\<close> requests were
  issued on it: the IDs are distinct; no callback is invoked twice; a callback is only
  invoked for the request that registered it; and a request that is neither pending nor
  answered is one whose sending failed.
\<close>

theorem requests_answered_at_most_once:
  assumes "session_reachable M s" and "length (issued s) \<le> 2 ^ 32"
  shows "distinct (map fst (issued s))
     \<and> distinct (map fst (invoked s))
     \<and> set (invoked s) \<subseteq> set (issued s)
     \<and> (\<forall>mid k. (mid, k) \<in> set (issued s) \<longrightarrow>
          (\<exists>req. activeOutRequests (se_conn s) mid = Some req)
          \<or> (mid, k) \<in> set (invoked s) \<or> mid \<in> set (failed s))"
proof -
  have inv: "session_inv s" by (rule session_reachable_inv [OF assms(1)])
  then have "map fst (issued s) = map nth_id [0..<length (issued s)]" by (simp add: session_inv_def)
  then have "distinct (map fst (issued s))" using assms(2) by (rule issued_distinct)
  moreover have "requests_ok s" using inv assms(2) by (simp add: session_inv_def)
  ultimately show ?thesis unfolding requests_ok_def by blast
qed

theorem requests_answered_at_most_once_witness:
  "\<exists>s. session_reachable mp_codec s \<and> issued s = [(1, 7 :: nat)] \<and> distinct (map fst (issued s))
     \<and> (\<exists>req. activeOutRequests (se_conn s) 1 = Some req)"
proof -
  let ?c = "SetKeepParamsAndResponsesAsRaw True (NewConnection new_stream) :: nat Connection"
  obtain c' where r: "reserveRequest ''f'' 7 ?c = (1, c')"
    by (simp add: reserveRequest_def NewConnection_def SetKeepParamsAndResponsesAsRaw_def)
  let ?s = "(new_session ?c)\<lparr>se_conn := c', inflight := insert (1, ''f'', []) (inflight (new_session ?c)),
      issued := issued (new_session ?c) @ [(1, 7)]\<rparr>"
  have "session_step mp_codec (new_session ?c) ?s"
    by (rule session_step.reserve) (use r in \<open>simp add: new_session_def\<close>)
  then have reach: "session_reachable mp_codec ?s"
    using session_reachable.start session_reachable.step by blast
  from requests_answered_at_most_once [OF reach] reach show ?thesis
    by (intro exI [of _ ?s]) (simp add: new_session_def)
qed

end
