(* ===== verification/Router.thy ===== *)
theory Router
  imports Rpc_Session
begin

text \<open>
  \<open>internal/msgpackrouter\<close>: the routing table, the error codes and the request, notification
  and response handling of \<open>connectionLoop\<close>.

  A connection is identified by a number (the Go pointer); the heap of connection objects is
  the map \<open>conns\<close>. A response callback is always the closure \<open>fwdRes\<close> of some request, so it
  is represented by what it captures: the connection and the ID to answer. Internal methods
  are functions on the state of the rest of the program, a type parameter here.
\<close>

section \<open>Error codes\<close>

abbreviation (input) ErrCodeInvalidParams :: "8 word" where "ErrCodeInvalidParams \<equiv> 1"
abbreviation (input) ErrCodeMethodNotAvailable :: "8 word" where "ErrCodeMethodNotAvailable \<equiv> 2"
abbreviation (input) ErrCodeFailedToSendRequests :: "8 word" where "ErrCodeFailedToSendRequests \<equiv> 3"
abbreviation (input) ErrCodeGenericError :: "8 word" where "ErrCodeGenericError \<equiv> 4"
abbreviation (input) ErrCodeRouteAlreadyExists :: "64 word" where "ErrCodeRouteAlreadyExists \<equiv> 5"
abbreviation (input) ErrCodeBufferLimitExceeded :: "8 word" where "ErrCodeBufferLimitExceeded \<equiv> 6"

record RouteError =
  re_message :: string
  re_code :: "64 word"

definition ToEncodedError :: "RouteError \<Rightarrow> any" where
  "ToEncodedError e = GoSlice [GoInt (re_code e), GoString (re_message e)]"

definition newRouteAlreadyExistsError :: "string \<Rightarrow> RouteError" where
  "newRouteAlreadyExistsError route =
     \<lparr>re_message = ''route already exists: '' @ route, re_code = ErrCodeRouteAlreadyExists\<rparr>"

definition routerError :: "8 word \<Rightarrow> string \<Rightarrow> any" where
  "routerError code message = GoSlice [GoInt8 code, GoString message]"

section \<open>The router and its surroundings\<close>

type_synonym conn_id = nat
type_synonym reply = "conn_id \<times> MessageID"

text \<open>
  What an internal method does: it answers once, through the response handler it is given,
  or it panics, which ends the process, or it never returns.
\<close>

datatype handler_result = Respond any any | Panic | Hang

type_synonym 's RouterRequestHandler = "conn_id \<Rightarrow> any list \<Rightarrow> 's \<Rightarrow> handler_result \<times> 's"

record 's Router =
  routes :: "string \<rightharpoonup> conn_id"
  routesInternal :: "string \<rightharpoonup> 's RouterRequestHandler"

record 's world =
  router :: "'s Router"
  conns :: "conn_id \<rightharpoonup> reply Connection"
  app :: 's

text \<open>
  The effect of a message: a new state, the end of the process, or a goroutine that never
  returns from the handler of the message.
\<close>

datatype 'w outcome = Running 'w | Crashed | Hung

definition New :: "'s Router" where
  "New = \<lparr>routes = Map.empty, routesInternal = Map.empty\<rparr>"

section \<open>The routing table\<close>

definition RegisterMethod ::
  "string \<Rightarrow> 's RouterRequestHandler \<Rightarrow> 's Router \<Rightarrow> RouteError option \<times> 's Router" where
  "RegisterMethod method handler r =
     (if routesInternal r method \<noteq> None then (Some (newRouteAlreadyExistsError method), r)
      else (None, r\<lparr>routesInternal := (routesInternal r)(method \<mapsto> handler)\<rparr>))"

definition registerMethod :: "string \<Rightarrow> conn_id \<Rightarrow> 's Router \<Rightarrow> RouteError option \<times> 's Router" where
  "registerMethod method conn r =
     (case routes r method of
        Some owner \<Rightarrow>
          if owner = conn then (None, r) else (Some (newRouteAlreadyExistsError method), r)
      | None \<Rightarrow> (None, r\<lparr>routes := (routes r)(method \<mapsto> conn)\<rparr>))"

definition removeSingleMethodFromConnection :: "string \<Rightarrow> conn_id \<Rightarrow> 's Router \<Rightarrow> bool \<times> 's Router" where
  "removeSingleMethodFromConnection method conn r =
     (case routes r method of
        None \<Rightarrow> (False, r)
      | Some owner \<Rightarrow>
          if owner \<noteq> conn then (False, r)
          else (True, r\<lparr>routes := (routes r)(method := None)\<rparr>))"

definition removeMethodsFromConnection :: "conn_id \<Rightarrow> 's Router \<Rightarrow> 's Router" where
  "removeMethodsFromConnection conn r =
     r\<lparr>routes := (\<lambda>k. if routes r k = Some conn then None else routes r k)\<rparr>"

definition getConnectionForMethod :: "string \<Rightarrow> 's Router \<Rightarrow> conn_id option" where
  "getConnectionForMethod method r = routes r method"

section \<open>Parameters\<close>

text \<open>\<open>rawParams\<close>, with the cache of the decoded parameters.\<close>

record rawParams =
  rp_raw :: "any list"
  rp_decoded :: "any list option"

definition decode_param :: "msgpack \<Rightarrow> any \<Rightarrow> any" where
  "decode_param M p = (case p of GoRawMessage raw \<Rightarrow> fst (Unmarshal M raw) | _ \<Rightarrow> p)"

definition rawParams_Get :: "msgpack \<Rightarrow> rawParams \<Rightarrow> any list \<times> rawParams" where
  "rawParams_Get M r =
     (if rp_raw r = [] then (rp_raw r, r)
      else case rp_decoded r of
        Some d \<Rightarrow> (d, r)
      | None \<Rightarrow> (let d = map (decode_param M) (rp_raw r) in (d, r\<lparr>rp_decoded := Some d\<rparr>)))"

text \<open>The parameters of a request as the handlers see them: \<open>Get\<close> on a fresh \<open>rawParams\<close>.\<close>

definition decoded_params :: "msgpack \<Rightarrow> any list \<Rightarrow> any list" where
  "decoded_params M raw = fst (rawParams_Get M \<lparr>rp_raw = raw, rp_decoded = None\<rparr>)"

section \<open>Operations on one connection of the heap\<close>

definition on_conn ::
  "conn_id \<Rightarrow> (reply Connection \<Rightarrow> goerror option \<times> reply Connection) \<Rightarrow> 's world \<Rightarrow> goerror option \<times> 's world" where
  "on_conn cid f w =
     (case conns w cid of
        None \<Rightarrow> (None, w)
      | Some c \<Rightarrow> (case f c of (e, c') \<Rightarrow> (e, w\<lparr>conns := (conns w)(cid \<mapsto> c')\<rparr>)))"

section \<open>Responses\<close>

text \<open>The closure \<open>fwdRes\<close>: \<open>res\<close> is the response sender of the request it belongs to.\<close>

definition too_large :: any where
  "too_large = routerError ErrCodeBufferLimitExceeded ''message size exceeds the limit''"

definition fwdRes :: "msgpack \<Rightarrow> reply \<Rightarrow> any \<Rightarrow> any \<Rightarrow> 's world \<Rightarrow> 's world" where
  "fwdRes M caller rslt rerr w =
     (let res = (\<lambda>result err. on_conn (fst caller) (sendResponse M (snd caller) result err)) in
      case res rslt rerr w of
        (None, w1) \<Rightarrow> w1
      | (Some err, w1) \<Rightarrow>
          if Is_ErrBufferLimitExceeded err then snd (res GoNil too_large w1) else w1)"

section \<open>The built-in methods\<close>

definition only_one_param :: "any list \<Rightarrow> any" where
  "only_one_param ps = routerError ErrCodeInvalidParams
     (''invalid params: only one param is expected, got '' @ show_nat (length ps))"

definition builtin_register :: "any list \<Rightarrow> conn_id \<Rightarrow> 's world \<Rightarrow> (any \<times> any) \<times> 's world" where
  "builtin_register ps cid w =
     (if length ps \<noteq> 1 then ((GoNil, only_one_param ps), w)
      else case as_string (ps ! 0) of
        None \<Rightarrow> ((GoNil, routerError ErrCodeInvalidParams
                   (''invalid params: expected string, got '' @ type_name (ps ! 0))), w)
      | Some methodToRegister \<Rightarrow>
          (case registerMethod methodToRegister cid (router w) of
             (Some rae, r) \<Rightarrow> ((GoNil, ToEncodedError rae), w\<lparr>router := r\<rparr>)
           | (None, r) \<Rightarrow> ((GoBool True, GoNil), w\<lparr>router := r\<rparr>)))"

definition builtin_unregister :: "any list \<Rightarrow> conn_id \<Rightarrow> 's world \<Rightarrow> (any \<times> any) \<times> 's world" where
  "builtin_unregister ps cid w =
     (if length ps \<noteq> 1 then ((GoNil, only_one_param ps), w)
      else case as_string (ps ! 0) of
        None \<Rightarrow> ((GoNil, routerError ErrCodeInvalidParams
                   (''invalid params: expected string, got '' @ type_name (ps ! 0))), w)
      | Some methodToUnregister \<Rightarrow>
          (case removeSingleMethodFromConnection methodToUnregister cid (router w) of
             (False, r) \<Rightarrow> ((GoNil, routerError ErrCodeGenericError
                 (''route not registered by this client: '' @ methodToUnregister)), w\<lparr>router := r\<rparr>)
           | (True, r) \<Rightarrow> ((GoBool True, GoNil), w\<lparr>router := r\<rparr>)))"

definition builtin_reset :: "any list \<Rightarrow> conn_id \<Rightarrow> 's world \<Rightarrow> (any \<times> any) \<times> 's world" where
  "builtin_reset ps cid w =
     (if length ps \<noteq> 0
      then ((GoNil, routerError ErrCodeInvalidParams ''invalid params: no params are expected''), w)
      else ((GoBool True, GoNil), w\<lparr>router := removeMethodsFromConnection cid (router w)\<rparr>))"

text \<open>
  \<open>$/setMaxMsgSize\<close>: the size to set, or the error to report. The request and the notification
  form of the method share the checks.
\<close>

definition checkMaxMsgSize :: "any list \<Rightarrow> any + int" where
  "checkMaxMsgSize ps =
     (if length ps \<noteq> 1 then Inl (only_one_param ps)
      else case ToInt (ps ! 0) of
        None \<Rightarrow> Inl (routerError ErrCodeInvalidParams
                   (''invalid params: expected int, got '' @ type_name (ps ! 0)))
      | Some maxBuffSize \<Rightarrow>
          if sint maxBuffSize \<le> 127
          then Inl (routerError ErrCodeInvalidParams
                 ''invalid params: max buffer size must be greater than 127'')
          else Inr (sint maxBuffSize))"

definition setMaxMsgSize :: "conn_id \<Rightarrow> int \<Rightarrow> 's world \<Rightarrow> 's world outcome" where
  "setMaxMsgSize cid n w =
     (case conns w cid of
        None \<Rightarrow> Running w
      | Some c \<Rightarrow>
          (case SetMaxOutgoingMessageSize n c of
             None \<Rightarrow> Crashed
           | Some c' \<Rightarrow> Running (w\<lparr>conns := (conns w)(cid \<mapsto> c')\<rparr>)))"

definition builtin_setMaxMsgSize ::
  "any list \<Rightarrow> conn_id \<Rightarrow> 's world \<Rightarrow> ((any \<times> any) \<times> 's world) outcome" where
  "builtin_setMaxMsgSize ps cid w =
     (case checkMaxMsgSize ps of
        Inl err \<Rightarrow> Running ((GoNil, err), w)
      | Inr n \<Rightarrow>
          (case setMaxMsgSize cid n w of
             Crashed \<Rightarrow> Crashed
           | Hung \<Rightarrow> Hung
           | Running w' \<Rightarrow> Running ((GoBool True, GoNil), w')))"

definition run_builtin ::
  "string \<Rightarrow> any list \<Rightarrow> conn_id \<Rightarrow> 's world \<Rightarrow> ((any \<times> any) \<times> 's world) outcome option" where
  "run_builtin method ps cid w =
     (if method = ''$/register'' then Some (Running (builtin_register ps cid w))
      else if method = ''$/unregister'' then Some (Running (builtin_unregister ps cid w))
      else if method = ''$/reset'' then Some (Running (builtin_reset ps cid w))
      else if method = ''$/setMaxMsgSize'' then Some (builtin_setMaxMsgSize ps cid w)
      else None)"

section \<open>Requests and notifications\<close>

text \<open>What follows the lookup of the client that serves a method.\<close>

definition forwardRequest ::
  "msgpack \<Rightarrow> conn_id \<Rightarrow> reply \<Rightarrow> string \<Rightarrow> any list \<Rightarrow> 's world \<Rightarrow> 's world" where
  "forwardRequest M client caller method raw w =
     (case on_conn client (SendRequestWithAsyncResult M caller method raw) w of
        (None, w1) \<Rightarrow> w1
      | (Some err, w1) \<Rightarrow>
          if Is_ErrBufferLimitExceeded err then fwdRes M caller GoNil too_large w1
          else fwdRes M caller GoNil
                 (routerError ErrCodeFailedToSendRequests (''failed to send request: '' @ Error err)) w1)"

definition routeRequest :: "msgpack \<Rightarrow> reply \<Rightarrow> string \<Rightarrow> any list \<Rightarrow> 's world \<Rightarrow> 's world" where
  "routeRequest M caller method raw w =
     (case getConnectionForMethod method (router w) of
        None \<Rightarrow> fwdRes M caller GoNil
          (routerError ErrCodeMethodNotAvailable (''method '' @ method @ '' not available'')) w
      | Some client \<Rightarrow> forwardRequest M client caller method raw w)"

definition call_internal ::
  "'s RouterRequestHandler \<Rightarrow> conn_id \<Rightarrow> any list \<Rightarrow> 's world \<Rightarrow> ((any \<times> any) \<times> 's world) outcome" where
  "call_internal handler cid ps w =
     (case handler cid ps (app w) of
        (Panic, s) \<Rightarrow> Crashed
      | (Hang, s) \<Rightarrow> Hung
      | (Respond result err, s) \<Rightarrow> Running ((result, err), w\<lparr>app := s\<rparr>))"

definition answer ::
  "msgpack \<Rightarrow> reply \<Rightarrow> ((any \<times> any) \<times> 's world) outcome \<Rightarrow> 's world outcome" where
  "answer M caller r =
     (case r of
        Crashed \<Rightarrow> Crashed
      | Hung \<Rightarrow> Hung
      | Running ((result, err), w) \<Rightarrow> Running (fwdRes M caller result err w))"

definition handleRequest ::
  "msgpack \<Rightarrow> conn_id \<Rightarrow> MessageID \<Rightarrow> string \<Rightarrow> any list \<Rightarrow> 's world \<Rightarrow> 's world outcome" where
  "handleRequest M cid mid method raw w =
     (case run_builtin method (decoded_params M raw) cid w of
        Some r \<Rightarrow> answer M (cid, mid) r
      | None \<Rightarrow>
          (case routesInternal (router w) method of
             Some handler \<Rightarrow> answer M (cid, mid) (call_internal handler cid (decoded_params M raw) w)
           | None \<Rightarrow> Running (routeRequest M (cid, mid) method raw w)))"

definition forwardNotification :: "msgpack \<Rightarrow> conn_id \<Rightarrow> string \<Rightarrow> any list \<Rightarrow> 's world \<Rightarrow> 's world" where
  "forwardNotification M client method raw w = snd (on_conn client (SendNotification M method raw) w)"

definition handleNotification ::
  "msgpack \<Rightarrow> conn_id \<Rightarrow> string \<Rightarrow> any list \<Rightarrow> 's world \<Rightarrow> 's world outcome" where
  "handleNotification M cid method raw w =
     (if method = ''$/setMaxMsgSize'' then
        (case checkMaxMsgSize (decoded_params M raw) of
           Inl _ \<Rightarrow> Running w
         | Inr n \<Rightarrow> setMaxMsgSize cid n w)
      else
        (case routesInternal (router w) method of
           Some handler \<Rightarrow>
             (case call_internal handler cid (decoded_params M raw) w of
                Crashed \<Rightarrow> Crashed
              | Hung \<Rightarrow> Hung
              | Running (_, w') \<Rightarrow> Running w')
         | None \<Rightarrow>
             (case getConnectionForMethod method (router w) of
                None \<Rightarrow> Running w
              | Some client \<Rightarrow> Running (forwardNotification M client method raw w))))"

text \<open>\<open>handleIncomingResponse\<close> of a connection of the router; its error handler only logs.\<close>

definition handleResponse ::
  "msgpack \<Rightarrow> conn_id \<Rightarrow> MessageID \<Rightarrow> any \<Rightarrow> any \<Rightarrow> 's world \<Rightarrow> 's world" where
  "handleResponse M cid mid rerr rslt w =
     (case conns w cid of
        None \<Rightarrow> w
      | Some c \<Rightarrow>
          (case handleIncomingResponse mid c of
             (Inl err, c') \<Rightarrow> w\<lparr>conns := (conns w)(cid \<mapsto> c')\<rparr>
           | (Inr caller, c') \<Rightarrow>
               fwdRes M caller rslt rerr (w\<lparr>conns := (conns w)(cid \<mapsto> c')\<rparr>)))"

section \<open>The connection loop\<close>

definition router_handlers :: "msgpack \<Rightarrow> conn_id \<Rightarrow> 's world outcome rpc_handlers" where
  "router_handlers M cid =
     \<lparr>onRequest = (\<lambda>mid method raw r. case r of Crashed \<Rightarrow> Crashed | Hung \<Rightarrow> Hung
                      | Running w \<Rightarrow> handleRequest M cid mid method raw w),
      onResponse = (\<lambda>mid err result r. case r of Crashed \<Rightarrow> Crashed | Hung \<Rightarrow> Hung
                      | Running w \<Rightarrow> Running (handleResponse M cid mid err result w)),
      onNotification = (\<lambda>method raw r. case r of Crashed \<Rightarrow> Crashed | Hung \<Rightarrow> Hung
                      | Running w \<Rightarrow> handleNotification M cid method raw w),
      onError = (\<lambda>e r. r)\<rparr>"

text \<open>The start of \<open>connectionLoop\<close>: a new connection object that keeps its fields raw.\<close>

definition acceptConnection :: "conn_id \<Rightarrow> out_stream \<Rightarrow> 's world \<Rightarrow> 's world" where
  "acceptConnection cid out w =
     w\<lparr>conns := (conns w)(cid \<mapsto> SetKeepParamsAndResponsesAsRaw True (NewConnection out))\<rparr>"

text \<open>Its end: the methods of the connection are unregistered, then it is closed.\<close>

definition terminateConnection :: "conn_id \<Rightarrow> 's world \<Rightarrow> 's world" where
  "terminateConnection cid w =
     w\<lparr>router := removeMethodsFromConnection cid (router w),
       conns := (conns w)(cid := map_option Close (conns w cid))\<rparr>"

definition connectionLoop ::
  "msgpack \<Rightarrow> conn_id \<Rightarrow> out_stream \<Rightarrow> nat \<Rightarrow> bytes \<Rightarrow> 's world \<Rightarrow> 's world outcome option" where
  "connectionLoop M cid out fuel s w =
     (case Run M True (router_handlers M cid) fuel s (Running (acceptConnection cid out w)) of
        None \<Rightarrow> None
      | Some RunPanic \<Rightarrow> Some Crashed
      | Some (Stopped Crashed) \<Rightarrow> Some Crashed
      | Some (Stopped Hung) \<Rightarrow> Some Hung
      | Some (Stopped (Running w')) \<Rightarrow> Some (Running (terminateConnection cid w')))"

section \<open>The contract of the routing table\<close>

text \<open>
  The interface the request handling relies on: registration is first come, first served and
  idempotent for the owner; only the owner can remove a route.
\<close>

locale route_table =
  fixes register :: "'m \<Rightarrow> 'c \<Rightarrow> 't \<Rightarrow> 'e option \<times> 't"
    and unregister :: "'m \<Rightarrow> 'c \<Rightarrow> 't \<Rightarrow> bool \<times> 't"
    and reset :: "'c \<Rightarrow> 't \<Rightarrow> 't"
    and owner :: "'m \<Rightarrow> 't \<Rightarrow> 'c option"
  assumes register_free: "owner m t = None \<Longrightarrow> fst (register m c t) = None"
    and register_free_owner: "owner m t = None \<Longrightarrow>
        owner m' (snd (register m c t)) = (if m' = m then Some c else owner m' t)"
    and register_own: "owner m t = Some c \<Longrightarrow> register m c t = (None, t)"
    and register_taken: "\<lbrakk> owner m t = Some d; d \<noteq> c \<rbrakk> \<Longrightarrow> \<exists>e. register m c t = (Some e, t)"
    and unregister_own: "owner m t = Some c \<Longrightarrow> fst (unregister m c t)"
    and unregister_own_owner: "owner m t = Some c \<Longrightarrow>
        owner m' (snd (unregister m c t)) = (if m' = m then None else owner m' t)"
    and unregister_other: "owner m t \<noteq> Some c \<Longrightarrow> unregister m c t = (False, t)"
    and reset_owner: "owner m (reset c t) = (if owner m t = Some c then None else owner m t)"

datatype ('m, 'c) table_op = OpRegister 'm 'c | OpUnregister 'm 'c | OpReset 'c

fun op_client :: "('m, 'c) table_op \<Rightarrow> 'c" where
  "op_client (OpRegister m c) = c"
| "op_client (OpUnregister m c) = c"
| "op_client (OpReset c) = c"

fun op_applied ::
  "('m \<Rightarrow> 'c \<Rightarrow> 't \<Rightarrow> 'e option \<times> 't) \<Rightarrow> ('m \<Rightarrow> 'c \<Rightarrow> 't \<Rightarrow> bool \<times> 't) \<Rightarrow> ('c \<Rightarrow> 't \<Rightarrow> 't)
   \<Rightarrow> ('m, 'c) table_op \<Rightarrow> 't \<Rightarrow> 't" where
  "op_applied register unregister reset (OpRegister m c) t = snd (register m c t)"
| "op_applied register unregister reset (OpUnregister m c) t = snd (unregister m c t)"
| "op_applied register unregister reset (OpReset c) t = reset c t"

context route_table
begin

lemma register_owner:
  "owner m' (snd (register m c t)) = (if m' = m \<and> owner m t = None then Some c else owner m' t)"
proof (cases "owner m t")
  case None
  then show ?thesis by (simp add: register_free_owner)
next
  case (Some d)
  then have "snd (register m c t) = t"
    using register_own register_taken by (cases "d = c") (auto, force)
  with Some show ?thesis by simp
qed

lemma unregister_owner:
  "owner m' (snd (unregister m c t)) = (if m' = m \<and> owner m t = Some c then None else owner m' t)"
  by (cases "owner m t = Some c") (simp_all add: unregister_own_owner unregister_other)

lemma op_isolated:
  "op_client x \<noteq> c \<Longrightarrow>
     owner m (op_applied register unregister reset x t) = Some c \<longleftrightarrow> owner m t = Some c"
  by (cases x) (auto simp: register_owner unregister_owner reset_owner)

text \<open>What the other clients do never changes the routes of a client.\<close>

lemma ops_isolated:
  "\<forall>x \<in> set ops. op_client x \<noteq> c \<Longrightarrow>
     owner m (fold (op_applied register unregister reset) ops t) = Some c \<longleftrightarrow> owner m t = Some c"
  by (induction ops arbitrary: t) (simp_all add: op_isolated)

text \<open>A route that was registered stays with its owner, and everybody else is refused.\<close>

lemma registration_exclusive:
  assumes "fst (register m c t) = None" and "\<forall>x \<in> set ops. op_client x \<noteq> c" and "d \<noteq> c"
  defines "t' \<equiv> fold (op_applied register unregister reset) ops (snd (register m c t))"
  shows "owner m t' = Some c \<and> (\<exists>e. register m d t' = (Some e, t')) \<and> unregister m d t' = (False, t')"
proof -
  have "owner m t = None \<or> owner m t = Some c"
  proof (cases "owner m t")
    case (Some d)
    then show ?thesis using assms(1) register_taken [of m t d c] by fastforce
  qed simp
  then have "owner m (snd (register m c t)) = Some c" by (auto simp: register_owner)
  then have own: "owner m t' = Some c" unfolding t'_def using ops_isolated [OF assms(2)] by simp
  with assms(3) show ?thesis using register_taken [of m t' c d] unregister_other [of m t' d] by auto
qed

text \<open>After a reset a client owns nothing, until it registers again.\<close>

lemma reset_then_none: "owner m (reset c t) \<noteq> Some c"
  by (simp add: reset_owner)

end

interpretation routing: route_table registerMethod removeSingleMethodFromConnection
    removeMethodsFromConnection getConnectionForMethod
  by unfold_locales
     (auto simp: registerMethod_def removeSingleMethodFromConnection_def removeMethodsFromConnection_def
        getConnectionForMethod_def split: option.splits if_splits)

lemma registerMethod_error:
  "registerMethod m c r = (Some e, r') \<Longrightarrow> e = newRouteAlreadyExistsError m"
  by (auto simp: registerMethod_def split: option.splits if_splits)

section \<open>Parameters\<close>

lemma rawParams_Get_again:
  "rawParams_Get M r = (d, r') \<Longrightarrow> rawParams_Get M r' = (d, r')"
  by (auto simp: rawParams_Get_def Let_def split: if_splits option.splits)

lemma decoded_params_eq: "decoded_params M raw = map (decode_param M) raw"
  by (simp add: decoded_params_def rawParams_Get_def Let_def)

section \<open>Properties\<close>

text \<open>
  C8. Registration is exclusive: once a client has registered a method, then whatever the
  other clients register, unregister or reset in the meantime, requests for the method go to
  that client, and the attempts of another client to register or unregister the method are
  refused without effect, the registration with error 5, "route already exists".
\<close>

theorem route_exclusive:
  assumes "fst (registerMethod m c r) = None" and "\<forall>x \<in> set ops. op_client x \<noteq> c" and "d \<noteq> c"
    and "r' = fold (op_applied registerMethod removeSingleMethodFromConnection removeMethodsFromConnection)
           ops (snd (registerMethod m c r))"
  shows "getConnectionForMethod m r' = Some c
     \<and> registerMethod m d r' = (Some (newRouteAlreadyExistsError m), r')
     \<and> removeSingleMethodFromConnection m d r' = (False, r')"
  using routing.registration_exclusive [OF assms(1-3)] registerMethod_error
  unfolding assms(4) by metis

theorem route_exclusive_witness:
  "getConnectionForMethod ''m'' (snd (registerMethod ''m'' 1 (New :: unit Router))) = Some 1
   \<and> fst (registerMethod ''m'' 2 (snd (registerMethod ''m'' 1 (New :: unit Router))))
       = Some (newRouteAlreadyExistsError ''m'')"
proof -
  have "fst (registerMethod ''m'' 1 (New :: unit Router)) = None"
    by (simp add: registerMethod_def New_def)
  from route_exclusive [OF this, of "[]" 2] show ?thesis by simp
qed

text \<open>
  The routing table keeps clients apart: no sequence of register, unregister and reset
  calls by other clients adds, removes or redirects a route of a client, and after its own
  reset (or disconnection) a client owns no route.
\<close>

lemma routes_isolated:
  assumes "\<forall>x \<in> set ops. op_client x \<noteq> c"
  shows "(getConnectionForMethod m (fold (op_applied registerMethod removeSingleMethodFromConnection
             removeMethodsFromConnection) ops r) = Some c
          \<longleftrightarrow> getConnectionForMethod m r = Some c)
     \<and> getConnectionForMethod m (fold (op_applied registerMethod removeSingleMethodFromConnection
             removeMethodsFromConnection) ops (removeMethodsFromConnection c r)) \<noteq> Some c"
  using routing.ops_isolated [OF assms] routing.reset_then_none by metis

end
