(* ===== verification/Router_Calls.thy ===== *)
theory Router_Calls
  imports Router
begin

text \<open>
  Calls through the router: what a request, a response and a notification do to the streams of
  the connections involved. A connection is \<open>healthy\<close> when writes to its stream succeed
  and its message size limit, if any, is one that \<open>$/setMaxMsgSize\<close> accepts; under the size
  laws of the MessagePack format the router then always manages to answer.
\<close>

section \<open>Healthy connections\<close>

definition limit_ok :: "'k Connection \<Rightarrow> bool" where
  "limit_ok c \<longleftrightarrow> (case msgpBuffer c of None \<Rightarrow> True | Some b \<Rightarrow> 127 < lb_limit b)"

definition healthy :: "'k Connection \<Rightarrow> bool" where
  "healthy c \<longleftrightarrow> conn_inv c \<and> limit_ok c \<and> \<not> out_closed (conn_out c) \<and> capacity (conn_out c) = None"

definition fits :: "msgpack \<Rightarrow> any list \<Rightarrow> 'k Connection \<Rightarrow> bool" where
  "fits M data c \<longleftrightarrow>
     (case msgpBuffer c of None \<Rightarrow> True | Some b \<Rightarrow> int (length (enc M (GoSlice data))) \<le> lb_limit b)"

text \<open>What sending leaves behind on a healthy connection.\<close>

definition sends :: "msgpack \<Rightarrow> any list \<Rightarrow> 'k Connection \<Rightarrow> 'k Connection \<Rightarrow> bool" where
  "sends M data c c' \<longleftrightarrow>
     sent (conn_out c') = sent (conn_out c) @ enc M (GoSlice data) \<and> healthy c' \<and>
     map_option lb_limit (msgpBuffer c') = map_option lb_limit (msgpBuffer c) \<and>
     activeOutRequests c' = activeOutRequests c \<and> lastOutRequestsIndex c' = lastOutRequestsIndex c"

definition refuses :: "'k Connection \<Rightarrow> 'k Connection \<Rightarrow> bool" where
  "refuses c c' \<longleftrightarrow>
     conn_out c' = conn_out c \<and> healthy c' \<and>
     map_option lb_limit (msgpBuffer c') = map_option lb_limit (msgpBuffer c) \<and>
     activeOutRequests c' = activeOutRequests c \<and> lastOutRequestsIndex c' = lastOutRequestsIndex c"

lemma limit_ok_cong:
  "map_option lb_limit (msgpBuffer c') = map_option lb_limit (msgpBuffer c) \<Longrightarrow> limit_ok c' = limit_ok c"
  by (auto simp: limit_ok_def split: option.splits)

lemma fits_cong:
  "map_option lb_limit (msgpBuffer c') = map_option lb_limit (msgpBuffer c) \<Longrightarrow>
     fits M data c' = fits M data c"
  by (auto simp: fits_def split: option.splits)

lemma send_healthy:
  assumes h: "healthy c" and ok: "snd (Encode M (GoSlice data)) = None"
  shows "if fits M data c
         then \<exists>c'. send M data c = (None, c') \<and> sends M data c c'
         else \<exists>c' l. send M data c = (Some (ErrBufferLimitExceeded l), c') \<and> refuses c c'"
proof -
  obtain e c' where s: "send M data c = (e, c')" by (metis prod.exhaust)
  have inv': "conn_inv c'" using conn_inv_send [OF _ s] h by (simp add: healthy_def)
  have lim: "map_option lb_limit (msgpBuffer c') = map_option lb_limit (msgpBuffer c)"
    using send_frame(5) [OF s] h by (simp add: healthy_def)
  then have lok: "limit_ok c'" using limit_ok_cong h by (auto simp: healthy_def)
  have fr: "activeOutRequests c' = activeOutRequests c" "lastOutRequestsIndex c' = lastOutRequestsIndex c"
    using send_frame(1,2) [OF s] by auto
  show ?thesis
  proof (cases "msgpBuffer c")
    case None
    with s h ok have "e = None" "conn_out c' = (conn_out c)\<lparr>sent := sent (conn_out c) @ enc M (GoSlice data)\<rparr>"
      by (auto simp: healthy_def send_unlimited)
    with None s h inv' lim lok fr show ?thesis
      by (simp add: fits_def sends_def healthy_def)
  next
    case (Some b)
    with h have "lb_inv b" by (simp add: healthy_def conn_inv_def)
    from send_limited [OF this Some ok] s h Some inv' lim lok fr show ?thesis
      by (auto simp: fits_def sends_def refuses_def healthy_def Let_def stream_Write_unlimited)
  qed
qed

section \<open>Answering\<close>

text \<open>The message that \<open>fwdRes\<close> ends up sending: the response, or the error that replaces it.\<close>

definition fitted_response :: "msgpack \<Rightarrow> 'k Connection \<Rightarrow> MessageID \<Rightarrow> any \<Rightarrow> any \<Rightarrow> any list" where
  "fitted_response M c mid err result =
     (if fits M (response_message mid err result) c then response_message mid err result
      else response_message mid too_large GoNil)"

lemma sends_refuses: "\<lbrakk> refuses c c1; sends M data c1 c2 \<rbrakk> \<Longrightarrow> sends M data c c2"
  by (simp add: sends_def refuses_def)

context msgpack_sizes
begin

lemma wire_too_large: "wire too_large"
  by (simp add: too_large_def routerError_def wire_slice wire_string wire_int)

lemma fallback_encode_ok: "snd (Encode M (GoSlice (response_message mid too_large GoNil))) = None"
  by (rule encode_ok) (simp add: response_message_def wire_slice wire_nil wire_too_large)

text \<open>The replacement is short enough for every limit the router accepts.\<close>

lemma fallback_size: "length (enc M (GoSlice (response_message mid too_large GoNil))) \<le> 127"
proof -
  have "length (enc M (GoInt 1)) = 1" "length (enc M (GoInt8 6)) = 1"
    using size_small_int [of "GoInt 1" 1] size_small_int [of "GoInt8 6" 6] by simp_all
  moreover have "length (enc M (GoUint mid)) \<le> 9" by (rule size_int) simp
  ultimately show ?thesis
    by (simp add: response_message_def too_large_def routerError_def size_slice size_nil size_string)
qed

lemma fallback_fits: "limit_ok c \<Longrightarrow> fits M (response_message mid too_large GoNil) c"
  using fallback_size [of mid] by (auto simp: limit_ok_def fits_def split: option.splits)

lemma fwdRes_answers:
  assumes c: "conns w cid = Some c" and h: "healthy c"
    and ok: "snd (Encode M (GoSlice (response_message mid err result))) = None"
  shows "\<exists>c'. fwdRes M (cid, mid) result err w = w\<lparr>conns := (conns w)(cid \<mapsto> c')\<rparr>
     \<and> sends M (fitted_response M c mid err result) c c'"
proof (cases "fits M (response_message mid err result) c")
  case True
  with send_healthy [OF h ok] c show ?thesis
    by (auto simp: fwdRes_def on_conn_def sendResponse_def fitted_response_def)
next
  case False
  with send_healthy [OF h ok] obtain c1 l where
    s: "send M (response_message mid err result) c = (Some (ErrBufferLimitExceeded l), c1)"
    and r: "refuses c c1" by auto
  from r have "healthy c1" by (simp add: refuses_def)
  with send_healthy [OF this fallback_encode_ok, of mid] fallback_fits [of c1 mid]
  obtain c2 where "send M (response_message mid too_large GoNil) c1 = (None, c2)"
    and s2: "sends M (response_message mid too_large GoNil) c1 c2"
    by (auto simp: healthy_def)
  with s c False sends_refuses [OF r s2] show ?thesis
    by (auto simp: fwdRes_def on_conn_def sendResponse_def fitted_response_def)
qed

end

section \<open>Forwarding\<close>

definition request_id :: "'k Connection \<Rightarrow> MessageID" where
  "request_id c = ucast (lastOutRequestsIndex c + 1)"

text \<open>What a forwarded request leaves on the connection of the client that serves it.\<close>

definition forwards :: "msgpack \<Rightarrow> 'k \<Rightarrow> string \<Rightarrow> any list \<Rightarrow> 'k Connection \<Rightarrow> 'k Connection \<Rightarrow> bool" where
  "forwards M k method raw c c' \<longleftrightarrow>
     sent (conn_out c') = sent (conn_out c) @ enc M (GoSlice (request_message (request_id c) method raw)) \<and>
     healthy c' \<and> map_option lb_limit (msgpBuffer c') = map_option lb_limit (msgpBuffer c) \<and>
     lastOutRequestsIndex c' = lastOutRequestsIndex c + 1 \<and>
     activeOutRequests c' = (activeOutRequests c)(request_id c \<mapsto> \<lparr>req_res = k, req_method = method\<rparr>)"

lemma healthy_reserve: "healthy c \<Longrightarrow> reserveRequest method k c = (mid, c1) \<Longrightarrow> healthy c1"
  using unat_ucast_32 [of "lastOutRequestsIndex c + 1"]
  by (auto simp: reserveRequest_def Let_def healthy_def conn_inv_def limit_ok_def split: if_splits)

lemma sendRequest_healthy:
  assumes h: "healthy c" and ok: "snd (Encode M (GoSlice (request_message (request_id c) method raw))) = None"
  shows "if fits M (request_message (request_id c) method raw) c
         then \<exists>c'. SendRequestWithAsyncResult M k method raw c = (None, c') \<and> forwards M k method raw c c'
         else \<exists>c' l. SendRequestWithAsyncResult M k method raw c
                 = (Some (Errorf_w ''sending request'' (ErrBufferLimitExceeded l)), c')
              \<and> conn_out c' = conn_out c \<and> healthy c'
              \<and> map_option lb_limit (msgpBuffer c') = map_option lb_limit (msgpBuffer c)
              \<and> activeOutRequests c' = (activeOutRequests c)(request_id c := None)"
proof -
  obtain c1 where r: "reserveRequest method k c = (request_id c, c1)"
    by (simp add: reserveRequest_def request_id_def Let_def)
  then have c1: "conn_out c1 = conn_out c" "msgpBuffer c1 = msgpBuffer c"
      "lastOutRequestsIndex c1 = lastOutRequestsIndex c + 1"
      "activeOutRequests c1 = (activeOutRequests c)(request_id c \<mapsto> \<lparr>req_res = k, req_method = method\<rparr>)"
    by (auto simp: reserveRequest_def Let_def request_id_def)
  have h1: "healthy c1" using healthy_reserve [OF h r] .
  have f: "fits M d c1 = fits M d c" for d by (simp add: fits_def c1)
  show ?thesis
  proof (cases "fits M (request_message (request_id c) method raw) c")
    case True
    with send_healthy [OF h1 ok] f r c1 show ?thesis
      by (auto simp: SendRequestWithAsyncResult_def sendRequest_parts transmitRequest_def forwards_def sends_def)
  next
    case False
    with send_healthy [OF h1 ok] f obtain c2 l where
      "send M (request_message (request_id c) method raw) c1 = (Some (ErrBufferLimitExceeded l), c2)"
      "refuses c1 c2" by auto
    with False r c1 show ?thesis
      by (auto simp: SendRequestWithAsyncResult_def sendRequest_parts transmitRequest_def refuses_def
            healthy_def conn_inv_def limit_ok_def)
  qed
qed

section \<open>A client that has gone\<close>

text \<open>The error of a write to a connection that was closed in the meantime.\<close>

definition closed_error :: goerror where
  "closed_error = ErrorString ''use of closed network connection''"

lemma write_chunks_closed:
  "\<lbrakk> out_closed st; concat ps \<noteq> [] \<rbrakk> \<Longrightarrow> write_chunks stream_Write st ps = (Some closed_error, st)"
  by (cases ps) (simp_all add: stream_Write_def closed_error_def)

lemma send_closed:
  assumes "conn_inv c" and "out_closed (conn_out c)" and "snd (Encode M (GoSlice data)) = None"
    and "enc M (GoSlice data) \<noteq> []"
  shows "\<exists>e c'. send M data c = (Some e, c') \<and> (e = closed_error \<or> (\<exists>l. e = ErrBufferLimitExceeded l))
     \<and> conn_out c' = conn_out c"
proof (cases "msgpBuffer c")
  case None
  with assms show ?thesis by (simp add: send_def encode_to_def enc_def write_chunks_closed)
next
  case (Some b)
  with assms(1) have "lb_inv b" by (simp add: conn_inv_def)
  from send_limited [OF this Some assms(3)] assms(2) show ?thesis
    by (simp add: Let_def stream_Write_def closed_error_def)
qed

text \<open>
  A connection the router may still hold a route to, or may just have looked up: open and
  working, or closed.
\<close>

definition usable :: "'k Connection \<Rightarrow> bool" where
  "usable c \<longleftrightarrow> healthy c \<or> conn_inv c \<and> out_closed (conn_out c)"

lemma conn_inv_reserve: "\<lbrakk> conn_inv c; reserveRequest method k c = (mid, c1) \<rbrakk> \<Longrightarrow> conn_inv c1"
  using unat_ucast_32 [of "lastOutRequestsIndex c + 1"]
  by (auto simp: reserveRequest_def Let_def conn_inv_def split: if_splits)

lemma reserve_out: "reserveRequest method k c = (mid, c1) \<Longrightarrow> conn_out c1 = conn_out c"
  by (auto simp: reserveRequest_def Let_def)

section \<open>A routed request is forwarded or answered\<close>

definition route_error :: "string \<Rightarrow> any \<Rightarrow> bool" where
  "route_error method e \<longleftrightarrow>
     e = routerError ErrCodeMethodNotAvailable (''method '' @ method @ '' not available'')
     \<or> e = routerError ErrCodeFailedToSendRequests
             (''failed to send request: sending request: use of closed network connection'')
     \<or> e = too_large"

lemma healthy_not_closed: "healthy c \<Longrightarrow> \<not> out_closed (conn_out c)"
  by (simp add: healthy_def)

context msgpack_sizes
begin

lemma wire_route_error: "\<lbrakk> route_error method e; length method < 2 ^ 31 \<rbrakk> \<Longrightarrow> wire e"
  by (auto simp: route_error_def wire_too_large)
     (auto simp: routerError_def wire_slice wire_string wire_int)

lemma route_error_encode_ok:
  "\<lbrakk> route_error method e; length method < 2 ^ 31 \<rbrakk> \<Longrightarrow>
     snd (Encode M (GoSlice (response_message mid e GoNil))) = None"
  by (rule encode_ok) (simp add: response_message_def wire_slice wire_nil wire_route_error)

text \<open>An error answer always arrives, if not as such then as the one for a message that is too large.\<close>

lemma fwdRes_route_error:
  assumes "conns w cid = Some c" and "healthy c" and "route_error method e" and "length method < 2 ^ 31"
  shows "\<exists>c' e'. fwdRes M (cid, mid) GoNil e w = w\<lparr>conns := (conns w)(cid \<mapsto> c')\<rparr> \<and> route_error method e'
     \<and> sends M (response_message mid e' GoNil) c c'"
proof -
  let ?e = "if fits M (response_message mid e GoNil) c then e else too_large"
  have "fitted_response M c mid e GoNil = response_message mid ?e GoNil"
    by (simp add: fitted_response_def)
  moreover have "route_error method ?e" using assms(3) by (simp add: route_error_def)
  ultimately show ?thesis
    using fwdRes_answers [OF assms(1,2) route_error_encode_ok [OF assms(3,4)], of mid] by metis
qed

lemma raw_list_represents: "list_all2 (represents M) (map (\<lambda>v. GoRawMessage (enc M v)) vs) vs"
  by (simp add: list_all2_conv_all_nth represents_def)

lemma request_encode_ok:
  assumes "list_all2 (represents M) raw vs" and "wire (GoSlice vs)" and "length method < 2 ^ 32"
  shows "snd (Encode M (GoSlice (request_message mid method raw))) = None"
  unfolding request_message_def
  by (rule encode_slice_ok)
     (use assms in \<open>auto simp: wire_string encode_ok intro: represents_slice_ok\<close>)

lemma request_nonempty:
  assumes "list_all2 (represents M) raw vs" and "wire (GoSlice vs)" and "length method < 2 ^ 32"
  shows "enc M (GoSlice (request_message mid method raw)) \<noteq> []"
  unfolding enc_request_represents [OF assms(1)]
  by (rule enc_nonempty) (use assms in \<open>simp add: request_message_def wire_slice wire_string\<close>)

text \<open>Sending the request to the client: done, refused for its size, or the client is closed.\<close>

lemma SendRequest_usable:
  assumes u: "usable c" and raw: "list_all2 (represents M) raw vs" "wire (GoSlice vs)" "length method < 2 ^ 32"
  shows "\<exists>e c'. SendRequestWithAsyncResult M k method raw c = (e, c')
     \<and> (e = None \<and> forwards M k method raw c c'
        \<or> (\<exists>err. e = Some (Errorf_w ''sending request'' err)
             \<and> (err = closed_error \<or> (\<exists>l. err = ErrBufferLimitExceeded l))
             \<and> conn_out c' = conn_out c \<and> (healthy c \<longrightarrow> healthy c')))"
proof (cases "healthy c")
  case True
  from sendRequest_healthy [OF True request_encode_ok [OF raw], of k] show ?thesis
    by (auto split: if_splits)
next
  case False
  let ?mid = "request_id c"
  obtain c1 where r: "reserveRequest method k c = (?mid, c1)"
    by (simp add: reserveRequest_def request_id_def Let_def)
  from False u have "conn_inv c" "out_closed (conn_out c)" by (auto simp: usable_def)
  then have "conn_inv c1" "out_closed (conn_out c1)"
    using conn_inv_reserve [OF _ r] reserve_out [OF r] by auto
  from send_closed [OF this request_encode_ok [OF raw] request_nonempty [OF raw]]
  obtain err c2 where "send M (request_message ?mid method raw) c1 = (Some err, c2)"
    "err = closed_error \<or> (\<exists>l. err = ErrBufferLimitExceeded l)" "conn_out c2 = conn_out c1"
    by blast
  with False r reserve_out [OF r] show ?thesis
    by (auto simp: SendRequestWithAsyncResult_def sendRequest_parts transmitRequest_def)
qed

lemma forwardRequest_accounted:
  assumes b: "conns w b = Some cb" "usable cb" and c: "conns w cid = Some c" "healthy c"
    and raw: "list_all2 (represents M) raw vs" "wire (GoSlice vs)" "length method < 2 ^ 31"
  shows "(\<exists>cb'. forwards M (cid, mid) method raw cb cb' \<and>
            forwardRequest M b (cid, mid) method raw w = w\<lparr>conns := (conns w)(b \<mapsto> cb')\<rparr>)
     \<or> (\<exists>c' e. route_error method e
          \<and> conns (forwardRequest M b (cid, mid) method raw w) cid = Some c'
          \<and> sent (conn_out c') = sent (conn_out c) @ enc M (GoSlice (response_message mid e GoNil)))"
proof -
  have len: "length method < 2 ^ 32" using raw(3) by simp
  obtain e cb' where s: "SendRequestWithAsyncResult M (cid, mid) method raw cb = (e, cb')"
    and cases: "e = None \<and> forwards M (cid, mid) method raw cb cb'
        \<or> (\<exists>err. e = Some (Errorf_w ''sending request'' err)
             \<and> (err = closed_error \<or> (\<exists>l. err = ErrBufferLimitExceeded l))
             \<and> conn_out cb' = conn_out cb \<and> (healthy cb \<longrightarrow> healthy cb'))"
    using SendRequest_usable [OF b(2) raw(1,2) len, of "(cid, mid)"] by blast
  show ?thesis
  proof (cases e)
    case None
    with s cases b(1) show ?thesis
      by (intro disjI1 exI [of _ cb']) (simp add: forwardRequest_def on_conn_def)
  next
    case (Some x)
    with cases obtain err where err: "e = Some (Errorf_w ''sending request'' err)"
      "err = closed_error \<or> (\<exists>l. err = ErrBufferLimitExceeded l)"
      and cb': "conn_out cb' = conn_out cb" "healthy cb \<longrightarrow> healthy cb'" by blast
    let ?w1 = "w\<lparr>conns := (conns w)(b \<mapsto> cb')\<rparr>"
    obtain ans where ans: "route_error method ans"
      and fwd: "forwardRequest M b (cid, mid) method raw w = fwdRes M (cid, mid) GoNil ans ?w1"
      using s b(1) err by (force simp: forwardRequest_def on_conn_def route_error_def closed_error_def Errorf_w_def)
    obtain c1 where c1: "conns ?w1 cid = Some c1" "healthy c1" "conn_out c1 = conn_out c"
      using b(1) c cb' by (cases "b = cid") auto
    from fwdRes_route_error [OF c1(1,2) ans raw(3), of mid] fwd c1(3) show ?thesis
      by (auto simp: sends_def)
  qed
qed

end

section \<open>A call and its answer\<close>

definition builtin_methods :: "string list" where
  "builtin_methods = [''$/register'', ''$/unregister'', ''$/reset'', ''$/setMaxMsgSize'']"

text \<open>The methods that are neither built in nor internal: those the clients serve.\<close>

definition client_method :: "string \<Rightarrow> 's world \<Rightarrow> bool" where
  "client_method method w \<longleftrightarrow> method \<notin> set builtin_methods \<and> routesInternal (router w) method = None"

lemma run_builtin_None: "run_builtin method ps cid w = None \<longleftrightarrow> method \<notin> set builtin_methods"
  by (simp add: run_builtin_def builtin_methods_def)

lemma handleRequest_client_method:
  "client_method method w \<Longrightarrow>
     handleRequest M cid mid method raw w = Running (routeRequest M (cid, mid) method raw w)"
  by (simp add: handleRequest_def client_method_def run_builtin_None [THEN iffD2])

context msgpack_sizes
begin

lemma raw_view: "list_all2 (represents M) (map (field_view M norm True) vs) vs"
  by (simp add: list_all2_conv_all_nth represents_def field_view_def)

lemma raw_view1: "represents M (field_view M norm True v) v"
  by (simp add: represents_def field_view_def)

lemma fits_request_raw:
  "fits M (request_message mid method (map (field_view M norm True) vs)) c
     = fits M (request_message mid method vs) c"
  by (simp add: fits_def enc_request_represents [OF raw_view] split: option.split)

lemma fits_response_raw:
  "fits M (response_message mid (field_view M norm True e) (field_view M norm True r)) c
     = fits M (response_message mid e r) c"
  by (simp add: fits_def enc_response_represents [OF raw_view1 raw_view1] split: option.split)

lemma response_encode_ok:
  "\<lbrakk> represents M e ve; represents M r vr; wire ve; wire vr \<rbrakk> \<Longrightarrow>
     snd (Encode M (GoSlice (response_message mid e r))) = None"
  unfolding response_message_def
  by (rule encode_slice_ok) (auto simp: encode_ok intro: represents_encode_ok)

text \<open>The request arrives at the client that serves the method.\<close>

lemma call_forwarded:
  assumes "client_method method w" and "routes (router w) method = Some b"
    and b: "conns w b = Some cb" "healthy cb"
    and v: "wire (GoSlice vs)" "length method < 2 ^ 32"
    and fit: "fits M (request_message (request_id cb) method vs) cb"
  shows "\<exists>cb1. handleRequest M a mid method (map (field_view M norm True) vs) w
           = Running (w\<lparr>conns := (conns w)(b \<mapsto> cb1)\<rparr>)
     \<and> forwards M (a, mid) method (map (field_view M norm True) vs) cb cb1"
proof -
  have "snd (Encode M (GoSlice (request_message (request_id cb) method (map (field_view M norm True) vs)))) = None"
    by (rule request_encode_ok [OF raw_view v])
  from sendRequest_healthy [OF b(2) this, of "(a, mid)"] fit obtain cb1 where
    "SendRequestWithAsyncResult M (a, mid) method (map (field_view M norm True) vs) cb = (None, cb1)"
    "forwards M (a, mid) method (map (field_view M norm True) vs) cb cb1"
    by (auto simp: fits_request_raw)
  with assms(1,2) b(1) show ?thesis
    by (intro exI [of _ cb1]) (simp add: handleRequest_client_method routeRequest_def
          getConnectionForMethod_def forwardRequest_def on_conn_def)
qed

text \<open>Its answer arrives at the caller, under the ID the caller chose.\<close>

lemma answer_forwarded:
  assumes b: "conns w1 b = Some cb1" "activeOutRequests cb1 bid = Some req" "req_res req = (a, mid)"
    and a: "conns w1 a = Some ca" "healthy ca" "a \<noteq> b"
    and v: "wire verr" "wire vres" and fit: "fits M (response_message mid verr vres) ca"
  shows "\<exists>ca2. handleResponse M b bid (field_view M norm True verr) (field_view M norm True vres) w1
           = w1\<lparr>conns := (conns w1)(b \<mapsto> cb1\<lparr>activeOutRequests := (activeOutRequests cb1)(bid := None)\<rparr>,
                                   a \<mapsto> ca2)\<rparr>
     \<and> sends M (response_message mid (field_view M norm True verr) (field_view M norm True vres)) ca ca2"
proof -
  let ?w = "w1\<lparr>conns := (conns w1)(b \<mapsto> cb1\<lparr>activeOutRequests := (activeOutRequests cb1)(bid := None)\<rparr>)\<rparr>"
  have "conns ?w a = Some ca" using a by simp
  from fwdRes_answers [OF this a(2) response_encode_ok [OF raw_view1 raw_view1 v], of mid] fit
  obtain ca2 where
    "fwdRes M (a, mid) (field_view M norm True vres) (field_view M norm True verr) ?w
       = ?w\<lparr>conns := (conns ?w)(a \<mapsto> ca2)\<rparr>"
    "sends M (response_message mid (field_view M norm True verr) (field_view M norm True vres)) ca ca2"
    by (auto simp: fitted_response_def fits_response_raw)
  with b show ?thesis by (auto simp: handleResponse_def handleIncomingResponse_def)
qed

lemma call_and_answer:
  assumes a: "conns w a = Some ca" "healthy ca" and b: "conns w b = Some cb" "healthy cb" and ab: "a \<noteq> b"
    and r: "client_method method w" "routes (router w) method = Some b"
    and v: "wire (GoSlice vs)" "length method < 2 ^ 32" "wire verr" "wire vres"
    and fit: "fits M (request_message (request_id cb) method vs) cb" "fits M (response_message mid verr vres) ca"
  shows "\<exists>w1 cb1 req w2 ca2 resp cb2.
     handleRequest M a mid method (map (field_view M norm True) vs) w = Running w1
     \<and> conns w1 b = Some cb1 \<and> sent (conn_out cb1) = sent (conn_out cb) @ req
     \<and> decodeRpcPacket M asRaw req
         = (Packet (request_packet (request_id cb) method (map (field_view M norm asRaw) vs)), [])
     \<and> handleResponse M b (request_id cb) (field_view M norm True verr) (field_view M norm True vres) w1 = w2
     \<and> conns w2 a = Some ca2 \<and> sent (conn_out ca2) = sent (conn_out ca) @ resp
     \<and> decodeRpcPacket M asRaw resp
         = (Packet (response_packet mid (field_view M norm asRaw verr) (field_view M norm asRaw vres)), [])
     \<and> conns w2 b = Some cb2 \<and> activeOutRequests cb2 (request_id cb) = None"
proof -
  from call_forwarded [OF r b v(1,2) fit(1)] obtain cb1 where
    h: "handleRequest M a mid method (map (field_view M norm True) vs) w
          = Running (w\<lparr>conns := (conns w)(b \<mapsto> cb1)\<rparr>)"
    and f: "forwards M (a, mid) method (map (field_view M norm True) vs) cb cb1" by blast
  let ?w1 = "w\<lparr>conns := (conns w)(b \<mapsto> cb1)\<rparr>"
  have "conns ?w1 b = Some cb1" "conns ?w1 a = Some ca" using a ab by auto
  moreover have "activeOutRequests cb1 (request_id cb) = Some \<lparr>req_res = (a, mid), req_method = method\<rparr>"
    using f by (simp add: forwards_def)
  ultimately obtain ca2 where
    hr: "handleResponse M b (request_id cb) (field_view M norm True verr) (field_view M norm True vres) ?w1
       = ?w1\<lparr>conns := (conns ?w1)(b \<mapsto> cb1\<lparr>activeOutRequests := (activeOutRequests cb1)(request_id cb := None)\<rparr>,
                                   a \<mapsto> ca2)\<rparr>"
    and s: "sends M (response_message mid (field_view M norm True verr) (field_view M norm True vres)) ca ca2"
    using answer_forwarded [OF _ _ _ _ a(2) ab v(3,4) fit(2)] by fastforce
  have "decodeRpcPacket M asRaw (enc M (GoSlice (request_message (request_id cb) method
          (map (field_view M norm True) vs))) @ [])
      = (Packet (request_packet (request_id cb) method (map (field_view M norm asRaw) vs)), [])"
    by (rule decode_request [OF raw_view v(1,2)])
  moreover have "decodeRpcPacket M asRaw (enc M (GoSlice (response_message mid (field_view M norm True verr)
          (field_view M norm True vres))) @ [])
      = (Packet (response_packet mid (field_view M norm asRaw verr) (field_view M norm asRaw vres)), [])"
    by (rule decode_response_msg [OF raw_view1 raw_view1 v(3,4)])
  ultimately show ?thesis using h f hr s ab by (auto simp: forwards_def sends_def)
qed

end

section \<open>Requests that are not served\<close>

context msgpack_sizes
begin

lemma routeRequest_accounted:
  assumes c: "conns w cid = Some c" "healthy c" and m: "client_method method w"
    and raw: "list_all2 (represents M) raw vs" "wire (GoSlice vs)" "length method < 2 ^ 31"
    and u: "\<And>b. routes (router w) method = Some b \<Longrightarrow> \<exists>cb. conns w b = Some cb \<and> usable cb"
  shows "\<exists>w'. handleRequest M cid mid method raw w = Running w' \<and>
     ((\<exists>b cb cb'. routes (router w) method = Some b \<and> conns w b = Some cb
         \<and> forwards M (cid, mid) method raw cb cb' \<and> w' = w\<lparr>conns := (conns w)(b \<mapsto> cb')\<rparr>)
      \<or> (\<exists>c' e. route_error method e \<and> conns w' cid = Some c'
         \<and> sent (conn_out c') = sent (conn_out c) @ enc M (GoSlice (response_message mid e GoNil))))"
proof (cases "routes (router w) method")
  case None
  let ?e = "routerError ErrCodeMethodNotAvailable (''method '' @ method @ '' not available'')"
  have "route_error method ?e" by (simp add: route_error_def)
  from fwdRes_route_error [OF c this raw(3), of mid] obtain c' e' where
    "fwdRes M (cid, mid) GoNil ?e w = w\<lparr>conns := (conns w)(cid \<mapsto> c')\<rparr>" "route_error method e'"
    "sends M (response_message mid e' GoNil) c c'" by blast
  with None m show ?thesis
    by (auto simp: handleRequest_client_method routeRequest_def getConnectionForMethod_def sends_def)
next
  case (Some b)
  with u obtain cb where "conns w b = Some cb" "usable cb" by blast
  from forwardRequest_accounted [OF this c raw, of mid] Some m \<open>conns w b = Some cb\<close> show ?thesis
    by (auto simp: handleRequest_client_method routeRequest_def getConnectionForMethod_def)
qed

text \<open>The parameters as the built-in methods see them.\<close>

lemma decoded_params_raw:
  "\<forall>v \<in> set vs. wire v \<Longrightarrow> decoded_params M (map (field_view M norm True) vs) = map norm vs"
  by (simp add: decoded_params_eq decode_param_def field_view_def unmarshal_enc)

lemma notification_encode_ok:
  assumes "list_all2 (represents M) raw vs" and "wire (GoSlice vs)" and "length method < 2 ^ 32"
  shows "snd (Encode M (GoSlice (notification_message method raw))) = None"
  unfolding notification_message_def
  by (rule encode_slice_ok)
     (use assms in \<open>auto simp: wire_string encode_ok intro: represents_slice_ok\<close>)

end

section \<open>Properties\<close>

definition two_clients :: "unit world" where
  "two_clients =
     \<lparr>router = \<lparr>routes = [''f'' \<mapsto> 2], routesInternal = Map.empty\<rparr>,
      conns = [1 \<mapsto> NewConnection new_stream, 2 \<mapsto> NewConnection new_stream], app = ()\<rparr>"

lemma two_clients_simps [simp]:
  "conns two_clients 1 = Some (NewConnection new_stream)"
  "conns two_clients 2 = Some (NewConnection new_stream)"
  "routes (router two_clients) ''f'' = Some 2"
  "routes (router two_clients) ''g'' = None"
  "routesInternal (router two_clients) = Map.empty"
  "client_method ''f'' two_clients" "client_method ''g'' two_clients"
  by (simp_all add: two_clients_def client_method_def builtin_methods_def)

lemma new_connection_simps [simp]:
  "healthy (NewConnection new_stream :: 'k Connection)"
  "fits M data (NewConnection new_stream :: 'k Connection)"
  "request_id (NewConnection new_stream :: 'k Connection) = 1"
  "conn_out (NewConnection new_stream :: 'k Connection) = new_stream"
  "sent new_stream = []"
  by (simp_all add: healthy_def limit_ok_def fits_def request_id_def NewConnection_def new_stream_def
        conn_inv_def)

text \<open>
  C6. A request for a method that clients serve is never dropped: it is forwarded to the
  client that registered the method, and is then pending there under the caller's name, or
  exactly one error response with the caller's ID is written to the caller: "method not
  available" when nobody registered it, "failed to send request" when the client has gone in
  the meantime, "message size exceeds the limit" when it does not fit.
\<close>

theorem request_forwarded_or_answered:
  assumes "msgpack_sizes M norm wire"
    and "conns w cid = Some c" "healthy c" and "client_method method w"
    and "list_all2 (represents M) raw vs" "wire (GoSlice vs)" "length method < 2 ^ 31"
    and "\<And>b. routes (router w) method = Some b \<Longrightarrow> \<exists>cb. conns w b = Some cb \<and> usable cb"
  shows "\<exists>w'. handleRequest M cid mid method raw w = Running w' \<and>
     ((\<exists>b cb cb'. routes (router w) method = Some b \<and> conns w b = Some cb
         \<and> forwards M (cid, mid) method raw cb cb' \<and> w' = w\<lparr>conns := (conns w)(b \<mapsto> cb')\<rparr>)
      \<or> (\<exists>c' e. route_error method e \<and> conns w' cid = Some c'
         \<and> sent (conn_out c') = sent (conn_out c) @ enc M (GoSlice (response_message mid e GoNil))))"
  by (rule msgpack_sizes.routeRequest_accounted [OF assms])

theorem request_forwarded_or_answered_witness:
  "\<exists>w' c' e. handleRequest mp_codec 1 9 ''g'' [] two_clients = Running w'
     \<and> route_error ''g'' e \<and> conns w' 1 = Some c'
     \<and> sent (conn_out c') = enc mp_codec (GoSlice (response_message 9 e GoNil))"
proof -
  have "mp_wire (GoSlice [])" by (simp add: mp.wire_slice)
  from request_forwarded_or_answered [OF mp.msgpack_sizes_axioms two_clients_simps(1)
      new_connection_simps(1) two_clients_simps(7) list_all2_Nil [THEN iffD2, OF refl] this, of 9]
  show ?thesis by (simp del: enc_mp_codec)
qed

text \<open>
  C7. The caller always gets an answer: whatever error and result the router has for it, a
  caller whose limit is one that \<open>$/setMaxMsgSize\<close> accepts receives one response with its
  request ID, the genuine one if it fits and the error 6, "message size exceeds the limit",
  otherwise; no other connection is touched.
\<close>

theorem response_always_delivered:
  assumes "msgpack_sizes M norm wire"
    and "conns w cid = Some c" "healthy c"
    and "represents M err verr" "represents M result vresult" "wire verr" "wire vresult"
  shows "\<exists>c' new. fwdRes M (cid, mid) result err w = w\<lparr>conns := (conns w)(cid \<mapsto> c')\<rparr>
     \<and> sent (conn_out c') = sent (conn_out c) @ new
     \<and> decodeRpcPacket M asRaw (new @ rest) =
         (Packet (if fits M (response_message mid err result) c
            then response_packet mid (field_view M norm asRaw verr) (field_view M norm asRaw vresult)
            else response_packet mid (field_view M norm asRaw too_large) (field_view M norm asRaw GoNil)), rest)"
proof -
  have "\<exists>c'. fwdRes M (cid, mid) result err w = w\<lparr>conns := (conns w)(cid \<mapsto> c')\<rparr>
     \<and> sends M (fitted_response M c mid err result) c c'"
    by (rule msgpack_sizes.fwdRes_answers [OF assms(1-3)
        msgpack_sizes.response_encode_ok [OF assms(1,4-7)]])
  moreover have "represents M v v" for v by (simp add: represents_def)
  note fallback = msgpack_format.decode_response_msg [OF msgpack_sizes.axioms(1) [OF assms(1)] this this
      msgpack_sizes.wire_too_large [OF assms(1)] msgpack_format.wire_nil [OF msgpack_sizes.axioms(1) [OF assms(1)]]]
  note genuine = msgpack_format.decode_response_msg [OF msgpack_sizes.axioms(1) [OF assms(1)] assms(4-7)]
  from fallback genuine have "decodeRpcPacket M asRaw (enc M (GoSlice (fitted_response M c mid err result)) @ rest) =
         (Packet (if fits M (response_message mid err result) c
            then response_packet mid (field_view M norm asRaw verr) (field_view M norm asRaw vresult)
            else response_packet mid (field_view M norm asRaw too_large) (field_view M norm asRaw GoNil)), rest)"
    by (simp add: fitted_response_def)
  ultimately show ?thesis by (auto simp: sends_def)
qed

theorem response_always_delivered_witness:
  "\<exists>c' new. fwdRes mp_codec (1, 9) (GoBool True) GoNil two_clients
        = two_clients\<lparr>conns := (conns two_clients)(1 \<mapsto> c')\<rparr>
     \<and> sent (conn_out c') = new
     \<and> decodeRpcPacket mp_codec False new = (Packet (response_packet 9 GoNil (GoBool True)), [])"
proof -
  have "represents mp_codec v v" for v by (simp add: represents_def)
  from response_always_delivered [OF mp.msgpack_sizes_axioms two_clients_simps(1) new_connection_simps(1)
      this this, of GoNil "GoBool True" 9 False "[]"]
  show ?thesis by (simp add: field_view_def mp.wire_bool del: enc_mp_codec)
qed

lemma notification_delivered_aux:
  assumes "msgpack_sizes M norm wire" and "healthy cb"
    and "wire (GoSlice vs)" "length method < 2 ^ 32" and "fits M (notification_message method vs) cb"
  shows "\<exists>cb'. SendNotification M method (map (field_view M norm True) vs) cb = (None, cb')
     \<and> sends M (notification_message method (map (field_view M norm True) vs)) cb cb'"
proof -
  note fmt = msgpack_sizes.axioms(1) [OF assms(1)]
  note rep = msgpack_sizes.raw_view [OF assms(1), of vs]
  have "fits M (notification_message method (map (field_view M norm True) vs)) cb"
    using assms(5) by (simp add: fits_def msgpack_format.enc_notification_represents [OF fmt rep] split: option.splits)
  with send_healthy [OF assms(2) msgpack_sizes.notification_encode_ok [OF assms(1) rep assms(3,4)]]
  show ?thesis by (auto simp: SendNotification_def)
qed

text \<open>
  C9. Notifications: one for a method that nobody serves is dropped without a trace; one for
  a method that a client has registered is written to that client only, which decodes the same
  method and parameters. No response is ever written for a notification.
\<close>

theorem notification_forwarded:
  assumes "msgpack_sizes M norm wire" and "method \<noteq> ''$/setMaxMsgSize''"
    and "routesInternal (router w) method = None"
    and "wire (GoSlice vs)" "length method < 2 ^ 32"
    and "\<And>b. routes (router w) method = Some b \<Longrightarrow>
           conns w b = Some cb \<and> healthy cb \<and> fits M (notification_message method vs) cb"
  shows "case routes (router w) method of
       None \<Rightarrow> handleNotification M cid method (map (field_view M norm True) vs) w = Running w
     | Some b \<Rightarrow> \<exists>cb' new.
         handleNotification M cid method (map (field_view M norm True) vs) w
           = Running (w\<lparr>conns := (conns w)(b \<mapsto> cb')\<rparr>)
         \<and> sent (conn_out cb') = sent (conn_out cb) @ new
         \<and> decodeRpcPacket M asRaw (new @ rest)
             = (Packet (notification_packet method (map (field_view M norm asRaw) vs)), rest)"
proof (cases "routes (router w) method")
  case None
  with assms(2,3) show ?thesis by (simp add: handleNotification_def getConnectionForMethod_def)
next
  case (Some b)
  from assms(6) [OF Some] have b: "conns w b = Some cb" "healthy cb" "fits M (notification_message method vs) cb"
    by auto
  from notification_delivered_aux [OF assms(1) b(2) assms(4,5) b(3)] obtain cb' where
    s: "SendNotification M method (map (field_view M norm True) vs) cb = (None, cb')"
    and d: "sends M (notification_message method (map (field_view M norm True) vs)) cb cb'" by blast
  have "handleNotification M cid method (map (field_view M norm True) vs) w
      = Running (w\<lparr>conns := (conns w)(b \<mapsto> cb')\<rparr>)"
    using assms(2,3) Some b(1) s
    by (simp add: handleNotification_def getConnectionForMethod_def forwardNotification_def on_conn_def)
  moreover note msgpack_format.decode_notification [OF msgpack_sizes.axioms(1) [OF assms(1)]
      msgpack_sizes.raw_view [OF assms(1)] assms(4,5), of asRaw rest]
  ultimately show ?thesis using Some d by (auto simp: sends_def)
qed

theorem notification_forwarded_witness:
  "\<exists>cb' new. handleNotification mp_codec 1 ''f'' [GoRawMessage (enc mp_codec GoNil)] two_clients
        = Running (two_clients\<lparr>conns := (conns two_clients)(2 \<mapsto> cb')\<rparr>)
     \<and> sent (conn_out cb') = new
     \<and> decodeRpcPacket mp_codec False new = (Packet (notification_packet ''f'' [GoNil]), [])"
proof -
  have "mp_wire (GoSlice [GoNil])" by (simp add: mp.wire_slice)
  from notification_forwarded [OF mp.msgpack_sizes_axioms _ _ this, of "''f''" two_clients
      "NewConnection new_stream" 1 False "[]"]
  show ?thesis by (simp add: field_view_def del: enc_mp_codec)
qed

lemma builtin_register_cases:
  "\<exists>e r r'. builtin_register [GoString name] cid w = ((r, e), w\<lparr>router := r'\<rparr>)
     \<and> routesInternal r' = routesInternal (router w)
     \<and> (if routes (router w) name \<in> {None, Some cid}
        then routes r' = (routes (router w))(name \<mapsto> cid) \<and> (e, r) = (GoNil, GoBool True)
        else r' = router w \<and> (e, r) = (ToEncodedError (newRouteAlreadyExistsError name), GoNil))"
proof (cases "routes (router w) name")
  case None
  then show ?thesis
    by (auto simp: builtin_register_def registerMethod_def
          intro!: exI [of _ "(router w)\<lparr>routes := (routes (router w))(name \<mapsto> cid)\<rparr>"])
next
  case (Some d)
  then show ?thesis
    by (cases "d = cid") (auto simp: builtin_register_def registerMethod_def
          intro!: exI [of _ "router w"])
qed

text \<open>
  Registering over the wire: a \<open>$/register\<close> request with a method name makes its sender
  the owner of the method and is answered with \<open>true\<close>; if another client owns the method,
  the table is unchanged and the answer is error 5, "route already exists".
\<close>

lemma register_handled:
  assumes "msgpack_sizes M norm wire" and "conns w cid = Some c" "healthy c" and "length name < 2 ^ 31"
  shows "\<exists>c' e r r'. handleRequest M cid mid ''$/register'' [field_view M norm True (GoString name)] w
         = Running (w\<lparr>router := r', conns := (conns w)(cid \<mapsto> c')\<rparr>)
     \<and> sends M (fitted_response M c mid e r) c c' \<and> routesInternal r' = routesInternal (router w)
     \<and> (if routes (router w) name \<in> {None, Some cid}
        then routes r' = (routes (router w))(name \<mapsto> cid) \<and> (e, r) = (GoNil, GoBool True)
        else r' = router w \<and> (e, r) = (ToEncodedError (newRouteAlreadyExistsError name), GoNil))"
proof -
  note fmt = msgpack_sizes.axioms(1) [OF assms(1)]
  have ws: "wire (GoString name)" using assms(4) by (simp add: msgpack_format.wire_string [OF fmt])
  then have ps: "decoded_params M [field_view M norm True (GoString name)] = [GoString name]"
    using msgpack_sizes.decoded_params_raw [OF assms(1), of "[GoString name]"]
      msgpack_format.wire_method [OF fmt] by simp
  obtain e r r' where ans: "builtin_register [GoString name] cid w = ((r, e), w\<lparr>router := r'\<rparr>)"
    and int: "routesInternal r' = routesInternal (router w)"
    and eff: "if routes (router w) name \<in> {None, Some cid}
        then routes r' = (routes (router w))(name \<mapsto> cid) \<and> (e, r) = (GoNil, GoBool True)
        else r' = router w \<and> (e, r) = (ToEncodedError (newRouteAlreadyExistsError name), GoNil)"
    using builtin_register_cases by metis
  have h: "handleRequest M cid mid ''$/register'' [field_view M norm True (GoString name)] w
      = Running (fwdRes M (cid, mid) r e (w\<lparr>router := r'\<rparr>))"
    by (simp add: handleRequest_def run_builtin_def ps ans answer_def)
  have "wire (ToEncodedError (newRouteAlreadyExistsError name))"
    using assms(4) by (simp add: ToEncodedError_def newRouteAlreadyExistsError_def
          msgpack_format.wire_simps [OF fmt] msgpack_format.wire_int [OF fmt])
  with eff have we: "wire e" "wire r"
    using msgpack_format.wire_nil [OF fmt] msgpack_format.wire_bool [OF fmt] by (metis Pair_inject)+
  have rep: "represents M v v" for v by (simp add: represents_def)
  have "conns (w\<lparr>router := r'\<rparr>) cid = Some c" using assms(2) by simp
  from msgpack_sizes.fwdRes_answers [OF assms(1) this assms(3)
      msgpack_sizes.response_encode_ok [OF assms(1) rep rep we], of mid]
  obtain c' where f: "fwdRes M (cid, mid) r e (w\<lparr>router := r'\<rparr>)
      = w\<lparr>router := r', conns := (conns w)(cid \<mapsto> c')\<rparr>"
    and s: "sends M (fitted_response M c mid e r) c c'" by auto
  with h eff int show ?thesis by metis
qed

text \<open>
  C10. The connection loop ends on every finite input unless a handler panics or never returns;
  when it ends, the
  connection owns no route any more and is closed, while the routes of all other connections,
  and those connections themselves, are as the handling of its messages left them.
\<close>

theorem connection_loop_cleanup:
  assumes "msgpack_progress M" and "length s < fuel"
  shows "\<exists>r. connectionLoop M cid out fuel s w = Some r \<and>
     (\<forall>w'. r = Running w' \<longrightarrow>
        (\<exists>w1. Run M True (router_handlers M cid) fuel s (Running (acceptConnection cid out w))
                = Some (Stopped (Running w1))
           \<and> routes (router w') = (\<lambda>m. if routes (router w1) m = Some cid then None else routes (router w1) m)
           \<and> (\<forall>d. d \<noteq> cid \<longrightarrow> conns w' d = conns w1 d))
        \<and> (\<forall>m. routes (router w') m \<noteq> Some cid)
        \<and> (\<forall>c'. conns w' cid = Some c' \<longrightarrow> out_closed (conn_out c') \<and> in_closed c'))"
proof -
  from msgpack_progress.Run_terminates [OF assms, of True "router_handlers M cid"
      "Running (acceptConnection cid out w)"] obtain r1 where
    run: "Run M True (router_handlers M cid) fuel s (Running (acceptConnection cid out w)) = Some (Stopped r1)"
    by blast
  show ?thesis
  proof (cases r1)
    case (Running w1)
    with run show ?thesis
      by (auto simp: connectionLoop_def terminateConnection_def removeMethodsFromConnection_def
            Close_def stream_Close_def)
  next
    case Crashed
    with run show ?thesis by (simp add: connectionLoop_def)
  next
    case Hung
    with run show ?thesis by (simp add: connectionLoop_def)
  qed
qed

theorem connection_loop_cleanup_witness:
  "\<exists>r. connectionLoop mp_codec 1 new_stream 2 [0xc0] two_clients = Some r"
  using connection_loop_cleanup [OF mp.msgpack_progress_axioms, of "[0xc0]" 2 1 new_stream two_clients] by auto

text \<open>
  A size beyond what the allocator can provide (here \<open>2 ^ 62\<close>) passes the checks of
  \<open>$/setMaxMsgSize\<close> and panics in the allocation of the buffer.
\<close>

lemma set_max_huge_crashes:
  assumes "conns w cid = Some c"
  shows "handleRequest M cid mid ''$/setMaxMsgSize'' [GoInt64 (2 ^ 62)] w = Crashed
     \<and> handleNotification M cid ''$/setMaxMsgSize'' [GoInt64 (2 ^ 62)] w = Crashed"
proof -
  have "checkMaxMsgSize [GoInt64 (2 ^ 62)] = Inr (2 ^ 62)" by (simp add: checkMaxMsgSize_def)
  moreover have "setMaxMsgSize cid (2 ^ 62) w = Crashed"
    using assms by (simp add: setMaxMsgSize_def SetMaxOutgoingMessageSize_def NewLimitedBuffer_def
          make_bytes_def maxAlloc_def)
  moreover have "decoded_params M [GoInt64 (2 ^ 62)] = [GoInt64 (2 ^ 62)]"
    by (simp add: decoded_params_eq decode_param_def)
  ultimately show ?thesis
    by (simp add: handleRequest_def handleNotification_def run_builtin_def builtin_setMaxMsgSize_def answer_def)
qed

end
