(* ===== verification/Router_System.thy ===== *)
theory Router_System
  imports Router_Calls
begin

text \<open>
  The router as a system of concurrent connection loops. Every connection has one goroutine
  that reads its messages one after the other; the goroutines interleave at the points where
  the code takes or releases a lock: between the lookup of the client for a method
  (\<open>routesLock\<close>), the reservation of a request ID on that client's connection
  (\<open>activeOutRequestsMutex\<close>) and the write to it (\<open>outMutex\<close>). The state remembers which
  requests were received and which were answered.
\<close>

section \<open>The parts of a forwarded request\<close>

definition forward_error :: "goerror \<Rightarrow> any" where
  "forward_error err =
     (if Is_ErrBufferLimitExceeded err then too_large
      else routerError ErrCodeFailedToSendRequests (''failed to send request: '' @ Error err))"

lemma forwardRequest_parts:
  "conns w client = Some c \<Longrightarrow>
     forwardRequest M client caller method raw w =
       (case reserveRequest method caller c of
          (mid, c1) \<Rightarrow>
            (case transmitRequest M mid method raw c1 of
               (None, c2) \<Rightarrow> w\<lparr>conns := (conns w)(client \<mapsto> c2)\<rparr>
             | (Some err, c2) \<Rightarrow>
                 fwdRes M caller GoNil (forward_error err) (w\<lparr>conns := (conns w)(client \<mapsto> c2)\<rparr>)))"
  by (simp add: forwardRequest_def on_conn_def SendRequestWithAsyncResult_def sendRequest_parts
        forward_error_def split: prod.split option.split)

section \<open>States and steps\<close>

text \<open>
  What the goroutine of a connection is in the middle of: it has looked up the client for a
  request, it has reserved the ID on the client's connection, or it has looked up the client
  for a notification.
\<close>

datatype task =
    LookedUp conn_id MessageID string "any list"
  | Reserved conn_id MessageID MessageID string "any list"
  | NotifyLookedUp conn_id string "any list"

record 's system =
  wrld :: "'s world"
  alive :: "conn_id set"
  busy :: "conn_id \<rightharpoonup> task"
  received :: "reply list"
  answered :: "reply list"
  failures :: "reply list"

definition idle :: "conn_id \<Rightarrow> 's system \<Rightarrow> bool" where
  "idle cid s \<longleftrightarrow> cid \<in> alive s \<and> busy s cid = None"

definition set_conn :: "conn_id \<Rightarrow> reply Connection \<Rightarrow> 's world \<Rightarrow> 's world" where
  "set_conn cid c w = w\<lparr>conns := (conns w)(cid \<mapsto> c)\<rparr>"

inductive sys_step :: "msgpack \<Rightarrow> 's system \<Rightarrow> 's system \<Rightarrow> bool" for M :: msgpack where
  accept:
    "\<lbrakk> conns (wrld s) cid = None; \<not> out_closed out \<rbrakk> \<Longrightarrow>
     sys_step M s (s\<lparr>wrld := acceptConnection cid out (wrld s), alive := insert cid (alive s)\<rparr>)"
| local_request:
    "\<lbrakk> idle cid s; \<not> client_method method (wrld s);
       handleRequest M cid mid method raw (wrld s) = Running w \<rbrakk> \<Longrightarrow>
     sys_step M s (s\<lparr>wrld := w, received := received s @ [(cid, mid)],
                     answered := answered s @ [(cid, mid)]\<rparr>)"
| unavailable:
    "\<lbrakk> idle cid s; client_method method (wrld s); getConnectionForMethod method (router (wrld s)) = None \<rbrakk> \<Longrightarrow>
     sys_step M s (s\<lparr>wrld := routeRequest M (cid, mid) method raw (wrld s),
                     received := received s @ [(cid, mid)], answered := answered s @ [(cid, mid)]\<rparr>)"
| lookup:
    "\<lbrakk> idle cid s; client_method method (wrld s);
       getConnectionForMethod method (router (wrld s)) = Some b \<rbrakk> \<Longrightarrow>
     sys_step M s (s\<lparr>busy := (busy s)(cid \<mapsto> LookedUp b mid method raw),
                     received := received s @ [(cid, mid)]\<rparr>)"
| reserve:
    "\<lbrakk> busy s cid = Some (LookedUp b mid method raw); conns (wrld s) b = Some c;
       reserveRequest method (cid, mid) c = (bid, c') \<rbrakk> \<Longrightarrow>
     sys_step M s (s\<lparr>wrld := set_conn b c' (wrld s),
                     busy := (busy s)(cid \<mapsto> Reserved b mid bid method raw)\<rparr>)"
| transmit:
    "\<lbrakk> busy s cid = Some (Reserved b mid bid method raw); conns (wrld s) b = Some c;
       transmitRequest M bid method raw c = (None, c') \<rbrakk> \<Longrightarrow>
     sys_step M s (s\<lparr>wrld := set_conn b c' (wrld s), busy := (busy s)(cid := None)\<rparr>)"
| transmit_fail:
    "\<lbrakk> busy s cid = Some (Reserved b mid bid method raw); conns (wrld s) b = Some c;
       transmitRequest M bid method raw c = (Some err, c') \<rbrakk> \<Longrightarrow>
     sys_step M s (s\<lparr>wrld := fwdRes M (cid, mid) GoNil (forward_error err) (set_conn b c' (wrld s)),
                     busy := (busy s)(cid := None), answered := answered s @ [(cid, mid)],
                     failures := failures s @ [(cid, mid)]\<rparr>)"
| response:
    "\<lbrakk> idle cid s; conns (wrld s) cid = Some c; handleIncomingResponse mid c = (Inr caller, c') \<rbrakk> \<Longrightarrow>
     sys_step M s (s\<lparr>wrld := handleResponse M cid mid err result (wrld s),
                     answered := answered s @ [caller]\<rparr>)"
| stray_response:
    "\<lbrakk> idle cid s; conns (wrld s) cid = Some c; handleIncomingResponse mid c = (Inl e, c') \<rbrakk> \<Longrightarrow>
     sys_step M s (s\<lparr>wrld := handleResponse M cid mid err result (wrld s)\<rparr>)"
| local_notification:
    "\<lbrakk> idle cid s; method = ''$/setMaxMsgSize'' \<or> routesInternal (router (wrld s)) method \<noteq> None
         \<or> getConnectionForMethod method (router (wrld s)) = None;
       handleNotification M cid method raw (wrld s) = Running w \<rbrakk> \<Longrightarrow>
     sys_step M s (s\<lparr>wrld := w\<rparr>)"
| notification_lookup:
    "\<lbrakk> idle cid s; method \<noteq> ''$/setMaxMsgSize''; routesInternal (router (wrld s)) method = None;
       getConnectionForMethod method (router (wrld s)) = Some b \<rbrakk> \<Longrightarrow>
     sys_step M s (s\<lparr>busy := (busy s)(cid \<mapsto> NotifyLookedUp b method raw)\<rparr>)"
| notification_forward:
    "busy s cid = Some (NotifyLookedUp b method raw) \<Longrightarrow>
     sys_step M s (s\<lparr>wrld := forwardNotification M b method raw (wrld s), busy := (busy s)(cid := None)\<rparr>)"
| terminate:
    "idle cid s \<Longrightarrow>
     sys_step M s (s\<lparr>wrld := terminateConnection cid (wrld s), alive := alive s - {cid}\<rparr>)"
| peer_fails:
    "conns (wrld s) cid = Some c \<Longrightarrow>
     sys_step M s (s\<lparr>wrld := set_conn cid (c\<lparr>conn_out := (conn_out c)\<lparr>capacity := k, fail_with := e\<rparr>\<rparr>) (wrld s)\<rparr>)"

definition initial :: "(string \<rightharpoonup> 's RouterRequestHandler) \<Rightarrow> 's \<Rightarrow> 's system" where
  "initial internal st =
     \<lparr>wrld = \<lparr>router = (New :: 's Router)\<lparr>routesInternal := internal\<rparr>, conns = Map.empty, app = st\<rparr>,
      alive = {}, busy = Map.empty, received = [], answered = [], failures = []\<rparr>"

inductive sys_reachable :: "msgpack \<Rightarrow> 's system \<Rightarrow> bool" for M :: msgpack where
  start: "sys_reachable M (initial internal st)"
| step: "\<lbrakk> sys_reachable M s; sys_step M s s' \<rbrakk> \<Longrightarrow> sys_reachable M s'"

section \<open>What sending leaves alone\<close>

definition cframe :: "reply Connection \<Rightarrow> reply Connection \<Rightarrow> bool" where
  "cframe c c' \<longleftrightarrow>
     activeOutRequests c' = activeOutRequests c \<and> in_closed c' = in_closed c \<and>
     out_closed (conn_out c') = out_closed (conn_out c) \<and>
     (conn_inv c \<and> limit_ok c \<longrightarrow> conn_inv c' \<and> limit_ok c')"

definition wframe :: "'s world \<Rightarrow> 's world \<Rightarrow> bool" where
  "wframe w w' \<longleftrightarrow> (\<forall>cid. rel_option cframe (conns w cid) (conns w' cid))"

lemma cframe_refl [simp]: "cframe c c"
  by (simp add: cframe_def)

lemma wframe_refl [simp]: "wframe w w"
  by (simp add: wframe_def option.rel_refl)

lemma cframe_trans: "\<lbrakk> cframe c1 c2; cframe c2 c3 \<rbrakk> \<Longrightarrow> cframe c1 c3"
  by (simp add: cframe_def)

lemma wframe_trans [trans]:
  assumes "wframe w1 w2" and "wframe w2 w3"
  shows "wframe w1 w3"
  unfolding wframe_def
proof
  fix cid
  have "rel_option cframe (conns w1 cid) (conns w2 cid)" "rel_option cframe (conns w2 cid) (conns w3 cid)"
    using assms by (auto simp: wframe_def)
  then show "rel_option cframe (conns w1 cid) (conns w3 cid)"
    by (cases "conns w1 cid"; cases "conns w2 cid"; cases "conns w3 cid") (auto intro: cframe_trans)
qed

lemma wframe_conns: "conns w = conns w' \<Longrightarrow> wframe w w'"
  by (simp add: wframe_def option.rel_refl)

lemma wframe_set_conn: "\<lbrakk> conns w cid = Some c; cframe c c' \<rbrakk> \<Longrightarrow> wframe w (set_conn cid c' w)"
  by (simp add: wframe_def set_conn_def option.rel_refl)

lemma write_chunks_keeps_closed:
  "write_chunks stream_Write st ps = (e, st') \<Longrightarrow> out_closed st' = out_closed st"
  by (induction ps arbitrary: st)
     (auto split: prod.splits option.splits dest: stream_Write_keeps_closed)

lemma send_keeps_closed:
  "send M data c = (e, c') \<Longrightarrow> out_closed (conn_out c') = out_closed (conn_out c)"
  by (auto simp: send_def encode_to_def split: option.splits prod.splits
       dest: write_chunks_keeps_closed stream_Write_keeps_closed)

lemma cframe_send: "send M data c = (e, c') \<Longrightarrow> cframe c c'"
  using send_frame [of M data c e c'] conn_inv_send [of c M data e c'] limit_ok_cong [of c' c]
    send_keeps_closed [of M data c e c']
  by (simp add: cframe_def) blast

lemma on_conn_frame:
  assumes "\<And>c e c'. f c = (e, c') \<Longrightarrow> cframe c c'" and "on_conn cid f w = (e, w')"
  shows "wframe w w' \<and> router w' = router w"
proof (cases "conns w cid")
  case None
  with assms(2) show ?thesis by (simp add: on_conn_def)
next
  case (Some c)
  obtain e1 c' where f: "f c = (e1, c')" by (metis prod.exhaust)
  with Some assms(2) have "w' = set_conn cid c' w" by (simp add: on_conn_def set_conn_def)
  with wframe_set_conn [OF Some assms(1) [OF f]] show ?thesis by (simp add: set_conn_def)
qed

lemma respond_frame:
  "on_conn cid (sendResponse M mid result err) w = (e, w') \<Longrightarrow> wframe w w' \<and> router w' = router w"
  by (rule on_conn_frame [rotated]) (auto simp: sendResponse_def dest: cframe_send)

lemma fwdRes_frame: "wframe w (fwdRes M caller result err w) \<and> router (fwdRes M caller result err w) = router w"
proof -
  obtain e w1 where 1: "on_conn (fst caller) (sendResponse M (snd caller) result err) w = (e, w1)"
    by (metis prod.exhaust)
  obtain e' w2 where 2: "on_conn (fst caller) (sendResponse M (snd caller) GoNil too_large) w1 = (e', w2)"
    by (metis prod.exhaust)
  from respond_frame [OF 1] respond_frame [OF 2] 1 2 show ?thesis
    by (auto simp: fwdRes_def split: option.split intro: wframe_trans)
qed

lemma forwardNotification_frame:
  "wframe w (forwardNotification M b method raw w) \<and> router (forwardNotification M b method raw w) = router w"
proof -
  obtain e w1 where 1: "on_conn b (SendNotification M method raw) w = (e, w1)" by (metis prod.exhaust)
  have "wframe w w1 \<and> router w1 = router w"
    by (rule on_conn_frame [OF _ 1])
       (auto simp: SendNotification_def split: prod.splits option.splits dest: cframe_send)
  with 1 show ?thesis by (simp add: forwardNotification_def)
qed

lemma cframe_SetMax: "\<lbrakk> SetMaxOutgoingMessageSize n c = Some c'; 127 < n \<rbrakk> \<Longrightarrow> cframe c c'"
  using conn_inv_SetMax [of c n c']
  by (auto simp: SetMaxOutgoingMessageSize_def cframe_def limit_ok_def split: option.splits
       dest: NewLimitedBuffer_fields)

lemma checkMaxMsgSize_bound: "checkMaxMsgSize ps = Inr n \<Longrightarrow> 127 < n"
  by (auto simp: checkMaxMsgSize_def split: if_splits option.splits)

lemma setMaxMsgSize_frame:
  "\<lbrakk> setMaxMsgSize cid n w = Running w'; 127 < n \<rbrakk> \<Longrightarrow> wframe w w' \<and> router w' = router w"
  by (auto simp: setMaxMsgSize_def wframe_def option.rel_refl split: option.splits intro: cframe_SetMax)

text \<open>What a message of connection \<open>cid\<close> may do to the routing table.\<close>

definition routes_by :: "conn_id \<Rightarrow> 's Router \<Rightarrow> 's Router \<Rightarrow> bool" where
  "routes_by cid r r' \<longleftrightarrow>
     (\<forall>m d. routes r' m = Some d \<longrightarrow> d = cid \<or> routes r m = Some d) \<and> routesInternal r' = routesInternal r"

definition local_frame :: "conn_id \<Rightarrow> 's world \<Rightarrow> 's world \<Rightarrow> bool" where
  "local_frame cid w w' \<longleftrightarrow> wframe w w' \<and> routes_by cid (router w) (router w')"

lemma routes_by_refl [simp]: "routes_by cid r r"
  by (simp add: routes_by_def)

lemma local_frame_refl [simp]: "local_frame cid w w"
  by (simp add: local_frame_def)

lemma local_frameI: "\<lbrakk> wframe w w' \<and> router w' = router w \<rbrakk> \<Longrightarrow> local_frame cid w w'"
  by (simp add: local_frame_def)

lemma builtin_register_frame: "builtin_register ps cid w = (r, w') \<Longrightarrow> local_frame cid w w'"
  by (auto simp: builtin_register_def registerMethod_def local_frame_def routes_by_def
       split: if_splits option.splits intro: wframe_conns)

lemma builtin_unregister_frame: "builtin_unregister ps cid w = (r, w') \<Longrightarrow> local_frame cid w w'"
  by (auto simp: builtin_unregister_def removeSingleMethodFromConnection_def local_frame_def routes_by_def
       split: if_splits option.splits intro: wframe_conns)

lemma builtin_reset_frame: "builtin_reset ps cid w = (r, w') \<Longrightarrow> local_frame cid w w'"
  by (auto simp: builtin_reset_def removeMethodsFromConnection_def local_frame_def routes_by_def
       split: if_splits intro: wframe_conns)

lemma builtin_setMax_frame: "builtin_setMaxMsgSize ps cid w = Running (r, w') \<Longrightarrow> local_frame cid w w'"
  by (auto simp: builtin_setMaxMsgSize_def split: sum.splits outcome.splits
       intro!: local_frameI dest: checkMaxMsgSize_bound setMaxMsgSize_frame)

lemma call_internal_frame: "call_internal h cid ps w = Running (r, w') \<Longrightarrow> local_frame cid w w'"
  by (auto simp: call_internal_def local_frame_def split: prod.splits handler_result.splits
       intro: wframe_conns)

lemma run_builtin_frame:
  "run_builtin method ps cid w = Some (Running (r, w')) \<Longrightarrow> local_frame cid w w'"
  by (auto simp: run_builtin_def split: if_splits
       dest: builtin_register_frame builtin_unregister_frame builtin_reset_frame builtin_setMax_frame)

lemma answer_frame:
  assumes "answer M caller out = Running w'" and "\<And>r w1. out = Running (r, w1) \<Longrightarrow> local_frame cid w w1"
  shows "local_frame cid w w'"
proof -
  from assms(1) obtain result err w1 where o: "out = Running ((result, err), w1)"
    and w': "w' = fwdRes M caller result err w1"
    by (auto simp: answer_def split: outcome.splits)
  from assms(2) [OF o] fwdRes_frame [of w1 M caller result err] w' show ?thesis
    by (auto simp: local_frame_def intro: wframe_trans)
qed

lemma handleRequest_local_frame:
  assumes "\<not> client_method method w" and "handleRequest M cid mid method raw w = Running w'"
  shows "local_frame cid w w'"
proof (cases "run_builtin method (decoded_params M raw) cid w")
  case (Some out)
  with assms(2) have "answer M (cid, mid) out = Running w'" by (simp add: handleRequest_def)
  then show ?thesis by (rule answer_frame) (use Some run_builtin_frame in blast)
next
  case None
  with assms(1) obtain h where h: "routesInternal (router w) method = Some h"
    by (auto simp: client_method_def run_builtin_None)
  with None assms(2) have "answer M (cid, mid) (call_internal h cid (decoded_params M raw) w) = Running w'"
    by (simp add: handleRequest_def)
  then show ?thesis by (rule answer_frame) (rule call_internal_frame)
qed

lemma handleNotification_local_frame:
  assumes "method = ''$/setMaxMsgSize'' \<or> routesInternal (router w) method \<noteq> None
      \<or> getConnectionForMethod method (router w) = None"
    and "handleNotification M cid method raw w = Running w'"
  shows "local_frame cid w w'"
  using assms
  by (auto simp: handleNotification_def split: if_splits sum.splits option.splits outcome.splits
       intro: call_internal_frame local_frameI [OF setMaxMsgSize_frame] dest: checkMaxMsgSize_bound)

lemma routeRequest_none_frame:
  "getConnectionForMethod method (router w) = None \<Longrightarrow>
     wframe w (routeRequest M caller method raw w) \<and> router (routeRequest M caller method raw w) = router w"
  by (simp add: routeRequest_def fwdRes_frame)

section \<open>Routes lead to live connections\<close>

fun task_client :: "task \<Rightarrow> conn_id" where
  "task_client (LookedUp b mid method raw) = b"
| "task_client (Reserved b mid bid method raw) = b"
| "task_client (NotifyLookedUp b method raw) = b"

definition conns_ok :: "'s world \<Rightarrow> conn_id set \<Rightarrow> bool" where
  "conns_ok w A \<longleftrightarrow>
     (\<forall>d \<in> A. \<exists>c. conns w d = Some c) \<and>
     (\<forall>d c. conns w d = Some c \<longrightarrow>
        conn_inv c \<and> limit_ok c \<and> (d \<in> A \<longleftrightarrow> \<not> in_closed c) \<and> (d \<in> A \<longleftrightarrow> \<not> out_closed (conn_out c)))"

definition live_inv :: "'s system \<Rightarrow> bool" where
  "live_inv s \<longleftrightarrow>
     conns_ok (wrld s) (alive s) \<and>
     (\<forall>m d. routes (router (wrld s)) m = Some d \<longrightarrow> d \<in> alive s) \<and>
     (\<forall>cid t. busy s cid = Some t \<longrightarrow> cid \<in> alive s \<and> conns (wrld s) (task_client t) \<noteq> None)"

lemma wframe_Some: "\<lbrakk> wframe w w'; conns w' d = Some c' \<rbrakk> \<Longrightarrow> \<exists>c. conns w d = Some c \<and> cframe c c'"
  by (metis wframe_def option.rel_cases option.distinct(1) option.inject)

lemma wframe_None: "wframe w w' \<Longrightarrow> conns w' d = None \<longleftrightarrow> conns w d = None"
  by (metis wframe_def option.rel_distinct(1,2) not_None_eq)

lemma conns_ok_wframe: "\<lbrakk> conns_ok w A; wframe w w' \<rbrakk> \<Longrightarrow> conns_ok w' A"
proof -
  assume ok: "conns_ok w A" and f: "wframe w w'"
  have "\<exists>c. conns w' d = Some c" if "d \<in> A" for d
    using ok wframe_None [OF f, of d] that by (auto simp: conns_ok_def)
  moreover have "conn_inv c' \<and> limit_ok c' \<and> (d \<in> A \<longleftrightarrow> \<not> in_closed c') \<and> (d \<in> A \<longleftrightarrow> \<not> out_closed (conn_out c'))"
    if "conns w' d = Some c'" for d c'
    using wframe_Some [OF f that] ok by (auto simp: conns_ok_def cframe_def)
  ultimately show ?thesis by (auto simp: conns_ok_def)
qed

lemma live_inv_frame:
  assumes "live_inv s" and "wframe (wrld s) w" and "\<And>m d. routes (router w) m = Some d \<Longrightarrow> d \<in> alive s"
    and "\<And>cid t. busy s' cid = Some t \<Longrightarrow> cid \<in> alive s \<and> conns (wrld s) (task_client t) \<noteq> None"
    and "wrld s' = w" "alive s' = alive s"
  shows "live_inv s'"
  unfolding live_inv_def assms(5,6)
  using assms(1,3,4) conns_ok_wframe [OF _ assms(2)] wframe_None [OF assms(2)]
  by (simp add: live_inv_def)

lemma live_inv_local:
  assumes "live_inv s" and "idle cid s" and "local_frame cid (wrld s) w"
    and "wrld s' = w" "alive s' = alive s" "busy s' = busy s"
  shows "live_inv s'"
proof (rule live_inv_frame [OF assms(1) _ _ _ assms(4,5)])
  show "wframe (wrld s) w" using assms(3) by (simp add: local_frame_def)
  show "d \<in> alive s" if "routes (router w) m = Some d" for m d
    using that assms(1-3) unfolding live_inv_def local_frame_def routes_by_def idle_def by blast
  show "cid \<in> alive s \<and> conns (wrld s) (task_client t) \<noteq> None" if "busy s' cid = Some t" for cid t
    using that assms(1,6) by (simp add: live_inv_def)
qed

text \<open>Steps of a busy goroutine: the world is framed, the table is unchanged, at most the task changes.\<close>

lemma live_inv_task:
  assumes "live_inv s" and "wframe (wrld s) w \<and> router w = router (wrld s)" and "busy s cid = Some t"
    and "wrld s' = w" "alive s' = alive s"
    and "busy s' = (busy s)(cid := t')" and "\<And>x. t' = Some x \<Longrightarrow> task_client x = task_client t"
  shows "live_inv s'"
  by (rule live_inv_frame [OF assms(1) _ _ _ assms(4,5)])
     (use assms in \<open>auto simp: live_inv_def split: if_splits\<close>)

lemma live_inv_lookup:
  assumes "live_inv s" and "idle cid s" and "getConnectionForMethod m (router (wrld s)) = Some b"
    and "task_client t = b" "wrld s' = wrld s" "alive s' = alive s" "busy s' = (busy s)(cid \<mapsto> t)"
  shows "live_inv s'"
  by (rule live_inv_frame [OF assms(1) wframe_refl _ _ assms(5,6)])
     (use assms in \<open>auto simp: live_inv_def conns_ok_def getConnectionForMethod_def idle_def split: if_splits\<close>)

lemma cframe_transmit: "transmitRequest M mid method raw c = (None, c') \<Longrightarrow> cframe c c'"
  by (auto simp: transmitRequest_def split: prod.splits option.splits dest: cframe_send)

text \<open>The updates that also change the pending requests keep the rest of the connection.\<close>

definition cframe_pending :: "reply Connection \<Rightarrow> reply Connection \<Rightarrow> bool" where
  "cframe_pending c c' \<longleftrightarrow>
     in_closed c' = in_closed c \<and> out_closed (conn_out c') = out_closed (conn_out c) \<and>
     (conn_inv c \<and> limit_ok c \<longrightarrow> conn_inv c' \<and> limit_ok c')"

lemma cframe_pending_reserve: "reserveRequest m k c = (mid, c') \<Longrightarrow> cframe_pending c c'"
  using conn_inv_reserve [of c m k mid c']
  by (auto simp: cframe_pending_def reserveRequest_def Let_def limit_ok_def)

lemma cframe_pending_delete: "cframe_pending c (c\<lparr>activeOutRequests := (activeOutRequests c)(mid := None)\<rparr>)"
  by (auto simp: cframe_pending_def conn_inv_def limit_ok_def split: if_splits)

lemma cframe_pending_trans: "\<lbrakk> cframe c c1; cframe_pending c1 c2 \<rbrakk> \<Longrightarrow> cframe_pending c c2"
  by (simp add: cframe_def cframe_pending_def)

lemma cframe_pending_fail:
  assumes "transmitRequest M mid method raw c = (Some err, c')"
  shows "cframe_pending c c'"
proof -
  from assms obtain e c1 where "send M (request_message mid method raw) c = (Some e, c1)"
    and c': "c' = c1\<lparr>activeOutRequests := (activeOutRequests c1)(mid := None)\<rparr>"
    by (auto simp: transmitRequest_def split: prod.splits option.splits)
  from cframe_pending_trans [OF cframe_send [OF this(1)] cframe_pending_delete] show ?thesis
    unfolding c' .
qed

lemma cframe_pending_refl [simp]: "cframe_pending c c"
  by (simp add: cframe_pending_def)

lemma cframe_pending_response: "handleIncomingResponse mid c = (r, c') \<Longrightarrow> cframe_pending c c'"
  using cframe_pending_delete [of c mid] by (auto simp: handleIncomingResponse_def split: option.splits)

lemma live_inv_set_conn:
  assumes "live_inv s" and "conns (wrld s) b = Some c" and "cframe_pending c c'"
  shows "live_inv (s\<lparr>wrld := set_conn b c' (wrld s)\<rparr>)"
  using assms by (auto simp: live_inv_def conns_ok_def set_conn_def cframe_pending_def)

lemma live_inv_fwdRes:
  assumes "live_inv s" and "wrld s' = fwdRes M caller result err (wrld s)" "alive s' = alive s"
    and "\<And>cid t. busy s' cid = Some t \<Longrightarrow> busy s cid = Some t"
  shows "live_inv s'"
proof (rule live_inv_frame [OF assms(1) _ _ _ assms(2,3)])
  show "wframe (wrld s) (fwdRes M caller result err (wrld s))" using fwdRes_frame by blast
  show "d \<in> alive s" if "routes (router (fwdRes M caller result err (wrld s))) m = Some d" for m d
    using that assms(1) fwdRes_frame [of "wrld s" M caller result err] by (auto simp: live_inv_def)
  show "cid \<in> alive s \<and> conns (wrld s) (task_client t) \<noteq> None" if "busy s' cid = Some t" for cid t
    using assms(1,4) that unfolding live_inv_def by blast
qed

lemma handleResponse_found:
  "\<lbrakk> conns w cid = Some c; handleIncomingResponse mid c = (Inr caller, c') \<rbrakk> \<Longrightarrow>
     handleResponse M cid mid err result w = fwdRes M caller result err (set_conn cid c' w)"
  by (simp add: handleResponse_def set_conn_def)

lemma handleResponse_stray:
  "\<lbrakk> conns w cid = Some c; handleIncomingResponse mid c = (Inl e, c') \<rbrakk> \<Longrightarrow>
     handleResponse M cid mid err result w = set_conn cid c' w \<and> c' = c"
  by (auto simp: handleResponse_def set_conn_def handleIncomingResponse_def split: option.splits)

lemma cframe_capacity: "cframe c (c\<lparr>conn_out := (conn_out c)\<lparr>capacity := k, fail_with := e\<rparr>\<rparr>)"
  by (simp add: cframe_def conn_inv_def limit_ok_def)

lemma live_inv_accept:
  assumes "live_inv s" and "conns (wrld s) cid = None" and "\<not> out_closed out"
  shows "live_inv (s\<lparr>wrld := acceptConnection cid out (wrld s), alive := insert cid (alive s)\<rparr>)"
proof -
  let ?c = "SetKeepParamsAndResponsesAsRaw True (NewConnection out) :: reply Connection"
  have "conn_inv ?c" by (rule conn_inv_SetKeep) simp
  moreover have "limit_ok ?c" "\<not> in_closed ?c" "conn_out ?c = out"
    by (simp_all add: limit_ok_def SetKeepParamsAndResponsesAsRaw_def NewConnection_def)
  ultimately show ?thesis
    using assms by (auto simp: live_inv_def conns_ok_def acceptConnection_def)
qed

lemma live_inv_terminate:
  assumes "live_inv s" and "idle cid s"
  shows "live_inv (s\<lparr>wrld := terminateConnection cid (wrld s), alive := alive s - {cid}\<rparr>)"
proof -
  have "limit_ok (Close c) = limit_ok c" for c :: "reply Connection" by (simp add: limit_ok_def Close_def)
  moreover have "in_closed (Close c)" "out_closed (conn_out (Close c))" for c :: "reply Connection"
    by (simp_all add: Close_def stream_Close_def)
  ultimately show ?thesis
    using assms
    by (auto simp: live_inv_def conns_ok_def terminateConnection_def removeMethodsFromConnection_def idle_def
          conn_inv_Close split: if_splits)
qed

lemma sys_step_live_inv: "\<lbrakk> sys_step M s s'; live_inv s \<rbrakk> \<Longrightarrow> live_inv s'"
proof (induction rule: sys_step.induct)
  case (accept s cid out)
  then show ?case by (blast intro: live_inv_accept)
next
  case (local_request cid s m mid raw w)
  show ?case
    by (rule live_inv_local [OF local_request.prems local_request.hyps(1)
          handleRequest_local_frame [OF local_request.hyps(2,3)]]) simp_all
next
  case (unavailable cid s m mid raw)
  show ?case
    by (rule live_inv_local [OF unavailable.prems unavailable.hyps(1)
          local_frameI [OF routeRequest_none_frame [OF unavailable.hyps(3)]]]) simp_all
next
  case (lookup cid s m b mid raw)
  show ?case
    by (rule live_inv_lookup [OF lookup.prems lookup.hyps(1,3), of "LookedUp b mid m raw"]) simp_all
next
  case (reserve s cid b mid m raw c bid c')
  have "live_inv (s\<lparr>wrld := set_conn b c' (wrld s)\<rparr>)"
    by (rule live_inv_set_conn [OF reserve.prems reserve.hyps(2) cframe_pending_reserve [OF reserve.hyps(3)]])
  then show ?case
    by (rule live_inv_task [where t = "LookedUp b mid m raw" and cid = cid
          and t' = "Some (Reserved b mid bid m raw)"]) (use reserve.hyps(1) in simp_all)
next
  case (transmit s cid b mid bid m raw c c')
  show ?case
    by (rule live_inv_task [OF transmit.prems conjI [OF wframe_set_conn [OF transmit.hyps(2)
          cframe_transmit [OF transmit.hyps(3)]]] transmit.hyps(1), where t' = None]) (simp_all add: set_conn_def)
next
  case (transmit_fail s cid b mid bid m raw c err c')
  have "live_inv (s\<lparr>wrld := set_conn b c' (wrld s)\<rparr>)"
    by (rule live_inv_set_conn [OF transmit_fail.prems transmit_fail.hyps(2)
          cframe_pending_fail [OF transmit_fail.hyps(3)]])
  then show ?case by (rule live_inv_fwdRes) (auto split: if_splits)
next
  case (response cid s c mid caller c' err result)
  have "live_inv (s\<lparr>wrld := set_conn cid c' (wrld s)\<rparr>)"
    by (rule live_inv_set_conn [OF response.prems response.hyps(2) cframe_pending_response [OF response.hyps(3)]])
  then show ?case
    by (rule live_inv_fwdRes) (use handleResponse_found [OF response.hyps(2,3)] in simp_all)
next
  case (stray_response cid s c mid e c' err result)
  have "live_inv (s\<lparr>wrld := set_conn cid c' (wrld s)\<rparr>)"
    by (rule live_inv_set_conn [OF stray_response.prems stray_response.hyps(2)
          cframe_pending_response [OF stray_response.hyps(3)]])
  then show ?case using handleResponse_stray [OF stray_response.hyps(2,3), of M err result] by simp
next
  case (local_notification cid s m raw w)
  show ?case
    by (rule live_inv_local [OF local_notification.prems local_notification.hyps(1)
          handleNotification_local_frame [OF local_notification.hyps(2,3)]]) simp_all
next
  case (notification_lookup cid s m b raw)
  show ?case
    by (rule live_inv_lookup [OF notification_lookup.prems notification_lookup.hyps(1,4),
          of "NotifyLookedUp b m raw"]) simp_all
next
  case (notification_forward s cid b m raw)
  show ?case
    by (rule live_inv_task [OF notification_forward.prems forwardNotification_frame notification_forward.hyps,
          where t' = None]) simp_all
next
  case (terminate cid s)
  then show ?case by (blast intro: live_inv_terminate)
next
  case (peer_fails s cid c e k)
  show ?case
    by (rule live_inv_frame [OF peer_fails.prems wframe_set_conn [OF peer_fails.hyps cframe_capacity]])
       (use peer_fails.prems in \<open>auto simp: live_inv_def set_conn_def\<close>)
qed

lemma sys_reachable_live_inv: "sys_reachable M s \<Longrightarrow> live_inv s"
proof (induction rule: sys_reachable.induct)
  case (start internal st)
  show ?case by (simp add: live_inv_def initial_def conns_ok_def New_def)
qed (rule sys_step_live_inv)

section \<open>Every request is answered at most once\<close>

text \<open>The requests that wait for an answer to be passed on to \<open>r\<close>, and whether one is about to be forwarded.\<close>

definition pending_of :: "'s world \<Rightarrow> reply \<Rightarrow> (conn_id \<times> MessageID) set" where
  "pending_of w r =
     {(b, m). \<exists>c req. conns w b = Some c \<and> activeOutRequests c m = Some req \<and> req_res req = r}"

definition waiting :: "'s system \<Rightarrow> reply \<Rightarrow> nat" where
  "waiting s r =
     (case busy s (fst r) of
        Some (LookedUp b mid method raw) \<Rightarrow> if mid = snd r then 1 else 0
      | _ \<Rightarrow> 0)"

definition count_ok :: "'s system \<Rightarrow> reply \<Rightarrow> bool" where
  "count_ok s r \<longleftrightarrow>
     finite (pending_of (wrld s) r) \<and>
     count_list (answered s) r + card (pending_of (wrld s) r) + waiting s r
       \<le> count_list (received s) r + count_list (failures s) r"

lemma pending_of_alt:
  "pending_of w r = {(b, m). \<exists>a req. map_option activeOutRequests (conns w b) = Some a
     \<and> a m = Some req \<and> req_res req = r}"
  by (auto simp: pending_of_def)

lemma pending_of_cong:
  "(\<And>b. map_option activeOutRequests (conns w' b) = map_option activeOutRequests (conns w b)) \<Longrightarrow>
     pending_of w' r = pending_of w r"
  unfolding pending_of_alt by simp

lemma pending_wframe:
  assumes "wframe w w'"
  shows "pending_of w' r = pending_of w r"
proof (rule pending_of_cong)
  fix b
  have "rel_option cframe (conns w b) (conns w' b)" using assms by (simp add: wframe_def)
  then show "map_option activeOutRequests (conns w' b) = map_option activeOutRequests (conns w b)"
    by (cases "conns w b"; cases "conns w' b") (simp_all add: cframe_def)
qed

lemma pending_set_conn:
  "conns w b = Some c \<Longrightarrow>
     pending_of (set_conn b c' w) r =
       {(d, m) \<in> pending_of w r. d \<noteq> b} \<union>
       {(d, m). d = b \<and> (\<exists>req. activeOutRequests c' m = Some req \<and> req_res req = r)}"
  by (auto simp: pending_of_def set_conn_def split: if_splits)

lemma pending_reserve:
  assumes "conns w b = Some c" and "reserveRequest method caller c = (mid, c')"
  shows "pending_of (set_conn b c' w) r \<subseteq> (if r = caller then insert (b, mid) (pending_of w r) else pending_of w r)"
  using assms unfolding pending_set_conn [OF assms(1)]
  by (auto simp: pending_of_def reserveRequest_def Let_def split: if_splits)

lemma pending_delete:
  assumes "conns w b = Some c" and "activeOutRequests c' = (activeOutRequests c)(mid := None)"
  shows "pending_of (set_conn b c' w) r = pending_of w r - {(b, mid)}"
  using assms unfolding pending_set_conn [OF assms(1)]
  by (auto simp: pending_of_def split: if_splits)

lemma pending_response:
  assumes "conns w b = Some c" and "handleIncomingResponse mid c = (Inr caller, c')"
  shows "pending_of (set_conn b c' w) r = pending_of w r - {(b, mid)}"
    and "(b, mid) \<in> pending_of w caller"
proof -
  from assms(2) obtain req where "activeOutRequests c mid = Some req" "caller = req_res req"
    "activeOutRequests c' = (activeOutRequests c)(mid := None)"
    by (auto simp: handleIncomingResponse_def split: option.splits)
  with assms(1) show "pending_of (set_conn b c' w) r = pending_of w r - {(b, mid)}"
    and "(b, mid) \<in> pending_of w caller"
    using pending_delete [OF assms(1)] by (auto simp: pending_of_def)
qed

lemma pending_accept: "conns w cid = None \<Longrightarrow> pending_of (acceptConnection cid out w) r = pending_of w r"
  by (auto simp: pending_of_def acceptConnection_def SetKeepParamsAndResponsesAsRaw_def NewConnection_def
       split: if_splits)

lemma pending_terminate: "pending_of (terminateConnection cid w) r = pending_of w r"
  by (rule pending_of_cong) (auto simp: terminateConnection_def Close_def option.map_comp comp_def)

text \<open>A step that leaves the pending requests alone and answers what it received.\<close>

lemma count_ok_same:
  assumes "count_ok s r" and "pending_of (wrld s') r = pending_of (wrld s) r" and "waiting s' r = waiting s r"
    and "received s' = received s @ xs" "answered s' = answered s @ xs" "failures s' = failures s"
  shows "count_ok s' r"
  using assms by (simp add: count_ok_def)

lemma waiting_busy: "busy s' = busy s \<Longrightarrow> waiting s' r = waiting s r"
  by (simp add: waiting_def)

lemma waiting_clear:
  assumes "busy s' = (busy s)(cid := None)" and "busy s cid = Some t" and "\<forall>b mid method raw. t \<noteq> LookedUp b mid method raw"
  shows "waiting s' r = waiting s r"
  using assms by (auto simp: waiting_def split: option.splits task.splits)

lemma count_ok_lookup:
  assumes "count_ok s r" and "idle cid s"
  shows "count_ok (s\<lparr>busy := (busy s)(cid \<mapsto> LookedUp b mid method raw), received := received s @ [(cid, mid)]\<rparr>) r"
  using assms by (cases r) (auto simp: count_ok_def waiting_def idle_def)

lemma count_ok_reserve:
  assumes "count_ok s r" and t: "busy s cid = Some (LookedUp b mid method raw)"
    and "conns (wrld s) b = Some c" and "reserveRequest method (cid, mid) c = (bid, c')"
  shows "count_ok (s\<lparr>wrld := set_conn b c' (wrld s), busy := (busy s)(cid \<mapsto> Reserved b mid bid method raw)\<rparr>) r"
proof -
  let ?P = "pending_of (wrld s) r" and ?P' = "pending_of (set_conn b c' (wrld s)) r"
  have sub: "?P' \<subseteq> (if r = (cid, mid) then insert (b, bid) ?P else ?P)"
    by (rule pending_reserve [OF assms(3,4)])
  have fin: "finite ?P" using assms(1) by (simp add: count_ok_def)
  have "card ?P' \<le> card ?P + (if r = (cid, mid) then 1 else 0)"
  proof (cases "r = (cid, mid)")
    case True
    with sub fin have "card ?P' \<le> card (insert (b, bid) ?P)" by (simp add: card_mono)
    with True card_insert_le_m1 fin show ?thesis by (simp add: card_insert_if split: if_splits)
  qed (use sub fin in \<open>simp add: card_mono\<close>)
  moreover have "finite ?P'" using sub fin by (auto intro: finite_subset split: if_splits)
  moreover have "waiting (s\<lparr>wrld := set_conn b c' (wrld s), busy := (busy s)(cid \<mapsto> Reserved b mid bid method raw)\<rparr>) r
      + (if r = (cid, mid) then 1 else 0) \<le> waiting s r"
    using t by (cases r) (auto simp: waiting_def)
  ultimately show ?thesis using assms(1) by (auto simp: count_ok_def)
qed

lemma count_ok_fail:
  assumes "count_ok s r" and "busy s cid = Some (Reserved b mid bid method raw)"
    and P: "pending_of w r = pending_of (wrld s) r - X"
  shows "count_ok (s\<lparr>wrld := w, busy := (busy s)(cid := None), answered := answered s @ [(cid, mid)],
           failures := failures s @ [(cid, mid)]\<rparr>) r"
proof -
  have "card (pending_of w r) \<le> card (pending_of (wrld s) r)"
    unfolding P using assms(1) by (auto simp: count_ok_def intro: card_mono)
  moreover have "waiting (s\<lparr>wrld := w, busy := (busy s)(cid := None), answered := answered s @ [(cid, mid)],
           failures := failures s @ [(cid, mid)]\<rparr>) r = waiting s r"
    by (rule waiting_clear [OF _ assms(2)]) simp_all
  ultimately show ?thesis using assms(1) P by (auto simp: count_ok_def)
qed

lemma count_ok_response:
  assumes "count_ok s r" and "pending_of w r = pending_of (wrld s) r - {x}" and "x \<in> pending_of (wrld s) caller"
  shows "count_ok (s\<lparr>wrld := w, answered := answered s @ [caller]\<rparr>) r"
proof -
  let ?P = "pending_of (wrld s) r"
  have fin: "finite ?P" using assms(1) by (simp add: count_ok_def)
  have "card (?P - {x}) + (if r = caller then 1 else 0) \<le> card ?P"
  proof (cases "r = caller")
    case True
    then have "x \<in> ?P" using assms(3) by simp
    from card_Diff1_less [OF fin this] True show ?thesis by simp
  next
    case False
    then show ?thesis using card_Diff1_le [of ?P x] by simp
  qed
  moreover have "waiting (s\<lparr>wrld := w, answered := answered s @ [caller]\<rparr>) r = waiting s r"
    by (rule waiting_busy) simp
  ultimately show ?thesis
    using assms(1) fin unfolding count_ok_def by (simp add: assms(2) split: if_splits)
qed

lemma sys_step_count_ok: "\<lbrakk> sys_step M s s'; count_ok s r \<rbrakk> \<Longrightarrow> count_ok s' r"
proof (induction rule: sys_step.induct)
  case (accept s cid out)
  show ?case
    by (rule count_ok_same [OF accept.prems, where xs = "[]"])
       (simp_all add: pending_accept [OF accept.hyps(1)] waiting_def)
next
  case (local_request cid s m mid raw w)
  have "wframe (wrld s) w" using handleRequest_local_frame [OF local_request.hyps(2,3)] by (simp add: local_frame_def)
  then show ?case
    by (intro count_ok_same [OF local_request.prems, where xs = "[(cid, mid)]"])
       (simp_all add: pending_wframe waiting_def)
next
  case (unavailable cid s m mid raw)
  have "wframe (wrld s) (routeRequest M (cid, mid) m raw (wrld s))"
    using routeRequest_none_frame [OF unavailable.hyps(3)] by blast
  then show ?case
    by (intro count_ok_same [OF unavailable.prems, where xs = "[(cid, mid)]"])
       (simp_all add: pending_wframe waiting_def)
next
  case (lookup cid s m b mid raw)
  then show ?case by (blast intro: count_ok_lookup)
next
  case (reserve s cid b mid m raw c bid c')
  then show ?case by (blast intro: count_ok_reserve)
next
  case (transmit s cid b mid bid m raw c c')
  have "wframe (wrld s) (set_conn b c' (wrld s))"
    by (rule wframe_set_conn [OF transmit.hyps(2) cframe_transmit [OF transmit.hyps(3)]])
  moreover have "waiting (s\<lparr>wrld := set_conn b c' (wrld s), busy := (busy s)(cid := None)\<rparr>) r = waiting s r"
    by (rule waiting_clear [OF _ transmit.hyps(1)]) simp_all
  ultimately show ?case
    by (intro count_ok_same [OF transmit.prems, where xs = "[]"]) (simp_all add: pending_wframe)
next
  case (transmit_fail s cid b mid bid m raw c err c')
  let ?w = "fwdRes M (cid, mid) GoNil (forward_error err) (set_conn b c' (wrld s))"
  have "pending_of ?w r = pending_of (set_conn b c' (wrld s)) r"
    by (rule pending_wframe) (use fwdRes_frame in blast)
  also have "\<dots> = pending_of (wrld s) r - {(b, bid)}"
    by (rule pending_delete [OF transmit_fail.hyps(2)]) (use transmit_fail_requests [OF transmit_fail.hyps(3)] in simp)
  finally show ?case by (rule count_ok_fail [OF transmit_fail.prems transmit_fail.hyps(1)])
next
  case (response cid s c mid caller c' err result)
  have "pending_of (handleResponse M cid mid err result (wrld s)) r = pending_of (set_conn cid c' (wrld s)) r"
    unfolding handleResponse_found [OF response.hyps(2,3)] by (rule pending_wframe) (use fwdRes_frame in blast)
  also have "\<dots> = pending_of (wrld s) r - {(cid, mid)}" by (rule pending_response(1) [OF response.hyps(2,3)])
  finally show ?case
    by (rule count_ok_response [OF response.prems _ pending_response(2) [OF response.hyps(2,3)]])
next
  case (stray_response cid s c mid e c' err result)
  have "wframe (wrld s) (handleResponse M cid mid err result (wrld s))"
    using handleResponse_stray [OF stray_response.hyps(2,3), of M err result]
      wframe_set_conn [OF stray_response.hyps(2) cframe_refl] by simp
  then show ?case
    by (intro count_ok_same [OF stray_response.prems, where xs = "[]"]) (simp_all add: pending_wframe waiting_def)
next
  case (local_notification cid s m raw w)
  have "wframe (wrld s) w"
    using handleNotification_local_frame [OF local_notification.hyps(2,3)] by (simp add: local_frame_def)
  then show ?case
    by (intro count_ok_same [OF local_notification.prems, where xs = "[]"]) (simp_all add: pending_wframe waiting_def)
next
  case (notification_lookup cid s m b raw)
  show ?case
    by (rule count_ok_same [OF notification_lookup.prems, where xs = "[]"])
       (use notification_lookup.hyps(1) in \<open>auto simp: waiting_def idle_def\<close>)
next
  case (notification_forward s cid b m raw)
  have "wframe (wrld s) (forwardNotification M b m raw (wrld s))" using forwardNotification_frame by blast
  moreover have "waiting (s\<lparr>wrld := forwardNotification M b m raw (wrld s), busy := (busy s)(cid := None)\<rparr>) r
      = waiting s r"
    by (rule waiting_clear [OF _ notification_forward.hyps]) simp_all
  ultimately show ?case
    by (intro count_ok_same [OF notification_forward.prems, where xs = "[]"]) (simp_all add: pending_wframe)
next
  case (terminate cid s)
  show ?case
    by (rule count_ok_same [OF terminate.prems, where xs = "[]"]) (simp_all add: pending_terminate waiting_def)
next
  case (peer_fails s cid c e k)
  have "wframe (wrld s) (set_conn cid (c\<lparr>conn_out := (conn_out c)\<lparr>capacity := k, fail_with := e\<rparr>\<rparr>) (wrld s))"
    by (rule wframe_set_conn [OF peer_fails.hyps cframe_capacity])
  then show ?case
    by (intro count_ok_same [OF peer_fails.prems, where xs = "[]"]) (simp_all add: pending_wframe waiting_def)
qed

lemma sys_reachable_count_ok: "sys_reachable M s \<Longrightarrow> count_ok s r"
proof (induction rule: sys_reachable.induct)
  case (start internal st)
  show ?case by (simp add: count_ok_def initial_def pending_of_def waiting_def)
qed (rule sys_step_count_ok)

section \<open>Properties\<close>

text \<open>
  C2. However the connection loops interleave, every route of the table leads to a connection
  whose loop is running and which is open in both directions, no connection that has ended
  is still open, and every connection has a message size limit greater than 127 or none.
\<close>

theorem routes_lead_to_live_connections:
  assumes "sys_reachable M s"
  shows "(\<forall>m d. routes (router (wrld s)) m = Some d \<longrightarrow>
            d \<in> alive s \<and> (\<exists>c. conns (wrld s) d = Some c \<and> \<not> in_closed c \<and> \<not> out_closed (conn_out c)))
     \<and> (\<forall>d c. conns (wrld s) d = Some c \<longrightarrow> conn_inv c \<and> limit_ok c
            \<and> (d \<notin> alive s \<longrightarrow> in_closed c \<and> out_closed (conn_out c)))"
proof -
  have inv: "live_inv s" by (rule sys_reachable_live_inv [OF assms])
  show ?thesis
  proof (intro conjI allI impI)
    fix m d
    assume "routes (router (wrld s)) m = Some d"
    with inv show "d \<in> alive s"
      and "\<exists>c. conns (wrld s) d = Some c \<and> \<not> in_closed c \<and> \<not> out_closed (conn_out c)"
      unfolding live_inv_def conns_ok_def by blast+
  next
    fix d c
    assume "conns (wrld s) d = Some c"
    with inv show "conn_inv c" "limit_ok c" "d \<notin> alive s \<Longrightarrow> in_closed c"
      "d \<notin> alive s \<Longrightarrow> out_closed (conn_out c)"
      unfolding live_inv_def conns_ok_def by blast+
  qed
qed

lemma reachable_registered:
  "\<exists>s :: unit system. sys_reachable mp_codec s \<and> routes (router (wrld s)) ''f'' = Some 0
     \<and> received s = [(0, 7)] \<and> answered s = [(0, 7)] \<and> failures s = []"
proof -
  let ?s0 = "initial Map.empty () :: unit system"
  let ?s1 = "?s0\<lparr>wrld := acceptConnection 0 new_stream (wrld ?s0), alive := insert 0 (alive ?s0)\<rparr>"
  have r1: "sys_reachable mp_codec ?s1"
    by (rule sys_reachable.step [OF sys_reachable.start sys_step.accept])
       (simp_all add: initial_def new_stream_def)
  have ps: "decoded_params mp_codec [GoString ''f''] = [GoString ''f'']"
    by (simp add: decoded_params_eq decode_param_def)
  define w1 where "w1 = (wrld ?s1)\<lparr>router := (router (wrld ?s1))\<lparr>routes := [''f'' \<mapsto> 0]\<rparr>\<rparr>"
  define w2 where "w2 = fwdRes mp_codec (0, 7) (GoBool True) GoNil w1"
  have h: "handleRequest mp_codec 0 7 ''$/register'' [GoString ''f''] (wrld ?s1) = Running w2"
    by (simp add: handleRequest_def run_builtin_def ps builtin_register_def registerMethod_def
          answer_def w1_def w2_def initial_def New_def acceptConnection_def)
  let ?s2 = "?s1\<lparr>wrld := w2, received := received ?s1 @ [(0, 7)], answered := answered ?s1 @ [(0, 7)]\<rparr>"
  have r2: "sys_reachable mp_codec ?s2"
    by (rule sys_reachable.step [OF r1 sys_step.local_request [OF _ _ h]])
       (simp_all add: idle_def initial_def client_method_def builtin_methods_def)
  have "router w2 = router w1" using fwdRes_frame [of w1 mp_codec "(0, 7)" "GoBool True" GoNil] by (simp add: w2_def)
  then have "routes (router (wrld ?s2)) ''f'' = Some 0" by (simp add: w1_def)
  with r2 show ?thesis by (intro exI [of _ ?s2]) (simp add: initial_def)
qed

theorem routes_lead_to_live_connections_witness:
  "\<exists>s. sys_reachable mp_codec (s :: unit system) \<and> routes (router (wrld s)) ''f'' = Some 0 \<and> 0 \<in> alive s"
  using reachable_registered routes_lead_to_live_connections by blast



end
