(* ===== verification/Rpc_Endpoint.thy ===== *)
theory Rpc_Endpoint
  imports Rpc_Session
begin

text \<open>
  A connection as a program uses it (\<open>msgpackrpc/connection.go\<close>): the connection, a request handler, and
  the responses its callbacks received. The handler answers a request at once, with a result
  and an error, as the programs of the repository do. Handlers that are not given are those
  \<open>NewConnection\<close> puts in their place: requests are refused, notifications and errors ignored.
\<close>

section \<open>The endpoint\<close>

type_synonym request_handler = "string \<Rightarrow> any list \<Rightarrow> any \<times> any"

record 'k endpoint =
  ep_conn :: "'k Connection"
  ep_answers :: "('k \<times> any \<times> any) list"

definition new_endpoint :: "out_stream \<Rightarrow> 'k endpoint" where
  "new_endpoint out = \<lparr>ep_conn = NewConnection out, ep_answers = []\<rparr>"

text \<open>The callback \<open>cb\<close> is called with the result and the error of the handler, which ignores its error.\<close>

definition handleIncomingRequest ::
  "msgpack \<Rightarrow> request_handler \<Rightarrow> MessageID \<Rightarrow> string \<Rightarrow> any list \<Rightarrow> 'k endpoint \<Rightarrow> 'k endpoint" where
  "handleIncomingRequest M serve mid method ps ep =
     (case serve method ps of
        (result, err) \<Rightarrow> ep\<lparr>ep_conn := snd (sendResponse M mid result err (ep_conn ep))\<rparr>)"

definition handleIncomingNotification :: "string \<Rightarrow> any list \<Rightarrow> 'k endpoint \<Rightarrow> 'k endpoint" where
  "handleIncomingNotification method ps ep = ep"

definition receiveResponse :: "MessageID \<Rightarrow> any \<Rightarrow> any \<Rightarrow> 'k endpoint \<Rightarrow> 'k endpoint" where
  "receiveResponse mid err result ep =
     (case handleIncomingResponse mid (ep_conn ep) of
        (Inl e, c) \<Rightarrow> ep\<lparr>ep_conn := c\<rparr>
      | (Inr k, c) \<Rightarrow> ep\<lparr>ep_conn := c, ep_answers := ep_answers ep @ [(k, result, err)]\<rparr>)"

definition endpoint_handlers :: "msgpack \<Rightarrow> request_handler \<Rightarrow> 'k endpoint rpc_handlers" where
  "endpoint_handlers M serve =
     \<lparr>onRequest = handleIncomingRequest M serve, onResponse = receiveResponse,
      onNotification = handleIncomingNotification, onError = (\<lambda>e ep. ep)\<rparr>"

text \<open>The request handler of a program that gives none.\<close>

definition no_requests :: request_handler where
  "no_requests method ps = default_requestHandler method"

text \<open>\<open>SendRequest\<close> of an endpoint: the request is sent; the answer arrives through the read loop.\<close>

definition endpoint_request ::
  "msgpack \<Rightarrow> string \<Rightarrow> any list \<Rightarrow> 'k \<Rightarrow> 'k endpoint \<Rightarrow> (goerror + MessageID) \<times> 'k endpoint" where
  "endpoint_request M method ps k ep =
     (case sendRequest M method ps k (ep_conn ep) of (r, c) \<Rightarrow> (r, ep\<lparr>ep_conn := c\<rparr>))"

section \<open>Reading a message\<close>

text \<open>The read loop takes exactly these bytes for one message, and they change the state like this.\<close>

definition reads :: "msgpack \<Rightarrow> bool \<Rightarrow> 'w rpc_handlers \<Rightarrow> bytes \<Rightarrow> 'w \<Rightarrow> 'w \<Rightarrow> bool" where
  "reads M asRaw H b w w' \<longleftrightarrow>
     (\<forall>fuel rest. Run M asRaw H (Suc fuel) (b @ rest) w = Run M asRaw H fuel rest w')"

lemma readsI:
  "(\<And>rest. decodeRpcPacket M asRaw (b @ rest) = (Packet p, rest)) \<Longrightarrow> reads M asRaw H b w (dispatch H p w)"
  by (simp add: reads_def)

lemma dispatch_packets [simp]:
  "dispatch H (request_packet mid m ps) w = onRequest H mid m ps w"
  "dispatch H (response_packet mid err result) w = onResponse H mid err result w"
  "dispatch H (notification_packet m ps) w = onNotification H m ps w"
  by (simp_all add: dispatch_def request_packet_def response_packet_def notification_packet_def empty_rpcPacket_def)

context msgpack_format
begin

lemma reads_request:
  "\<lbrakk> list_all2 (represents M) ps vs; wire (GoSlice vs); length m < 2 ^ 32 \<rbrakk> \<Longrightarrow>
     reads M asRaw H (enc M (GoSlice (request_message mid m ps))) w
       (onRequest H mid m (map (field_view M norm asRaw) vs) w)"
  by (metis readsI decode_request dispatch_packets(1))

lemma reads_response:
  "\<lbrakk> represents M e ve; represents M res vres; wire ve; wire vres \<rbrakk> \<Longrightarrow>
     reads M asRaw H (enc M (GoSlice (response_message mid e res))) w
       (onResponse H mid (field_view M norm asRaw ve) (field_view M norm asRaw vres) w)"
  by (metis readsI decode_response_msg dispatch_packets(2))

lemma reads_notification:
  "\<lbrakk> list_all2 (represents M) ps vs; wire (GoSlice vs); length m < 2 ^ 32 \<rbrakk> \<Longrightarrow>
     reads M asRaw H (enc M (GoSlice (notification_message m ps))) w
       (onNotification H m (map (field_view M norm asRaw) vs) w)"
  by (metis readsI decode_notification dispatch_packets(3))

end

lemma represents_refl [simp]: "represents M v v" "list_all2 (represents M) vs vs"
  by (simp_all add: represents_def list_all2_refl)

end
