(* ===== verification/Router_Mux.thy ===== *)
theory Router_Mux
  imports Router_Calls Rpc_Endpoint
begin

text \<open>
  The router between any number of callers and one serving program, with any number of requests under way. The
  specification is a multiplexer: it numbers the requests, remembers who asked, and hands each
  reply to the one who asked for it. The router implements it on the bytes of the connections.
\<close>

section \<open>The multiplexer\<close>

text \<open>A caller asks, under an ID of its own; the serving program replies, under the ID it was given.\<close>

datatype mux_event = Ask conn_id MessageID string "any list" | Reply MessageID any any

record mux =
  mx_last :: "32 word"
  mx_pending :: "MessageID \<rightharpoonup> reply"
  mx_asked :: "(MessageID \<times> string \<times> any list) list"
  mx_answers :: "(conn_id \<times> MessageID \<times> any \<times> any) list"

fun mux_step :: "mux_event \<Rightarrow> mux \<Rightarrow> mux" where
  "mux_step (Ask a mid m vs) x =
     (let n = mx_last x + 1; bid = ucast n in
      x\<lparr>mx_last := n, mx_pending := (mx_pending x)(bid \<mapsto> (a, mid)), mx_asked := mx_asked x @ [(bid, m, vs)]\<rparr>)"
| "mux_step (Reply bid e r) x =
     (case mx_pending x bid of
        None \<Rightarrow> x
      | Some (a, mid) \<Rightarrow>
          x\<lparr>mx_pending := (mx_pending x)(bid := None), mx_answers := mx_answers x @ [(a, mid, e, r)]\<rparr>)"

section \<open>The router reads an event\<close>

lemma router_handlers_apply [simp]:
  "onRequest (router_handlers M cid) mid m raw (Running w) = handleRequest M cid mid m raw w"
  "onResponse (router_handlers M cid) mid err res (Running w) = Running (handleResponse M cid mid err res w)"
  by (simp_all add: router_handlers_def)

context msgpack_sizes
begin

text \<open>The router's read loop on a request for a method that a client serves, and on the response to a pending request.\<close>

lemma router_reads_request:
  assumes "client_method m w" "routes (router w) m = Some b" "conns w b = Some cb" "healthy cb"
    and "wire (GoSlice vs)" "length m < 2 ^ 32" "fits M (request_message (request_id cb) m vs) cb"
  shows "\<exists>cb1. reads M True (router_handlers M a) (enc M (GoSlice (request_message mid m vs)))
       (Running w) (Running (w\<lparr>conns := (conns w)(b \<mapsto> cb1)\<rparr>))
     \<and> forwards M (a, mid) m (map (field_view M norm True) vs) cb cb1"
  using call_forwarded [OF assms, of a mid]
    reads_request [OF represents_refl(2) assms(5,6), where asRaw = True and H = "router_handlers M a"
      and mid = mid and w = "Running w"]
  by auto

lemma router_reads_response:
  assumes "conns w1 b = Some cb1" "activeOutRequests cb1 bid = Some req" "req_res req = (a, mid)"
    and "conns w1 a = Some ca" "healthy ca" "a \<noteq> b"
    and "wire err" "wire res" and "fits M (response_message mid err res) ca"
  shows "\<exists>ca2. reads M True (router_handlers M b) (enc M (GoSlice (response_message bid err res))) (Running w1)
       (Running (w1\<lparr>conns := (conns w1)(b \<mapsto> cb1\<lparr>activeOutRequests := (activeOutRequests cb1)(bid := None)\<rparr>, a \<mapsto> ca2)\<rparr>))
     \<and> sends M (response_message mid (field_view M norm True err) (field_view M norm True res)) ca ca2"
  using answer_forwarded [OF assms]
    reads_response [OF represents_refl(1) represents_refl(1) assms(7,8), where asRaw = True
        and H = "router_handlers M b" and mid = bid and w = "Running w1"]
  by auto

end

fun event_read :: "msgpack \<Rightarrow> conn_id \<Rightarrow> mux_event \<Rightarrow> 's world \<Rightarrow> 's world \<Rightarrow> bool" where
  "event_read M b (Ask a mid m vs) w w' \<longleftrightarrow>
     reads M True (router_handlers M a) (enc M (GoSlice (request_message mid m vs))) (Running w) (Running w')"
| "event_read M b (Reply bid e r) w w' \<longleftrightarrow>
     reads M True (router_handlers M b) (enc M (GoSlice (response_message bid e r))) (Running w) (Running w')"

fun events_read :: "msgpack \<Rightarrow> conn_id \<Rightarrow> mux_event list \<Rightarrow> 's world \<Rightarrow> 's world \<Rightarrow> bool" where
  "events_read M b [] w w' \<longleftrightarrow> w' = w"
| "events_read M b (ev # evs) w w' \<longleftrightarrow> (\<exists>w1. event_read M b ev w w1 \<and> events_read M b evs w1 w')"

section \<open>The simulation\<close>

definition plain_conn :: "'k Connection \<Rightarrow> bytes \<Rightarrow> bool" where
  "plain_conn c out \<longleftrightarrow> healthy c \<and> msgpBuffer c = None \<and> sent (conn_out c) = out"

definition asked_bytes :: "msgpack \<Rightarrow> mux \<Rightarrow> bytes" where
  "asked_bytes M x = concat (map (\<lambda>(bid, m, vs). enc M (GoSlice (request_message bid m vs))) (mx_asked x))"

definition answer_bytes :: "msgpack \<Rightarrow> conn_id \<Rightarrow> mux \<Rightarrow> bytes" where
  "answer_bytes M a x =
     concat (map (\<lambda>(c, mid, e, r). if c = a then enc M (GoSlice (response_message mid e r)) else []) (mx_answers x))"

text \<open>
  The connection of the server holds the pending requests and has received what was asked; every caller has
  received its answers. \<open>base\<close> is what the streams held before.
\<close>

definition mux_rel ::
  "msgpack \<Rightarrow> conn_id \<Rightarrow> conn_id set \<Rightarrow> (conn_id \<Rightarrow> bytes) \<Rightarrow> mux \<Rightarrow> 's world \<Rightarrow> bool" where
  "mux_rel M b A base x w \<longleftrightarrow>
     b \<notin> A \<and>
     (\<exists>cb. conns w b = Some cb \<and> plain_conn cb (base b @ asked_bytes M x) \<and> lastOutRequestsIndex cb = mx_last x
        \<and> (\<forall>bid. map_option req_res (activeOutRequests cb bid) = mx_pending x bid)) \<and>
     (\<forall>a \<in> A. \<exists>ca. conns w a = Some ca \<and> plain_conn ca (base a @ answer_bytes M a x)) \<and>
     ran (mx_pending x) \<subseteq> {p. fst p \<in> A}"

text \<open>An event that the serving program \<open>b\<close> and the callers in \<open>A\<close> can cause.\<close>

fun event_ok :: "(any \<Rightarrow> bool) \<Rightarrow> conn_id \<Rightarrow> conn_id set \<Rightarrow> 's world \<Rightarrow> mux_event \<Rightarrow> bool" where
  "event_ok wr b A w (Ask a mid m vs) \<longleftrightarrow>
     a \<in> A \<and> client_method m w \<and> routes (router w) m = Some b \<and> wr (GoSlice vs) \<and> length m < 2 ^ 32"
| "event_ok wr b A w (Reply bid e r) \<longleftrightarrow> wr e \<and> wr r"

lemma plain_fits: "plain_conn c out \<Longrightarrow> fits M d c"
  by (simp add: plain_conn_def fits_def)

lemma event_ok_same: "router w' = router w \<Longrightarrow> event_ok wr b A w' ev = event_ok wr b A w ev"
  by (cases ev) (simp_all add: client_method_def)

context msgpack_sizes
begin

lemma ask_simulated:
  assumes rel: "mux_rel M b A base x w" and ok: "event_ok wire b A w (Ask a mid m vs)"
  shows "\<exists>w'. event_read M b (Ask a mid m vs) w w' \<and> mux_rel M b A base (mux_step (Ask a mid m vs) x) w'
     \<and> router w' = router w \<and> app w' = app w"
proof -
  from rel obtain cb where cb: "conns w b = Some cb" "plain_conn cb (base b @ asked_bytes M x)"
      "lastOutRequestsIndex cb = mx_last x" "\<forall>bid. map_option req_res (activeOutRequests cb bid) = mx_pending x bid"
    by (auto simp: mux_rel_def)
  have "healthy cb" using cb(2) by (simp add: plain_conn_def)
  from router_reads_request [OF _ _ cb(1) this, of m vs a mid] ok plain_fits [OF cb(2)] obtain cb1 where
    h: "event_read M b (Ask a mid m vs) w (w\<lparr>conns := (conns w)(b \<mapsto> cb1)\<rparr>)"
    and f: "forwards M (a, mid) m (map (field_view M norm True) vs) cb cb1" by auto
  have "mux_rel M b A base (mux_step (Ask a mid m vs) x) (w\<lparr>conns := (conns w)(b \<mapsto> cb1)\<rparr>)"
    using rel ok cb f enc_request_represents [OF raw_view]
    by (auto simp: mux_rel_def forwards_def plain_conn_def asked_bytes_def answer_bytes_def Let_def request_id_def ran_def
         split: if_splits)
  with h show ?thesis by fastforce
qed

lemma reply_ignored:
  assumes "conns w b = Some cb" "activeOutRequests cb bid = None" "wire e" "wire r"
  shows "event_read M b (Reply bid e r) w w"
proof -
  have "handleResponse M b bid e' r' w = w" for e' r'
    using assms(1,2) by (simp add: handleResponse_def handleIncomingResponse_def fun_upd_idem)
  then show ?thesis
    using reads_response [OF represents_refl(1) represents_refl(1) assms(3,4), where asRaw = True
        and H = "router_handlers M b" and mid = bid and w = "Running w"] by simp
qed

lemma reply_simulated:
  assumes rel: "mux_rel M b A base x w" and ok: "event_ok wire b A w (Reply bid e r)"
  shows "\<exists>w'. event_read M b (Reply bid e r) w w' \<and> mux_rel M b A base (mux_step (Reply bid e r) x) w'
     \<and> router w' = router w \<and> app w' = app w"
proof -
  from rel obtain cb where cb: "conns w b = Some cb" "plain_conn cb (base b @ asked_bytes M x)"
      "lastOutRequestsIndex cb = mx_last x" "\<And>bid. map_option req_res (activeOutRequests cb bid) = mx_pending x bid"
    by (auto simp: mux_rel_def)
  show ?thesis
  proof (cases "mx_pending x bid")
    case None
    with cb(4) [of bid] have "activeOutRequests cb bid = None" by simp
    from reply_ignored [OF cb(1) this] ok rel None show ?thesis by auto
  next
    case (Some p)
    obtain a mid where p: "p = (a, mid)" by (cases p)
    from Some cb(4) [of bid] p obtain req where q: "activeOutRequests cb bid = Some req" "req_res req = (a, mid)" by auto
    have "a \<in> A" using rel Some p by (auto simp: mux_rel_def ran_def)
    with rel obtain ca where ca: "conns w a = Some ca" "plain_conn ca (base a @ answer_bytes M a x)" and ab: "a \<noteq> b"
      unfolding mux_rel_def by blast
    have hca: "healthy ca" using ca(2) by (simp add: plain_conn_def)
    let ?cb = "cb\<lparr>activeOutRequests := (activeOutRequests cb)(bid := None)\<rparr>"
    from router_reads_response [OF cb(1) q ca(1) hca ab, of e r] ok plain_fits [OF ca(2)] obtain ca2 where
      h: "event_read M b (Reply bid e r) w (w\<lparr>conns := (conns w)(b \<mapsto> ?cb, a \<mapsto> ca2)\<rparr>)"
      and s: "sends M (response_message mid (field_view M norm True e) (field_view M norm True r)) ca ca2"
      by auto
    have "plain_conn ca2 (base a @ answer_bytes M a (mux_step (Reply bid e r) x))"
      using s ca(2) Some p enc_response_represents [OF raw_view1 raw_view1]
      by (simp add: sends_def plain_conn_def answer_bytes_def)
    moreover have "answer_bytes M c (mux_step (Reply bid e r) x) = answer_bytes M c x" if "c \<noteq> a" for c
      using Some p that by (simp add: answer_bytes_def)
    moreover have "plain_conn ?cb (base b @ asked_bytes M (mux_step (Reply bid e r) x))"
      using cb(2) Some p by (auto simp: plain_conn_def asked_bytes_def healthy_def conn_inv_def limit_ok_def)
    ultimately have "mux_rel M b A base (mux_step (Reply bid e r) x) (w\<lparr>conns := (conns w)(b \<mapsto> ?cb, a \<mapsto> ca2)\<rparr>)"
      using rel cb(3,4) ab Some p by (auto simp: mux_rel_def ran_def split: if_splits)
    with h show ?thesis by fastforce
  qed
qed

lemma events_simulated:
  "\<lbrakk> mux_rel M b A base x w; \<forall>ev \<in> set evs. event_ok wire b A w ev \<rbrakk> \<Longrightarrow>
     \<exists>w'. events_read M b evs w w' \<and> mux_rel M b A base (fold mux_step evs x) w'
       \<and> router w' = router w \<and> app w' = app w"
proof (induction evs arbitrary: x w)
  case (Cons ev evs)
  have "event_ok wire b A w ev" using Cons.prems(2) by simp
  then obtain w1 where w1: "event_read M b ev w w1" "mux_rel M b A base (mux_step ev x) w1"
    "router w1 = router w" "app w1 = app w"
    using ask_simulated [OF Cons.prems(1)] reply_simulated [OF Cons.prems(1)] by (cases ev) blast+
  have "\<forall>ev \<in> set evs. event_ok wire b A w1 ev" using Cons.prems(2) event_ok_same [OF w1(3)] by auto
  from Cons.IH [OF w1(2) this] obtain w' where "events_read M b evs w1 w'"
    "mux_rel M b A base (fold mux_step evs (mux_step ev x)) w'" "router w' = router w1" "app w' = app w1" by blast
  with w1 show ?case by auto
qed simp

end

section \<open>Properties\<close>

text \<open>
  C5. The router implements a multiplexer: whatever requests any number of callers send for the methods of a client, however many are
  under way, and whatever responses the client returns, in whatever order, duplicate or
  unsolicited ones included, the router has written to the client the requests in their order, numbered,
  and to each caller exactly the responses to its own requests, under its own IDs, in the order they came.
\<close>

theorem router_multiplexes:
  assumes "msgpack_sizes M norm wire" and "mux_rel M b A base x w"
    and "\<forall>ev \<in> set evs. event_ok wire b A w ev"
  shows "\<exists>w'. events_read M b evs w w' \<and> router w' = router w \<and> app w' = app w
     \<and> mux_rel M b A base (fold mux_step evs x) w'
     \<and> (\<forall>a \<in> A. \<exists>ca. conns w' a = Some ca \<and> sent (conn_out ca) = base a @ answer_bytes M a (fold mux_step evs x))
     \<and> (\<exists>cb. conns w' b = Some cb \<and> sent (conn_out cb) = base b @ asked_bytes M (fold mux_step evs x))"
  using msgpack_sizes.events_simulated [OF assms] by (fastforce simp: mux_rel_def plain_conn_def)

text \<open>Two callers, whose calls are answered in the opposite order.\<close>

definition three_clients :: "unit world" where
  "three_clients =
     \<lparr>router = \<lparr>routes = [''f'' \<mapsto> 3], routesInternal = Map.empty\<rparr>,
      conns = [1 \<mapsto> NewConnection new_stream, 2 \<mapsto> NewConnection new_stream, 3 \<mapsto> NewConnection new_stream], app = ()\<rparr>"

definition idle_mux :: mux where
  "idle_mux = \<lparr>mx_last = 0, mx_pending = Map.empty, mx_asked = [], mx_answers = []\<rparr>"

lemma three_clients_rel: "mux_rel M 3 {1, 2} (\<lambda>_. []) idle_mux three_clients"
proof -
  have "msgpBuffer (NewConnection new_stream :: reply Connection) = None" by (simp add: NewConnection_def)
  then have "plain_conn (NewConnection new_stream :: reply Connection) []" by (simp add: plain_conn_def)
  then show ?thesis
    by (simp add: mux_rel_def three_clients_def idle_mux_def asked_bytes_def answer_bytes_def NewConnection_def)
qed

theorem router_multiplexes_witness:
  "\<exists>w' c1 c2. events_read mp_codec 3
       [Ask 1 9 ''f'' [], Ask 2 9 ''f'' [], Reply 2 GoNil (GoBool True), Reply 2 GoNil GoNil, Reply 1 GoNil (GoBool False)]
       three_clients w'
     \<and> conns w' 1 = Some c1 \<and> sent (conn_out c1) = enc mp_codec (GoSlice (response_message 9 GoNil (GoBool False)))
     \<and> conns w' 2 = Some c2 \<and> sent (conn_out c2) = enc mp_codec (GoSlice (response_message 9 GoNil (GoBool True)))"
proof -
  let ?evs = "[Ask 1 9 ''f'' [], Ask 2 9 ''f'' [], Reply 2 GoNil (GoBool True), Reply 2 GoNil GoNil, Reply 1 GoNil (GoBool False)]"
  have ok: "\<forall>ev \<in> set ?evs. event_ok mp_wire 3 {1, 2} three_clients ev"
    by (simp add: three_clients_def client_method_def builtin_methods_def)
  have "mx_answers (fold mux_step ?evs idle_mux) = [(2, 9, GoNil, GoBool True), (1, 9, GoNil, GoBool False)]"
    by (simp add: idle_mux_def Let_def)
  then have ans: "answer_bytes mp_codec 1 (fold mux_step ?evs idle_mux) = enc mp_codec (GoSlice (response_message 9 GoNil (GoBool False)))"
    "answer_bytes mp_codec 2 (fold mux_step ?evs idle_mux) = enc mp_codec (GoSlice (response_message 9 GoNil (GoBool True)))"
    by (simp_all add: answer_bytes_def del: enc_mp_codec)
  from router_multiplexes [OF mp.msgpack_sizes_axioms three_clients_rel ok] obtain w' where
    "events_read mp_codec 3 ?evs three_clients w'"
    "\<forall>a \<in> {1, 2}. \<exists>ca. conns w' a = Some ca \<and> sent (conn_out ca) = [] @ answer_bytes mp_codec a (fold mux_step ?evs idle_mux)"
    by blast
  with ans show ?thesis by (metis append_Nil insertI1 insertI2)
qed

end
