(* ===== verification/Cli.thy ===== *)
theory Cli
  imports Rpc_Session
begin

text \<open>
  \<open>cmd/arduino-router-cli/main.go\<close>: the command line client. \<open>composeArgs\<close> turns the words of the
  command line into MessagePack values; \<open>run\<close> is the \<open>Run\<close> function of the command up to the
  call it makes, and \<open>exit_status\<close> what it does with the answer. Parsing floating point
  numbers (\<open>strconv.ParseFloat\<close>) is the parameter \<open>float_parser\<close>, with the IEEE bit patterns as
  results; help texts and printing are left out.
\<close>

section \<open>Composing values\<close>

record float_parser =
  ParseFloat32 :: "string \<Rightarrow> 32 word option"
  ParseFloat64 :: "string \<Rightarrow> 64 word option"

text \<open>
  The results of \<open>composeArgs\<close>: a value with the words that follow it, an error, or the panic of
  a Go map assignment whose key cannot be hashed.
\<close>

datatype compose_result = Value any "string list" | Invalid goerror | KeyPanic

definition CutPrefix :: "string \<Rightarrow> string \<Rightarrow> string option" where
  "CutPrefix s prefix = (if take (length prefix) s = prefix then Some (drop (length prefix) s) else None)"

text \<open>Slices and maps cannot be keys of a Go map.\<close>

fun hashable :: "any \<Rightarrow> bool" where
  "hashable (GoSlice _) = False"
| "hashable (GoMapAny _) = False"
| "hashable _ = True"

text \<open>Equality of keys: that of Go, under which zeros are equal and NaN differs from itself.\<close>

definition float32_eq :: "32 word \<Rightarrow> 32 word \<Rightarrow> bool" where
  "float32_eq a b \<longleftrightarrow>
     (let mag = (\<lambda>w. unat w mod 2 ^ 31); inf = 0x7F800000 in
      mag a \<le> inf \<and> mag b \<le> inf \<and> (a = b \<or> mag a = 0 \<and> mag b = 0))"

definition float64_eq :: "64 word \<Rightarrow> 64 word \<Rightarrow> bool" where
  "float64_eq a b \<longleftrightarrow>
     (let mag = (\<lambda>w. unat w mod 2 ^ 63); inf = 0x7FF0000000000000 in
      mag a \<le> inf \<and> mag b \<le> inf \<and> (a = b \<or> mag a = 0 \<and> mag b = 0))"

fun key_eq :: "any \<Rightarrow> any \<Rightarrow> bool" where
  "key_eq (GoFloat32 a) (GoFloat32 b) = float32_eq a b"
| "key_eq (GoFloat64 a) (GoFloat64 b) = float64_eq a b"
| "key_eq a b = (a = b)"

fun map_put :: "(any \<times> any) list \<Rightarrow> any \<Rightarrow> any \<Rightarrow> (any \<times> any) list" where
  "map_put [] k v = [(k, v)]"
| "map_put ((k', v') # m) k v = (if key_eq k' k then (k', v) # m else (k', v') # map_put m k v)"

text \<open>
  \<open>composeArgs\<close> with its two loops. They call each other, so they have fuel, of which the
  wrapper below gives enough.
\<close>

fun compose :: "float_parser \<Rightarrow> nat \<Rightarrow> string list \<Rightarrow> compose_result option"
  and compose_array :: "float_parser \<Rightarrow> nat \<Rightarrow> any list \<Rightarrow> string list \<Rightarrow> compose_result option"
  and compose_map :: "float_parser \<Rightarrow> nat \<Rightarrow> (any \<times> any) list \<Rightarrow> string list \<Rightarrow> compose_result option" where
  "compose F 0 args = None"
| "compose F (Suc fuel) args =
     (case args of
        [] \<Rightarrow> Some (Invalid (ErrorString ''no arguments provided''))
      | a # rest \<Rightarrow>
          if a = ''nil'' then Some (Value GoNil rest)
          else if a = ''true'' then Some (Value (GoBool True) rest)
          else if a = ''false'' then Some (Value (GoBool False) rest)
          else (case CutPrefix a ''f32:'' of
            Some f32 \<Rightarrow>
              (case ParseFloat32 F f32 of
                 None \<Rightarrow> Some (Invalid (ErrorString (''invalid f32 value: '' @ a)))
               | Some f \<Rightarrow> Some (Value (GoFloat32 f) rest))
          | None \<Rightarrow>
          (case CutPrefix a ''f64:'' of
            Some f64 \<Rightarrow>
              (case ParseFloat64 F f64 of
                 None \<Rightarrow> Some (Invalid (ErrorString (''invalid f64 value: '' @ a)))
               | Some f \<Rightarrow> Some (Value (GoFloat64 f) rest))
          | None \<Rightarrow>
          (case CutPrefix a ''str:'' of
            Some str \<Rightarrow> Some (Value (GoString str) rest)
          | None \<Rightarrow>
              if a = ''['' then compose_array F fuel [] rest
              else if a = ''{'' then compose_map F fuel [] rest
              else (case Atoi a of
                 Some i \<Rightarrow> Some (Value (GoInt (word_of_int i)) rest)
               | None \<Rightarrow> Some (Value (GoString a) rest))))))"
| "compose_array F 0 arr rest = None"
| "compose_array F (Suc fuel) arr rest =
     (case rest of
        [] \<Rightarrow> Some (Invalid (ErrorString ''unterminated array''))
      | r # rs \<Rightarrow>
          if r = '']'' then Some (Value (GoSlice arr) rs)
          else (case compose F fuel rest of
             Some (Value elem rest') \<Rightarrow> compose_array F fuel (arr @ [elem]) rest'
           | x \<Rightarrow> x))"
| "compose_map F 0 m rest = None"
| "compose_map F (Suc fuel) m rest =
     (case rest of
        [] \<Rightarrow> Some (Invalid (ErrorString ''unterminated map''))
      | r # rs \<Rightarrow>
          if r = ''}'' then Some (Value (GoMapAny m) rs)
          else (case compose F fuel rest of
             Some (Value key rest1) \<Rightarrow>
               if rest1 = [] then Some (Invalid (ErrorString ''unterminated map (missing value)''))
               else (case compose F fuel rest1 of
                  Some (Value val rest2) \<Rightarrow>
                    if \<not> hashable key then Some KeyPanic
                    else compose_map F fuel (map_put m key val) rest2
                | Some (Invalid e) \<Rightarrow> Some (Invalid (Errorf_w ''invalid map value'' e))
                | x \<Rightarrow> x)
           | Some (Invalid e) \<Rightarrow> Some (Invalid (Errorf_w ''invalid map key'' e))
           | x \<Rightarrow> x))"

definition composeArgs :: "float_parser \<Rightarrow> string list \<Rightarrow> compose_result option" where
  "composeArgs F args = compose F (2 * length args + 1) args"

section \<open>The command\<close>

text \<open>What the command does before it contacts the server: it stops with exit status 1, it panics, or it calls.\<close>

datatype cli_action = Exit1 string | CliPanic | CallServer string "any list"

text \<open>A list of words as \<open>fmt.Println\<close> prints it.\<close>

fun join_words :: "string list \<Rightarrow> string" where
  "join_words [] = ''''"
| "join_words [w] = w"
| "join_words (w # ws) = w @ '' '' @ join_words ws"

definition run :: "float_parser \<Rightarrow> string list \<Rightarrow> cli_action option" where
  "run F cliArgs =
     (case composeArgs F (''['' # tl cliArgs @ ['']'']) of
        None \<Rightarrow> None
      | Some (Invalid e) \<Rightarrow> Some (Exit1 (''Invalid arguments: '' @ Error e))
      | Some KeyPanic \<Rightarrow> Some CliPanic
      | Some (Value args rest) \<Rightarrow>
          if rest \<noteq> [] then Some (Exit1 (''Invalid arguments: extra data: ['' @ join_words rest @ '']''))
          else (case args of
             GoSlice ps \<Rightarrow> Some (CallServer (hd cliArgs) ps)
           | _ \<Rightarrow> Some (Exit1 ''Invalid arguments: expected array'')))"

definition netType :: "string \<Rightarrow> string" where
  "netType server = (if CHR '':'' \<in> set server then ''tcp'' else ''unix'')"

text \<open>The call itself, on the connection of \<open>send\<close>: a notification or a request.\<close>

definition cli_send ::
  "msgpack \<Rightarrow> string \<Rightarrow> any list \<Rightarrow> bool \<Rightarrow> unit Connection \<Rightarrow> goerror option \<times> unit Connection" where
  "cli_send M method args notification conn =
     (if notification
      then (case SendNotification M method args conn of
              (Some err, c) \<Rightarrow> (Some (Errorf_w ''error sending notification'' err), c)
            | (None, c) \<Rightarrow> (None, c))
      else (case sendRequest M method args () conn of
              (Inl err, c) \<Rightarrow> (Some (Errorf_w ''error sending request'' err), c)
            | (Inr mid, c) \<Rightarrow> (None, c)))"

text \<open>The exit status once the answer (result and error) is there: an error in sending also ends with 1.\<close>

definition exit_status :: "bool \<Rightarrow> (goerror + any \<times> any) \<Rightarrow> nat" where
  "exit_status notification answer =
     (case answer of
        Inl err \<Rightarrow> 1
      | Inr (result, rpcErr) \<Rightarrow> if \<not> notification \<and> rpcErr \<noteq> GoNil then 1 else 0)"

section \<open>Enough fuel\<close>

text \<open>A value takes at least one word, and what remains is the end of the words given.\<close>

definition consumes :: "string list \<Rightarrow> compose_result \<Rightarrow> bool" where
  "consumes args x \<longleftrightarrow> (\<forall>v rest. x = Value v rest \<longrightarrow> (\<exists>used. used \<noteq> [] \<and> args = used @ rest))"

lemma consumes_simps [simp]: "consumes args (Invalid e)" "consumes args KeyPanic"
  "consumes (a # rest) (Value v rest)"
  by (auto simp: consumes_def)

lemma consumes_Cons: "consumes rest x \<Longrightarrow> consumes (a # rest) x"
  unfolding consumes_def by (metis append_Cons list.distinct(1))

lemma consumes_append:
  "\<lbrakk> consumes args (Value v rest); consumes rest x \<rbrakk> \<Longrightarrow> consumes args x"
  unfolding consumes_def by (metis append_assoc append_is_Nil_conv)

lemma consumes_length: "consumes args (Value v rest) \<Longrightarrow> length rest < length args"
  by (auto simp: consumes_def)

text \<open>A result that exists and consumes words, with the rules for the case distinctions of \<open>compose\<close>.\<close>

definition yields :: "string list \<Rightarrow> compose_result option \<Rightarrow> bool" where
  "yields args r \<longleftrightarrow> (\<exists>x. r = Some x \<and> consumes args x)"

lemma yields_if: "\<lbrakk> yields a r1; yields a r2 \<rbrakk> \<Longrightarrow> yields a (if b then r1 else r2)"
  by simp

lemma yields_option:
  "\<lbrakk> yields a r1; \<And>y. yields a (r2 y) \<rbrakk> \<Longrightarrow> yields a (case x of None \<Rightarrow> r1 | Some y \<Rightarrow> r2 y)"
  by (cases x) simp_all

lemma yields_leaf: "yields args (Some (Invalid e))" "yields (w # rest) (Some (Value v rest))"
  by (simp_all add: yields_def)

lemmas yields_intros = yields_if yields_option yields_leaf

definition compose_ok :: "float_parser \<Rightarrow> nat \<Rightarrow> bool" where
  "compose_ok F fuel \<longleftrightarrow>
     (\<forall>args. 2 * length args + 1 \<le> fuel \<longrightarrow> (\<exists>x. compose F fuel args = Some x \<and> consumes args x))"

lemma compose_okD:
  assumes "compose_ok F fuel" and "2 * length args + 1 \<le> fuel"
  obtains (Value) v rest where "compose F fuel args = Some (Value v rest)" "consumes args (Value v rest)"
        "length rest < length args"
    | (Invalid) e where "compose F fuel args = Some (Invalid e)"
    | (KeyPanic) "compose F fuel args = Some KeyPanic"
proof -
  from assms obtain x where "compose F fuel args = Some x" "consumes args x"
    unfolding compose_ok_def by blast
  then show ?thesis using that by (cases x) (auto dest: consumes_length)
qed

lemma compose_array_step:
  assumes "compose_ok F fuel"
    and IH: "\<And>arr rest. 2 * length rest + 2 \<le> fuel \<Longrightarrow> \<exists>x. compose_array F fuel arr rest = Some x \<and> consumes rest x"
    and "2 * length rest + 2 \<le> Suc fuel"
  shows "\<exists>x. compose_array F (Suc fuel) arr rest = Some x \<and> consumes rest x"
proof (cases "rest = [] \<or> hd rest = '']''")
  case True
  then show ?thesis by (cases rest) auto
next
  case False
  then obtain r rs where rest: "rest = r # rs" "r \<noteq> '']''" by (cases rest) auto
  have "2 * length rest + 1 \<le> fuel" using assms(3) by simp
  from assms(1) this show ?thesis
  proof (cases rule: compose_okD)
    case (Value v rest')
    then have "2 * length rest' + 2 \<le> fuel" using assms(3) by simp
    from IH [OF this, of "arr @ [v]"] obtain x where
      "compose_array F fuel (arr @ [v]) rest' = Some x" "consumes rest' x" by blast
    with Value(1) rest consumes_append [OF Value(2)] show ?thesis by simp
  qed (use rest in auto)
qed

lemma compose_map_step:
  assumes "compose_ok F fuel"
    and IH: "\<And>m rest. 2 * length rest + 2 \<le> fuel \<Longrightarrow> \<exists>x. compose_map F fuel m rest = Some x \<and> consumes rest x"
    and "2 * length rest + 2 \<le> Suc fuel"
  shows "\<exists>x. compose_map F (Suc fuel) m rest = Some x \<and> consumes rest x"
proof (cases "rest = [] \<or> hd rest = ''}''")
  case True
  then show ?thesis by (cases rest) auto
next
  case False
  then obtain r rs where rest: "rest = r # rs" "r \<noteq> ''}''" by (cases rest) auto
  have "2 * length rest + 1 \<le> fuel" using assms(3) by simp
  from assms(1) this show ?thesis
  proof (cases rule: compose_okD)
    case key: (Value k rest1)
    show ?thesis
    proof (cases "rest1 = []")
      case False
      have "2 * length rest1 + 1 \<le> fuel" using key(3) assms(3) by simp
      from assms(1) this show ?thesis
      proof (cases rule: compose_okD)
        case val: (Value v rest2)
        have "2 * length rest2 + 2 \<le> fuel" using key(3) val(3) assms(3) by simp
        from IH [OF this, of "map_put m k v"] obtain x where
          "compose_map F fuel (map_put m k v) rest2 = Some x" "consumes rest2 x" by blast
        with key(1) val(1) rest False consumes_append [OF key(2) consumes_append [OF val(2)]] show ?thesis
          by (cases "hashable k") simp_all
      qed (use key rest False in auto)
    qed (use key rest in auto)
  qed (use rest in auto)
qed

lemma compose_step:
  assumes "\<And>arr rest. 2 * length rest + 2 \<le> fuel \<Longrightarrow> \<exists>x. compose_array F fuel arr rest = Some x \<and> consumes rest x"
    and "\<And>m rest. 2 * length rest + 2 \<le> fuel \<Longrightarrow> \<exists>x. compose_map F fuel m rest = Some x \<and> consumes rest x"
  shows "compose_ok F (Suc fuel)"
  unfolding compose_ok_def
proof (intro allI impI)
  fix args :: "string list"
  assume len: "2 * length args + 1 \<le> Suc fuel"
  show "\<exists>x. compose F (Suc fuel) args = Some x \<and> consumes args x"
  proof (cases args)
    case (Cons a rest)
    with len have "2 * length rest + 2 \<le> fuel" by simp
    from assms(1) [OF this, of "[]"] assms(2) [OF this, of "[]"]
    have "yields (a # rest) (compose_array F fuel [] rest)" "yields (a # rest) (compose_map F fuel [] rest)"
      unfolding yields_def using consumes_Cons by blast+
    then have "yields (a # rest) (compose F (Suc fuel) (a # rest))"
      unfolding compose.simps list.case by (intro yields_intros)
    then show ?thesis unfolding Cons yields_def .
  qed simp
qed

lemma compose_total:
  "compose_ok F fuel
   \<and> (\<forall>arr rest. 2 * length rest + 2 \<le> fuel \<longrightarrow> (\<exists>x. compose_array F fuel arr rest = Some x \<and> consumes rest x))
   \<and> (\<forall>m rest. 2 * length rest + 2 \<le> fuel \<longrightarrow> (\<exists>x. compose_map F fuel m rest = Some x \<and> consumes rest x))"
proof (induction fuel)
  case 0
  show ?case by (simp add: compose_ok_def)
next
  case (Suc fuel)
  then show ?case
    using compose_step [of fuel F] compose_array_step [of F fuel] compose_map_step [of F fuel] by blast
qed

section \<open>Writing values as words\<close>

text \<open>How a value is written on the command line.\<close>

fun unparse :: "any \<Rightarrow> string list" where
  "unparse GoNil = [''nil'']"
| "unparse (GoBool b) = [if b then ''true'' else ''false'']"
| "unparse (GoInt i) = [show_int (sint i)]"
| "unparse (GoString s) = [''str:'' @ s]"
| "unparse (GoSlice vs) = [''[''] @ concat (map unparse vs) @ ['']'']"
| "unparse (GoMapAny m) = [''{''] @ concat (map (\<lambda>(k, v). unparse k @ unparse v) m) @ [''}'']"
| "unparse _ = []"

text \<open>The values that can be written this way, floating point numbers aside.\<close>

fun cli_value :: "any \<Rightarrow> bool" where
  "cli_value GoNil = True"
| "cli_value (GoBool b) = True"
| "cli_value (GoInt i) = True"
| "cli_value (GoString s) = True"
| "cli_value (GoSlice vs) = (\<forall>v \<in> set vs. cli_value v)"
| "cli_value (GoMapAny m) =
     (distinct (map fst m) \<and> (\<forall>(k, v) \<in> set m. hashable k \<and> cli_value k \<and> cli_value v))"
| "cli_value _ = False"

section \<open>Words read back\<close>

lemma letters_no_digits [simp]:
  "digit_value CHR ''n'' = None" "digit_value CHR ''t'' = None" "digit_value CHR ''f'' = None"
  "digit_value CHR ''s'' = None" "digit_value CHR ''['' = None" "digit_value CHR ''{'' = None"
  "digit_value CHR '']'' = None" "digit_value CHR ''}'' = None"
  by code_simp+

definition number_head :: "string \<Rightarrow> bool" where
  "number_head w \<longleftrightarrow> w \<noteq> [] \<and> (digit_value (hd w) \<noteq> None \<or> hd w = CHR ''-'')"

lemma number_head_show_int: "number_head (show_int i)"
proof (cases "i < 0")
  case True
  then show ?thesis by (simp add: number_head_def show_int_def)
next
  case False
  have "hd (show_nat (nat i)) \<in> set (show_nat (nat i))" by simp
  from digit_value_set_show_nat [OF this] False show ?thesis by (simp add: number_head_def show_int_def)
qed

lemma number_head_differs:
  assumes "number_head w" and "digit_value c = None" and "c \<noteq> CHR ''-''"
  shows "w \<noteq> c # cs" and "CutPrefix w (c # cs) = None"
  using assms by (cases w; auto simp: number_head_def CutPrefix_def)+

lemma compose_number:
  assumes "number_head w"
  shows "compose F (Suc fuel) (w # rest) =
     (case Atoi w of Some i \<Rightarrow> Some (Value (GoInt (word_of_int i)) rest) | None \<Rightarrow> Some (Value (GoString w) rest))"
  using number_head_differs [OF assms] by simp

lemma compose_str: "compose F (Suc fuel) ((''str:'' @ str) # rest) = Some (Value (GoString str) rest)"
  by (simp add: CutPrefix_def)

lemma compose_open:
  "compose F (Suc fuel) (''['' # rest) = compose_array F fuel [] rest"
  "compose F (Suc fuel) (''{'' # rest) = compose_map F fuel [] rest"
  by (simp_all add: CutPrefix_def)

text \<open>What the round trip of a value means, for any words that follow and any sufficient fuel.\<close>

definition reads_back :: "float_parser \<Rightarrow> any \<Rightarrow> bool" where
  "reads_back F v \<longleftrightarrow>
     unparse v \<noteq> [] \<and> hd (unparse v) \<noteq> '']'' \<and> hd (unparse v) \<noteq> ''}'' \<and>
     (\<forall>fuel rest. 2 * length (unparse v) + 1 \<le> fuel \<longrightarrow>
        compose F fuel (unparse v @ rest) = Some (Value v rest))"

lemma reads_back_fuel:
  "\<lbrakk> reads_back F v; 2 * length (unparse v) + 1 \<le> fuel \<rbrakk> \<Longrightarrow> compose F fuel (unparse v @ rest) = Some (Value v rest)"
  by (simp add: reads_back_def)

text \<open>Fuel for a non-empty part and for what follows it.\<close>

lemma fuel_split:
  fixes a b c f :: nat
  assumes "Suc 0 \<le> a" and "2 * (a + b + c) + 1 \<le> f"
  shows "2 * (a + b) + 1 \<le> f" and "2 * c + 2 \<le> f"
  using assms by simp_all

lemma compose_array_element:
  assumes "reads_back F v" and "2 * length (unparse v) + 1 \<le> fuel"
  shows "compose_array F (Suc fuel) arr (unparse v @ rest) = compose_array F fuel (arr @ [v]) rest"
proof -
  from assms(1) obtain w ws where "unparse v = w # ws" "w \<noteq> '']''"
    unfolding reads_back_def by (cases "unparse v") auto
  with reads_back_fuel [OF assms, of rest] show ?thesis by simp
qed

lemma compose_array_unparse:
  "\<lbrakk> \<forall>v \<in> set vs. reads_back F v; 2 * length (concat (map unparse vs)) + 2 \<le> fuel \<rbrakk> \<Longrightarrow>
     compose_array F fuel arr (concat (map unparse vs) @ '']'' # rest) = Some (Value (GoSlice (arr @ vs)) rest)"
proof (induction vs arbitrary: fuel arr)
  case Nil
  then show ?case by (cases fuel) simp_all
next
  case (Cons v vs)
  obtain f where f: "fuel = Suc f" using Cons.prems(2) by (cases fuel) auto
  have v: "reads_back F v" using Cons.prems(1) by simp
  then have "Suc 0 \<le> length (unparse v)" by (simp add: Suc_le_eq reads_back_def)
  moreover have "2 * (length (unparse v) + 0 + length (concat (map unparse vs))) + 1 \<le> f" using Cons.prems(2) f by simp
  ultimately have b: "2 * (length (unparse v) + 0) + 1 \<le> f" "2 * length (concat (map unparse vs)) + 2 \<le> f"
    by (rule fuel_split)+
  with compose_array_element [OF v b(1) [unfolded add_0_right]] Cons.IH [of f "arr @ [v]"] Cons.prems(1) f show ?case by simp
qed

lemma key_eq_plain: "cli_value b \<Longrightarrow> key_eq a b \<longleftrightarrow> a = b"
  by (cases a; cases b) simp_all

lemma map_put_fresh: "\<lbrakk> cli_value k; k \<notin> fst ` set m \<rbrakk> \<Longrightarrow> map_put m k v = m @ [(k, v)]"
  by (induction m) (auto simp: key_eq_plain)

lemma compose_map_element:
  assumes k: "reads_back F k" "hashable k" "cli_value k" "k \<notin> fst ` set m" and v: "reads_back F v"
    and "2 * (length (unparse k) + length (unparse v)) + 1 \<le> fuel"
  shows "compose_map F (Suc fuel) m (unparse k @ unparse v @ rest) = compose_map F fuel (m @ [(k, v)]) rest"
proof -
  from k(1) obtain w ws where "unparse k = w # ws" "w \<noteq> ''}''"
    unfolding reads_back_def by (cases "unparse k") auto
  moreover have "compose F fuel (unparse k @ unparse v @ rest) = Some (Value k (unparse v @ rest))"
    by (rule reads_back_fuel [OF k(1)]) (use assms(6) in simp)
  moreover have "compose F fuel (unparse v @ rest) = Some (Value v rest)"
    by (rule reads_back_fuel [OF v]) (use assms(6) in simp)
  moreover have "unparse v \<noteq> []" using v by (simp add: reads_back_def)
  ultimately show ?thesis using k by (simp add: map_put_fresh)
qed

lemma compose_map_unparse:
  "\<lbrakk> \<forall>(k, v) \<in> set kvs. reads_back F k \<and> reads_back F v \<and> hashable k \<and> cli_value k;
     distinct (map fst (m @ kvs)); 2 * length (concat (map (\<lambda>(k, v). unparse k @ unparse v) kvs)) + 2 \<le> fuel \<rbrakk> \<Longrightarrow>
     compose_map F fuel m (concat (map (\<lambda>(k, v). unparse k @ unparse v) kvs) @ ''}'' # rest)
       = Some (Value (GoMapAny (m @ kvs)) rest)"
proof (induction kvs arbitrary: fuel m)
  case Nil
  then show ?case by (cases fuel) simp_all
next
  case (Cons kv kvs)
  obtain k v where kv: "kv = (k, v)" by (cases kv)
  obtain f where f: "fuel = Suc f" using Cons.prems(3) by (cases fuel) auto
  have r: "reads_back F k" "hashable k" "cli_value k" "reads_back F v" and n: "k \<notin> fst ` set m"
    using Cons.prems(1,2) kv by auto
  have "Suc 0 \<le> length (unparse k)" using r(1) by (simp add: Suc_le_eq reads_back_def)
  moreover have "2 * (length (unparse k) + length (unparse v)
      + length (concat (map (\<lambda>(k, v). unparse k @ unparse v) kvs))) + 1 \<le> f"
    using Cons.prems(3) f kv by simp
  ultimately have b: "2 * (length (unparse k) + length (unparse v)) + 1 \<le> f"
    "2 * length (concat (map (\<lambda>(k, v). unparse k @ unparse v) kvs)) + 2 \<le> f"
    by (rule fuel_split)+
  with compose_map_element [OF r(1-3) n r(4) b(1)] Cons.IH [of "m @ [(k, v)]" f] Cons.prems(1,2) f kv
  show ?case by simp
qed

lemma reads_backI:
  assumes "unparse v \<noteq> []" and "hd (unparse v) \<noteq> '']''" and "hd (unparse v) \<noteq> ''}''"
    and "\<And>f rest. 2 * length (unparse v) \<le> f \<Longrightarrow> compose F (Suc f) (unparse v @ rest) = Some (Value v rest)"
  shows "reads_back F v"
proof -
  have "compose F fuel (unparse v @ rest) = Some (Value v rest)" if "2 * length (unparse v) + 1 \<le> fuel" for fuel rest
    using that assms(4) by (cases fuel) simp_all
  with assms(1-3) show ?thesis by (simp add: reads_back_def)
qed

lemma reads_back_int: "reads_back F (GoInt i)"
proof -
  have "in_int64 (sint i)" using sint_ge [of i] sint_lt [of i] by (simp add: in_int64_def)
  then have a: "Atoi (show_int (sint i)) = Some (sint i)" by (rule Atoi_show_int)
  note h = number_head_show_int [of "sint i"]
  show ?thesis
    by (rule reads_backI)
       (use number_head_differs(1) [OF h] in \<open>simp_all add: compose_number [OF h] a del: compose.simps\<close>)
qed

lemma reads_back_str: "reads_back F (GoString str)"
proof (rule reads_backI)
  show "compose F (Suc f) (unparse (GoString str) @ rest) = Some (Value (GoString str) rest)" for f rest
    using compose_str by (simp del: compose.simps)
qed simp_all

lemma reads_back_slice: "\<forall>v \<in> set vs. reads_back F v \<Longrightarrow> reads_back F (GoSlice vs)"
proof (rule reads_backI)
  fix f rest
  assume v: "\<forall>v \<in> set vs. reads_back F v" and f: "2 * length (unparse (GoSlice vs)) \<le> f"
  then have "2 * length (concat (map unparse vs)) + 2 \<le> f" by simp
  from compose_array_unparse [OF v this, of "[]" rest]
  show "compose F (Suc f) (unparse (GoSlice vs) @ rest) = Some (Value (GoSlice vs) rest)"
    by (simp add: compose_open del: compose.simps)
qed simp_all

lemma reads_back_map:
  assumes "\<forall>(k, v) \<in> set m. reads_back F k \<and> reads_back F v \<and> hashable k \<and> cli_value k" and "distinct (map fst m)"
  shows "reads_back F (GoMapAny m)"
proof (rule reads_backI)
  fix f rest
  assume f: "2 * length (unparse (GoMapAny m)) \<le> f"
  then have "2 * length (concat (map (\<lambda>(k, v). unparse k @ unparse v) m)) + 2 \<le> f" by simp
  from compose_map_unparse [OF assms(1) _ this, of "[]" rest] assms(2)
  show "compose F (Suc f) (unparse (GoMapAny m) @ rest) = Some (Value (GoMapAny m) rest)"
    by (simp add: compose_open del: compose.simps)
qed simp_all

lemma cli_value_reads_back: "cli_value v \<Longrightarrow> reads_back F v"
proof (induction v rule: unparse.induct)
  case 1
  show ?case by (rule reads_backI) simp_all
next
  case (2 b)
  show ?case by (rule reads_backI) simp_all
next
  case (3 i)
  show ?case by (rule reads_back_int)
next
  case (4 str)
  show ?case by (rule reads_back_str)
next
  case (5 vs)
  then show ?case by (intro reads_back_slice) simp
next
  case (6 m)
  have "reads_back F k \<and> reads_back F v \<and> hashable k \<and> cli_value k" if "(k, v) \<in> set m" for k v
    using 6 that by fastforce
  then show ?case using 6(3) by (intro reads_back_map) auto
qed simp_all

section \<open>Properties\<close>

text \<open>
  \<open>composeArgs\<close> always returns: whatever the words, it gives a value, an error or the panic
  of an unhashable map key, and a value leaves a proper suffix of the words.
\<close>

lemma composeArgs_returns:
  "(\<exists>v used rest. composeArgs F args = Some (Value v rest) \<and> used \<noteq> [] \<and> args = used @ rest)
     \<or> (\<exists>e. composeArgs F args = Some (Invalid e)) \<or> composeArgs F args = Some KeyPanic"
proof -
  obtain x where x: "composeArgs F args = Some x"
    and c: "x = Value v rest \<Longrightarrow> \<exists>used. used \<noteq> [] \<and> args = used @ rest" for v rest
    using compose_total [of F "2 * length args + 1"]
    unfolding composeArgs_def compose_ok_def consumes_def by auto
  then show ?thesis by (cases x) blast+
qed

lemma cli_words: "\<forall>v \<in> set vs. cli_value v \<Longrightarrow> run F (m # concat (map unparse vs)) = Some (CallServer m vs)"
  using reads_back_fuel [OF reads_back_slice order_refl, of vs F "[]"]
  by (simp add: cli_value_reads_back run_def composeArgs_def del: compose.simps)

text \<open>
  C28. The words written for a list of values, whatever strings, integers, arrays and maps they
  contain, make the command call the server with exactly these values as parameters.
\<close>

theorem cli_roundtrip:
  assumes "\<forall>v \<in> set vs. cli_value v"
  shows "run F (method # concat (map unparse vs)) = Some (CallServer method vs)"
  using assms by (rule cli_words)

theorem cli_roundtrip_witness:
  "run \<lparr> ParseFloat32 = (\<lambda>_. None), ParseFloat64 = (\<lambda>_. None) \<rparr>
     [''m'', ''['', ''str:]'', ''nil'', '']'', ''true''] = Some (CallServer ''m'' [GoSlice [GoString '']'', GoNil], GoBool True])"
  using cli_roundtrip [of "[GoSlice [GoString '']'', GoNil], GoBool True]"
      "\<lparr> ParseFloat32 = (\<lambda>_. None), ParseFloat64 = (\<lambda>_. None) \<rparr>" "''m''"] by simp

end
