(* ===== verification/Examples.thy ===== *)
theory Examples
  imports Rpc_Endpoint Cli
begin

text \<open>
  The programs of \<open>examples/\<close>: the \<open>ping\<close> and \<open>mult\<close> servers, the ping client, the generic
  client with its reading of the command line, and the dump of a MessagePack file. The product of two \<open>float64\<close>
  values is the parameter \<open>fmul\<close> on their IEEE bit patterns; dialling and printing are left out.
\<close>

section \<open>The servers\<close>

definition ping_handler :: request_handler where
  "ping_handler method ps =
     (if method = ''ping'' then (GoSlice ps, GoNil)
      else (GoNil, GoString (''method not found: '' @ method)))"

definition mult_handler :: "(64 word \<Rightarrow> 64 word \<Rightarrow> 64 word) \<Rightarrow> request_handler" where
  "mult_handler fmul method ps =
     (if method = ''mult'' then
        if length ps \<noteq> 2 then (GoNil, GoString ''invalid params'')
        else
          (case ps ! 0 of
             GoFloat64 a \<Rightarrow>
               (case ps ! 1 of
                  GoFloat64 b \<Rightarrow> (GoFloat64 (fmul a b), GoNil)
                | _ \<Rightarrow> (GoNil, GoString ''invalid param type, expected float64''))
           | _ \<Rightarrow> (GoNil, GoString ''invalid param type, expected float64''))
      else (GoNil, GoString (''method not found: '' @ method)))"

text \<open>
  The main functions: the server asks the router to register its method; it goes on to wait for
  requests when the answer, once it is there, says that both sending and registering worked.
\<close>

definition ping_server :: "msgpack \<Rightarrow> unit endpoint \<Rightarrow> (goerror + MessageID) \<times> unit endpoint" where
  "ping_server M ep = endpoint_request M ''$/register'' [GoString ''ping''] () ep"

definition mult_server :: "msgpack \<Rightarrow> unit endpoint \<Rightarrow> (goerror + MessageID) \<times> unit endpoint" where
  "mult_server M ep = endpoint_request M ''$/register'' [GoString ''mult''] () ep"

definition ping_server_waits :: "goerror + any \<times> any \<Rightarrow> bool" where
  "ping_server_waits answer =
     (case answer of Inl err \<Rightarrow> False | Inr (result, reqErr) \<Rightarrow> reqErr = GoNil)"

definition mult_server_waits :: "goerror + any \<times> any \<Rightarrow> bool" where
  "mult_server_waits answer =
     (case answer of Inl err \<Rightarrow> False | Inr (result, reqErr) \<Rightarrow> reqErr = GoNil)"

section \<open>The clients\<close>

text \<open>\<open>"HELLO"\<close>, 1, \<open>true\<close> and the \<open>float64\<close> 5.0.\<close>

definition ping_client_params :: "any list" where
  "ping_client_params = [GoString ''HELLO'', GoInt 1, GoBool True, GoFloat64 0x4014000000000000]"

definition ping_client :: "msgpack \<Rightarrow> unit endpoint \<Rightarrow> (goerror + MessageID) \<times> unit endpoint" where
  "ping_client M ep = endpoint_request M ''ping'' ping_client_params () ep"

definition generic_arg :: "string \<Rightarrow> any" where
  "generic_arg arg =
     (if arg = ''true'' then GoBool True
      else if arg = ''false'' then GoBool False
      else if arg = ''nil'' then GoNil
      else (case Atoi arg of
              Some i \<Rightarrow> GoInt (word_of_int i)
            | None \<Rightarrow> GoString arg))"

text \<open>The arguments are \<open>os.Args\<close>, with the name of the program first.\<close>

definition generic_sock_client :: "string list \<Rightarrow> cli_action" where
  "generic_sock_client osArgs =
     (if length osArgs < 2
      then Exit1 (''Usage: '' @ hd osArgs @ '' <METHOD> [<ARG> [<ARG> ...]]'')
      else CallServer (osArgs ! 1) (map generic_arg (drop 2 osArgs)))"

datatype generic_output = SendingFailed goerror | ResponseError any | ResponseResult any

definition generic_print :: "goerror + any \<times> any \<Rightarrow> generic_output" where
  "generic_print answer =
     (case answer of
        Inl err \<Rightarrow> SendingFailed err
      | Inr (reqRes, reqErr) \<Rightarrow> if reqErr \<noteq> GoNil then ResponseError reqErr else ResponseResult reqRes)"

section \<open>The dump\<close>

text \<open>The values dumped, and the error that ends the loop; with fuel for the loop.\<close>

fun msgpackdump :: "msgpack \<Rightarrow> nat \<Rightarrow> bytes \<Rightarrow> (any list \<times> goerror) option" where
  "msgpackdump M 0 s = None"
| "msgpackdump M (Suc fuel) s =
     (case DecodeInterface M s of
        (Inl err, s') \<Rightarrow> Some ([], err)
      | (Inr v, s') \<Rightarrow> map_option (\<lambda>(vs, err). (v # vs, err)) (msgpackdump M fuel s'))"

section \<open>What they do\<close>

lemma ping_handler_echo: "ping_handler ''ping'' ps = (GoSlice ps, GoNil)"
  by (simp add: ping_handler_def)

text \<open>The answer of the mult server is a product exactly when it is asked for one of two \<open>float64\<close> values.\<close>

lemma mult_handler_result:
  "snd (mult_handler fmul m ps) = GoNil \<longleftrightarrow> (\<exists>a b. m = ''mult'' \<and> ps = [GoFloat64 a, GoFloat64 b])"
proof (cases "length ps = 2")
  case True
  then obtain x y where "ps = [x, y]" by (cases ps; cases "tl ps") auto
  then show ?thesis by (simp add: mult_handler_def split: any.splits)
next
  case False
  then show ?thesis by (auto simp: mult_handler_def)
qed

lemma mult_handler_error: "snd (mult_handler fmul m ps) \<noteq> GoNil \<Longrightarrow> fst (mult_handler fmul m ps) = GoNil"
  by (auto simp: mult_handler_def split: any.splits)


context msgpack_format
begin

text \<open>A file of encoded values is dumped in order, up to the place where decoding fails.\<close>

lemma msgpackdump_values:
  assumes "\<forall>v \<in> set vs. wire v" and "DecodeInterface M rest = (Inl err, rest')"
  shows "msgpackdump M (Suc (length vs)) (concat (map (enc M) vs) @ rest) = Some (map norm vs, err)"
  using assms by (induction vs) (simp_all add: interface_enc)

end

section \<open>The two command lines\<close>

text \<open>Words without a meaning of their own to \<open>composeArgs\<close>.\<close>

definition plain_word :: "string \<Rightarrow> bool" where
  "plain_word w \<longleftrightarrow>
     w \<notin> {''['', '']'', ''{''} \<and>
     CutPrefix w ''f32:'' = None \<and> CutPrefix w ''f64:'' = None \<and> CutPrefix w ''str:'' = None"

lemma compose_plain:
  "plain_word w \<Longrightarrow> compose F (Suc fuel) (w # rest) = Some (Value (generic_arg w) rest)"
  by (simp add: plain_word_def generic_arg_def split: option.split)

lemma compose_array_plain:
  "\<lbrakk> \<forall>w \<in> set ws. plain_word w; 2 * length ws + 2 \<le> fuel \<rbrakk> \<Longrightarrow>
     compose_array F fuel arr (ws @ '']'' # rest) = Some (Value (GoSlice (arr @ map generic_arg ws)) rest)"
proof (induction ws arbitrary: fuel arr)
  case Nil
  then show ?case by (cases fuel) simp_all
next
  case (Cons w ws)
  from Cons.prems(2) obtain f where f: "fuel = Suc (Suc f)" "2 * length ws + 2 \<le> Suc f"
    by (cases fuel; cases "fuel - 1") auto
  have w: "w \<noteq> '']''" "plain_word w" using Cons.prems(1) by (auto simp: plain_word_def)
  from compose_plain [OF this(2)] Cons.IH [of "Suc f" "arr @ [generic_arg w]"] Cons.prems(1) f w(1)
  show ?case by (simp del: compose.simps)
qed

text \<open>
  C31. The two command line clients agree: on words that are neither brackets nor carry a type
  prefix, \<open>arduino-router-cli\<close> with its recursive reading of the arguments makes the very call
  that the plain loop of the generic example client makes.
\<close>

theorem clients_read_words_alike:
  assumes "\<forall>w \<in> set ws. plain_word w"
  shows "run F (m # ws) = Some (generic_sock_client (prog # m # ws))"
proof -
  let ?f = "Suc (Suc (Suc (Suc (2 * length ws))))"
  have "composeArgs F (''['' # ws @ ['']'']) = compose_array F ?f [] (ws @ ['']''])"
    by (simp add: composeArgs_def compose_open del: compose.simps compose_array.simps)
  also have "\<dots> = Some (Value (GoSlice (map generic_arg ws)) [])"
    using compose_array_plain [OF assms, of "?f" F "[]" "[]"] by simp
  finally show ?thesis by (simp add: run_def generic_sock_client_def)
qed

theorem clients_read_words_alike_witness:
  "run \<lparr> ParseFloat32 = (\<lambda>_. None), ParseFloat64 = (\<lambda>_. None) \<rparr> [''f'', ''true'', ''nil'', ''x'']
     = Some (generic_sock_client [''p'', ''f'', ''true'', ''nil'', ''x''])
   \<and> generic_sock_client [''p'', ''f'', ''true'', ''nil''] = CallServer ''f'' [GoBool True, GoNil]"
  using clients_read_words_alike [of "[''true'', ''nil'', ''x'']"
      "\<lparr> ParseFloat32 = (\<lambda>_. None), ParseFloat64 = (\<lambda>_. None) \<rparr>" "''f''" "''p''"]
  by (simp add: plain_word_def CutPrefix_def generic_sock_client_def generic_arg_def)

end
