(* ===== verification/End_To_End.thy ===== *)
theory End_To_End
  imports Router_Mux Examples
begin

text \<open>
  Two programs and the router between them. A call passes through five read and write steps:
  the caller's \<open>SendRequest\<close>, the router's read loop on the caller's connection, the read loop
  of the program that serves the method, the router's read loop on that program's connection, and the
  caller's read loop. Each reads exactly the bytes that the one before it wrote.
\<close>

section \<open>Bytes on their way\<close>

definition written :: "'k Connection \<Rightarrow> 'k Connection \<Rightarrow> bytes \<Rightarrow> bool" where
  "written c c' b \<longleftrightarrow> sent (conn_out c') = sent (conn_out c) @ b"

definition written_on :: "conn_id \<Rightarrow> 's world \<Rightarrow> 's world \<Rightarrow> bytes \<Rightarrow> bool" where
  "written_on cid w w' b \<longleftrightarrow> (\<exists>c c'. conns w cid = Some c \<and> conns w' cid = Some c' \<and> written c c' b)"

text \<open>The programs and the router: the caller on connection \<open>a\<close>, the server on connection \<open>b\<close>.\<close>

record ('k, 'j, 's) network =
  net_caller :: "'k endpoint"
  net_router :: "'s world"
  net_server :: "'j endpoint"

definition call_passes ::
  "msgpack \<Rightarrow> conn_id \<Rightarrow> conn_id \<Rightarrow> request_handler \<Rightarrow> string \<Rightarrow> any list \<Rightarrow> 'k
   \<Rightarrow> ('k, 'j, 's) network \<Rightarrow> ('k, 'j, 's) network \<Rightarrow> bool" where
  "call_passes M a b serve m ps k n n' \<longleftrightarrow>
     (\<exists>mid caller1 w1 req fwd resp back.
        endpoint_request M m ps k (net_caller n) = (Inr mid, caller1) \<and>
        written (ep_conn (net_caller n)) (ep_conn caller1) req \<and>
        reads M True (router_handlers M a) req (Running (net_router n)) (Running w1) \<and>
        written_on b (net_router n) w1 fwd \<and>
        reads M False (endpoint_handlers M serve) fwd (net_server n) (net_server n') \<and>
        written (ep_conn (net_server n)) (ep_conn (net_server n')) resp \<and>
        reads M True (router_handlers M b) resp (Running w1) (Running (net_router n')) \<and>
        written_on a w1 (net_router n') back \<and>
        reads M False (endpoint_handlers M no_requests) back caller1 (net_caller n'))"

section \<open>The programs' ends\<close>

abbreviation conn_limit :: "'k Connection \<Rightarrow> int option" where
  "conn_limit c \<equiv> map_option lb_limit (msgpBuffer c)"

lemma endpoint_request_healthy:
  assumes h: "healthy (ep_conn ep)"
    and ok: "snd (Encode M (GoSlice (request_message (request_id (ep_conn ep)) m ps))) = None"
    and fit: "fits M (request_message (request_id (ep_conn ep)) m ps) (ep_conn ep)"
  shows "\<exists>c. endpoint_request M m ps k ep = (Inr (request_id (ep_conn ep)), ep\<lparr>ep_conn := c\<rparr>)
     \<and> forwards M k m ps (ep_conn ep) c"
proof -
  from sendRequest_healthy [OF h ok, of k] fit obtain c where
    s: "SendRequestWithAsyncResult M k m ps (ep_conn ep) = (None, c)" and f: "forwards M k m ps (ep_conn ep) c"
    by auto
  from s obtain mid where "sendRequest M m ps k (ep_conn ep) = (Inr mid, c)"
    by (auto simp: SendRequestWithAsyncResult_def split: prod.splits sum.splits)
  moreover from this have "mid = request_id (ep_conn ep)"
    using sendRequest_ok(3) [of "ep_conn ep"] h by (auto simp: healthy_def request_id_def)
  ultimately show ?thesis using f by (auto simp: endpoint_request_def)
qed

lemma served_healthy:
  assumes "serve m ps = (res, err)" and "healthy (ep_conn ep)"
    and "snd (Encode M (GoSlice (response_message mid err res))) = None"
    and "fits M (response_message mid err res) (ep_conn ep)"
  shows "\<exists>c. handleIncomingRequest M serve mid m ps ep = ep\<lparr>ep_conn := c\<rparr>
     \<and> sends M (response_message mid err res) (ep_conn ep) c"
  using send_healthy [OF assms(2,3)] assms(1,4) by (auto simp: handleIncomingRequest_def sendResponse_def)

lemma receive_pending:
  "activeOutRequests (ep_conn ep) mid = Some req \<Longrightarrow>
     receiveResponse mid err res ep =
       ep\<lparr>ep_conn := (ep_conn ep)\<lparr>activeOutRequests := (activeOutRequests (ep_conn ep))(mid := None)\<rparr>,
          ep_answers := ep_answers ep @ [(req_res req, res, err)]\<rparr>"
  by (simp add: receiveResponse_def handleIncomingResponse_def)

lemma endpoint_handlers_apply [simp]:
  "onRequest (endpoint_handlers M serve) = handleIncomingRequest M serve"
  "onResponse (endpoint_handlers M serve) = receiveResponse"
  by (simp_all add: endpoint_handlers_def)

lemma healthy_answered: "healthy c \<Longrightarrow> healthy (c\<lparr>activeOutRequests := (activeOutRequests c)(mid := None)\<rparr>)"
  by (auto simp: healthy_def conn_inv_def limit_ok_def)

lemma forwards_leaves:
  "forwards M k m raw c c' \<Longrightarrow>
     healthy c' \<and> conn_limit c' = conn_limit c
     \<and> activeOutRequests c' (request_id c) = Some \<lparr>req_res = k, req_method = m\<rparr>"
  by (simp add: forwards_def)

lemma sends_leaves: "sends M d c c' \<Longrightarrow> healthy c' \<and> conn_limit c' = conn_limit c"
  by (simp add: sends_def)

section \<open>A call\<close>

text \<open>A network whose connections work, with a route for the method to the server.\<close>

definition network_ok :: "conn_id \<Rightarrow> conn_id \<Rightarrow> ('k, 'j, 's) network \<Rightarrow> bool" where
  "network_ok a b n \<longleftrightarrow>
     a \<noteq> b \<and> healthy (ep_conn (net_caller n)) \<and> healthy (ep_conn (net_server n)) \<and>
     (\<exists>ca. conns (net_router n) a = Some ca \<and> healthy ca) \<and> (\<exists>cb. conns (net_router n) b = Some cb \<and> healthy cb)"

definition serves :: "conn_id \<Rightarrow> string \<Rightarrow> ('k, 'j, 's) network \<Rightarrow> bool" where
  "serves b m n \<longleftrightarrow> client_method m (net_router n) \<and> routes (router (net_router n)) m = Some b"

text \<open>No connection limits the size of its messages in a way that matters for this call.\<close>

definition call_fits ::
  "msgpack \<Rightarrow> conn_id \<Rightarrow> conn_id \<Rightarrow> string \<Rightarrow> any list \<Rightarrow> any \<Rightarrow> any \<Rightarrow> ('k, 'j, 's) network \<Rightarrow> bool" where
  "call_fits M a b m vs err res n \<longleftrightarrow>
     (\<forall>mid. fits M (request_message mid m vs) (ep_conn (net_caller n)) \<and>
        fits M (response_message mid err res) (ep_conn (net_server n)) \<and>
        (\<forall>ca. conns (net_router n) a = Some ca \<longrightarrow> fits M (response_message mid err res) ca) \<and>
        (\<forall>cb. conns (net_router n) b = Some cb \<longrightarrow> fits M (request_message mid m vs) cb))"

text \<open>What the call leaves behind: the caller has its answer, and everything else is as it was.\<close>

definition same_limits :: "conn_id \<Rightarrow> conn_id \<Rightarrow> ('k, 'j, 's) network \<Rightarrow> ('k, 'j, 's) network \<Rightarrow> bool" where
  "same_limits a b n n' \<longleftrightarrow>
     conn_limit (ep_conn (net_caller n')) = conn_limit (ep_conn (net_caller n)) \<and>
     conn_limit (ep_conn (net_server n')) = conn_limit (ep_conn (net_server n)) \<and>
     (\<forall>cid \<in> {a, b}. map_option conn_limit (conns (net_router n') cid) = map_option conn_limit (conns (net_router n) cid))"

definition call_done ::
  "conn_id \<Rightarrow> conn_id \<Rightarrow> ('k \<times> any \<times> any) \<Rightarrow> ('k, 'j, 's) network \<Rightarrow> ('k, 'j, 's) network \<Rightarrow> bool" where
  "call_done a b ans n n' \<longleftrightarrow>
     ep_answers (net_caller n') = ep_answers (net_caller n) @ [ans] \<and>
     ep_answers (net_server n') = ep_answers (net_server n) \<and>
     router (net_router n') = router (net_router n) \<and> app (net_router n') = app (net_router n) \<and>
     (\<forall>cid. cid \<notin> {a, b} \<longrightarrow> conns (net_router n') cid = conns (net_router n) cid) \<and>
     network_ok a b n' \<and> same_limits a b n n'"

context msgpack_sizes
begin

text \<open>The read loops of the programs, each on the message it gets.\<close>

lemma server_reads_request:
  assumes "serve m (map norm vs) = (res, err)" "wire res" "wire err" "healthy (ep_conn ep)"
    and "wire (GoSlice vs)" "length m < 2 ^ 32" "fits M (response_message mid err res) (ep_conn ep)"
  shows "\<exists>c. reads M False (endpoint_handlers M serve)
       (enc M (GoSlice (request_message mid m (map (field_view M norm True) vs)))) ep (ep\<lparr>ep_conn := c\<rparr>)
     \<and> sends M (response_message mid err res) (ep_conn ep) c"
proof -
  have "field_view M norm False = norm" by (simp add: fun_eq_iff field_view_def)
  with reads_request [OF raw_view assms(5,6), where asRaw = False and H = "endpoint_handlers M serve"
      and mid = mid and w = ep]
  have "reads M False (endpoint_handlers M serve)
       (enc M (GoSlice (request_message mid m (map (field_view M norm True) vs)))) ep
       (handleIncomingRequest M serve mid m (map norm vs) ep)" by simp
  with served_healthy [where serve = serve and m = m and ps = "map norm vs", OF assms(1,4) response_encode_ok [OF represents_refl(1) represents_refl(1) assms(3,2)] assms(7)]
  show ?thesis by auto
qed

lemma caller_reads_response:
  assumes "wire err" "wire res"
  shows "reads M False (endpoint_handlers M serve)
      (enc M (GoSlice (response_message mid (field_view M norm True err) (field_view M norm True res))))
      ep (receiveResponse mid (norm err) (norm res) ep)"
  using reads_response [OF raw_view1 raw_view1 assms, where asRaw = False
        and H = "endpoint_handlers M serve" and mid = mid and w = ep]
  by (simp add: field_view_def)

lemma call_passes_ok:
  assumes net: "network_ok a b n" "serves b m n"
    and v: "wire (GoSlice vs)" "length m < 2 ^ 32"
    and served: "serve m (map norm vs) = (res, err)" "wire res" "wire err"
    and fit: "call_fits M a b m vs err res n"
  shows "\<exists>n'. call_passes M a b serve m vs k n n' \<and> call_done a b (k, norm res, norm err) n n'"
proof -
  obtain caller w srv where n: "n = \<lparr>net_caller = caller, net_router = w, net_server = srv\<rparr>"
    by (cases n) auto
  from net n obtain ca cb where ab: "a \<noteq> b" and h: "healthy (ep_conn caller)" "healthy (ep_conn srv)"
    and c: "conns w a = Some ca" "healthy ca" "conns w b = Some cb" "healthy cb"
    and r: "client_method m w" "routes (router w) m = Some b"
    by (auto simp: network_ok_def serves_def)
  let ?mid = "request_id (ep_conn caller)" and ?bid = "request_id cb"
  have fits: "fits M (request_message ?mid m vs) (ep_conn caller)" "fits M (request_message ?bid m vs) cb"
    "fits M (response_message ?bid err res) (ep_conn srv)" "fits M (response_message ?mid err res) ca"
    using fit n c by (simp_all add: call_fits_def)
  from endpoint_request_healthy [OF h(1) request_encode_ok [OF represents_refl(2) v] fits(1), of k]
  obtain c1 where q: "endpoint_request M m vs k caller = (Inr ?mid, caller\<lparr>ep_conn := c1\<rparr>)"
    and f1: "forwards M k m vs (ep_conn caller) c1" by blast
  from router_reads_request [OF r c(3,4) v fits(2), of a ?mid] obtain cb1 where
    r1: "reads M True (router_handlers M a) (enc M (GoSlice (request_message ?mid m vs)))
       (Running w) (Running (w\<lparr>conns := (conns w)(b \<mapsto> cb1)\<rparr>))"
    and f2: "forwards M (a, ?mid) m (map (field_view M norm True) vs) cb cb1" by blast
  from server_reads_request [where serve = serve and m = m and vs = vs, OF served h(2) v fits(3)] obtain s1 where
    r2: "reads M False (endpoint_handlers M serve)
       (enc M (GoSlice (request_message ?bid m (map (field_view M norm True) vs)))) srv (srv\<lparr>ep_conn := s1\<rparr>)"
    and f3: "sends M (response_message ?bid err res) (ep_conn srv) s1" by blast
  let ?w1 = "w\<lparr>conns := (conns w)(b \<mapsto> cb1)\<rparr>"
  have "conns ?w1 b = Some cb1" "conns ?w1 a = Some ca"
    "activeOutRequests cb1 ?bid = Some \<lparr>req_res = (a, ?mid), req_method = m\<rparr>"
    using ab c f2 by (auto simp: forwards_def)
  from router_reads_response [OF this(1,3) _ this(2) c(2) ab served(3,2) fits(4)] obtain ca2 where
    r3: "reads M True (router_handlers M b) (enc M (GoSlice (response_message ?bid err res))) (Running ?w1)
       (Running (?w1\<lparr>conns := (conns ?w1)(b \<mapsto> cb1\<lparr>activeOutRequests := (activeOutRequests cb1)(?bid := None)\<rparr>, a \<mapsto> ca2)\<rparr>))"
       (is "reads _ _ _ _ _ (Running ?w2)")
    and f4: "sends M (response_message ?mid (field_view M norm True err) (field_view M norm True res)) ca ca2"
    by auto
  let ?n' = "\<lparr>net_caller = receiveResponse ?mid (norm err) (norm res) (caller\<lparr>ep_conn := c1\<rparr>),
     net_router = ?w2, net_server = srv\<lparr>ep_conn := s1\<rparr>\<rparr>"
  have "call_done a b (k, norm res, norm err) n ?n'"
    using n ab c forwards_leaves [OF f1] forwards_leaves [OF f2] sends_leaves [OF f3] sends_leaves [OF f4]
    by (simp add: call_done_def network_ok_def same_limits_def receive_pending healthy_answered)
  moreover have "call_passes M a b serve m vs k n ?n'"
    unfolding call_passes_def
    by (rule exI [of _ ?mid], rule exI [of _ "caller\<lparr>ep_conn := c1\<rparr>"], rule exI [of _ ?w1])
       (use n q f1 f2 f3 f4 ab c r1 r2 r3 caller_reads_response [OF served(3,2)]
         in \<open>fastforce simp: forwards_def sends_def written_def written_on_def\<close>)
  ultimately show ?thesis by blast
qed

end

section \<open>Calls in sequence\<close>

text \<open>
  What the caller is promised: for each call, in order, the answer of the serving program, on
  values that have passed over the wire.
\<close>

type_synonym 'k call = "string \<times> any list \<times> 'k"

definition remote_call :: "(any \<Rightarrow> any) \<Rightarrow> request_handler \<Rightarrow> 'k call \<Rightarrow> 'k \<times> any \<times> any" where
  "remote_call nrm serve call =
     (case call of (m, vs, k) \<Rightarrow> case serve m (map nrm vs) of (res, err) \<Rightarrow> (k, nrm res, nrm err))"

fun calls_pass ::
  "msgpack \<Rightarrow> conn_id \<Rightarrow> conn_id \<Rightarrow> request_handler \<Rightarrow> 'k call list
   \<Rightarrow> ('k, 'j, 's) network \<Rightarrow> ('k, 'j, 's) network \<Rightarrow> bool" where
  "calls_pass M a b serve [] n n' \<longleftrightarrow> n' = n"
| "calls_pass M a b serve ((m, vs, k) # calls) n n' \<longleftrightarrow>
     (\<exists>n1. call_passes M a b serve m vs k n n1 \<and> calls_pass M a b serve calls n1 n')"

text \<open>A call that the network can carry: its method is the server's, and its values are wire values that fit.\<close>

definition call_ok ::
  "msgpack \<Rightarrow> (any \<Rightarrow> any) \<Rightarrow> (any \<Rightarrow> bool) \<Rightarrow> conn_id \<Rightarrow> conn_id \<Rightarrow> request_handler \<Rightarrow> ('k, 'j, 's) network
   \<Rightarrow> 'k call \<Rightarrow> bool" where
  "call_ok M nrm wr a b serve n call \<longleftrightarrow>
     (case call of (m, vs, k) \<Rightarrow> case serve m (map nrm vs) of (res, err) \<Rightarrow>
        serves b m n \<and> wr (GoSlice vs) \<and> length m < 2 ^ 32 \<and> wr res \<and> wr err
        \<and> call_fits M a b m vs err res n)"

lemma fits_option_cong:
  assumes "map_option conn_limit x' = map_option conn_limit x"
  shows "(\<forall>c. x' = Some c \<longrightarrow> fits M d c) = (\<forall>c. x = Some c \<longrightarrow> fits M d c)"
proof (cases x)
  case (Some c)
  with assms obtain c' where "x' = Some c'" "conn_limit c' = conn_limit c" by auto
  with Some fits_cong [of c' c M d] show ?thesis by simp
qed (use assms in simp)

lemma call_fits_same:
  assumes "same_limits a b n n'"
  shows "call_fits M a b m vs err res n' = call_fits M a b m vs err res n"
proof -
  have "(\<forall>c. conns (net_router n') cid = Some c \<longrightarrow> fits M d c) = (\<forall>c. conns (net_router n) cid = Some c \<longrightarrow> fits M d c)"
    if "cid \<in> {a, b}" for cid d
    by (rule fits_option_cong) (use assms that in \<open>auto simp: same_limits_def\<close>)
  moreover have "fits M d (ep_conn (net_caller n')) = fits M d (ep_conn (net_caller n))"
    "fits M d (ep_conn (net_server n')) = fits M d (ep_conn (net_server n))" for d
    using assms by (auto simp: same_limits_def intro!: fits_cong)
  ultimately show ?thesis by (simp add: call_fits_def)
qed

lemma call_ok_done:
  assumes "call_done a b ans n n'"
  shows "call_ok M nrm wr a b serve n' call = call_ok M nrm wr a b serve n call"
proof -
  have "serves b m n' = serves b m n" for m
    using assms by (simp add: serves_def client_method_def call_done_def)
  moreover have "call_fits M a b m vs err res n' = call_fits M a b m vs err res n" for m vs err res
    by (rule call_fits_same) (use assms in \<open>simp add: call_done_def\<close>)
  ultimately show ?thesis by (simp add: call_ok_def split: prod.split)
qed

context msgpack_sizes
begin

lemma calls_pass_ok:
  "\<lbrakk> network_ok a b n; \<forall>call \<in> set calls. call_ok M norm wire a b serve n call \<rbrakk> \<Longrightarrow>
     \<exists>n'. calls_pass M a b serve calls n n'
       \<and> ep_answers (net_caller n') = ep_answers (net_caller n) @ map (remote_call norm serve) calls
       \<and> router (net_router n') = router (net_router n) \<and> app (net_router n') = app (net_router n)
       \<and> network_ok a b n'"
proof (induction calls arbitrary: n)
  case Nil
  then show ?case by simp
next
  case (Cons call calls)
  obtain m vs k where call: "call = (m, vs, k)" by (cases call) auto
  obtain res err where sv: "serve m (map norm vs) = (res, err)" by (cases "serve m (map norm vs)") auto
  have ok: "serves b m n" "wire (GoSlice vs)" "length m < 2 ^ 32" "wire res" "wire err"
    "call_fits M a b m vs err res n"
    using Cons.prems(2) call sv by (simp_all add: call_ok_def)
  from call_passes_ok [where serve = serve and m = m and vs = vs and k = k, OF Cons.prems(1) ok(1-3) sv ok(4-6)] obtain n1 where
    p: "call_passes M a b serve m vs k n n1" and d: "call_done a b (k, norm res, norm err) n n1" by blast
  have "network_ok a b n1" using d by (simp add: call_done_def)
  moreover have "\<forall>call \<in> set calls. call_ok M norm wire a b serve n1 call"
    using Cons.prems(2) call_ok_done [OF d] by auto
  ultimately obtain n' where "calls_pass M a b serve calls n1 n'"
    "ep_answers (net_caller n') = ep_answers (net_caller n1) @ map (remote_call norm serve) calls"
    "router (net_router n') = router (net_router n1)" "app (net_router n') = app (net_router n1)" "network_ok a b n'"
    using Cons.IH by blast
  with p d call sv show ?case
    by (intro exI [of _ n']) (auto simp: call_done_def remote_call_def)
qed

end

section \<open>Registering a method\<close>

text \<open>
  The server asks the router to register a method, as the main functions of the example servers do,
  and reads the answer.
\<close>

definition registration_passes ::
  "msgpack \<Rightarrow> conn_id \<Rightarrow> request_handler \<Rightarrow> string \<Rightarrow> 'j \<Rightarrow> ('k, 'j, 's) network \<Rightarrow> ('k, 'j, 's) network \<Rightarrow> bool" where
  "registration_passes M b serve m j n n' \<longleftrightarrow>
     net_caller n' = net_caller n \<and>
     (\<exists>mid server1 req back.
        endpoint_request M ''$/register'' [GoString m] j (net_server n) = (Inr mid, server1) \<and>
        written (ep_conn (net_server n)) (ep_conn server1) req \<and>
        reads M True (router_handlers M b) req (Running (net_router n)) (Running (net_router n')) \<and>
        written_on b (net_router n) (net_router n') back \<and>
        reads M False (endpoint_handlers M serve) back server1 (net_server n'))"

definition registration_fits :: "msgpack \<Rightarrow> conn_id \<Rightarrow> string \<Rightarrow> ('k, 'j, 's) network \<Rightarrow> bool" where
  "registration_fits M b m n \<longleftrightarrow>
     (\<forall>mid. fits M (request_message mid ''$/register'' [GoString m]) (ep_conn (net_server n)) \<and>
        (\<forall>cb. conns (net_router n) b = Some cb \<longrightarrow> fits M (response_message mid GoNil (GoBool True)) cb))"

context msgpack_sizes
begin

lemma router_reads_register:
  assumes "conns w b = Some cb" "healthy cb" "length m < 2 ^ 31" "routes (router w) m = None"
    and "fits M (response_message mid GoNil (GoBool True)) cb"
  shows "\<exists>cb1 r'. reads M True (router_handlers M b) (enc M (GoSlice (request_message mid ''$/register'' [GoString m])))
       (Running w) (Running (w\<lparr>router := r', conns := (conns w)(b \<mapsto> cb1)\<rparr>))
     \<and> sends M (response_message mid GoNil (GoBool True)) cb cb1
     \<and> routes r' = (routes (router w))(m \<mapsto> b) \<and> routesInternal r' = routesInternal (router w)"
proof -
  have "wire (GoSlice [GoString m])" using assms(3) by (simp add: wire_slice wire_string)
  from reads_request [OF represents_refl(2) this, where asRaw = True and H = "router_handlers M b" and mid = mid
      and m = "''$/register''" and w = "Running w"]
  have "reads M True (router_handlers M b) (enc M (GoSlice (request_message mid ''$/register'' [GoString m])))
     (Running w) (handleRequest M b mid ''$/register'' [field_view M norm True (GoString m)] w)" by simp
  moreover from register_handled [OF msgpack_sizes_axioms assms(1,2,3), of mid] assms(4) obtain cb1 r' where
    "handleRequest M b mid ''$/register'' [field_view M norm True (GoString m)] w
       = Running (w\<lparr>router := r', conns := (conns w)(b \<mapsto> cb1)\<rparr>)"
    "sends M (fitted_response M cb mid GoNil (GoBool True)) cb cb1"
    "routes r' = (routes (router w))(m \<mapsto> b)" "routesInternal r' = routesInternal (router w)" by auto
  ultimately show ?thesis using assms(5) by (auto simp: fitted_response_def)
qed

lemma registration_passes_ok:
  assumes net: "network_ok a b n" and m: "length m < 2 ^ 31" "client_method m (net_router n)"
    and free: "routes (router (net_router n)) m = None" and fit: "registration_fits M b m n"
  shows "\<exists>n'. registration_passes M b serve m j n n'
     \<and> ep_answers (net_server n') = ep_answers (net_server n) @ [(j, norm (GoBool True), GoNil)]
     \<and> routes (router (net_router n')) = (routes (router (net_router n)))(m \<mapsto> b)
     \<and> network_ok a b n' \<and> serves b m n' \<and> same_limits a b n n'"
proof -
  obtain caller w srv where n: "n = \<lparr>net_caller = caller, net_router = w, net_server = srv\<rparr>"
    by (cases n) auto
  from net n obtain ca cb where ab: "a \<noteq> b" and h: "healthy (ep_conn caller)" "healthy (ep_conn srv)"
    and c: "conns w a = Some ca" "healthy ca" "conns w b = Some cb" "healthy cb"
    by (auto simp: network_ok_def)
  let ?mid = "request_id (ep_conn srv)"
  have v: "wire (GoSlice [GoString m])" "length ''$/register'' < 2 ^ 32"
    using m(1) by (simp_all add: wire_slice wire_string)
  have fits: "fits M (request_message ?mid ''$/register'' [GoString m]) (ep_conn srv)"
    "fits M (response_message ?mid GoNil (GoBool True)) cb"
    using fit n c by (simp_all add: registration_fits_def)
  from endpoint_request_healthy [OF h(2) request_encode_ok [OF represents_refl(2) v] fits(1), of j]
  obtain s1 where q: "endpoint_request M ''$/register'' [GoString m] j srv = (Inr ?mid, srv\<lparr>ep_conn := s1\<rparr>)"
    and f1: "forwards M j ''$/register'' [GoString m] (ep_conn srv) s1" by blast
  have "routes (router w) m = None" using free n by simp
  from router_reads_register [OF c(3,4) m(1) this fits(2)] obtain cb1 r' where
    r1: "reads M True (router_handlers M b) (enc M (GoSlice (request_message ?mid ''$/register'' [GoString m])))
       (Running w) (Running (w\<lparr>router := r', conns := (conns w)(b \<mapsto> cb1)\<rparr>))"
    and f2: "sends M (response_message ?mid GoNil (GoBool True)) cb cb1"
    and rr: "routes r' = (routes (router w))(m \<mapsto> b)" "routesInternal r' = routesInternal (router w)" by blast
  let ?n' = "\<lparr>net_caller = caller, net_router = w\<lparr>router := r', conns := (conns w)(b \<mapsto> cb1)\<rparr>,
     net_server = receiveResponse ?mid GoNil (norm (GoBool True)) (srv\<lparr>ep_conn := s1\<rparr>)\<rparr>"
  have "reads M False (endpoint_handlers M serve) (enc M (GoSlice (response_message ?mid GoNil (GoBool True))))
     (srv\<lparr>ep_conn := s1\<rparr>) (net_server ?n')"
    using reads_response [OF represents_refl(1) represents_refl(1) wire_nil wire_bool, where asRaw = False
        and H = "endpoint_handlers M serve" and mid = ?mid] by (simp add: field_view_def norm_nil)
  with r1 q f1 f2 n c have "registration_passes M b serve m j n ?n'"
    unfolding registration_passes_def by (auto simp: forwards_def sends_def written_def written_on_def)
  moreover have "network_ok a b ?n' \<and> same_limits a b n ?n'
     \<and> ep_answers (net_server ?n') = ep_answers (net_server n) @ [(j, norm (GoBool True), GoNil)]"
    using n ab c h forwards_leaves [OF f1] sends_leaves [OF f2]
    by (simp add: network_ok_def same_limits_def receive_pending healthy_answered)
  moreover have "serves b m ?n'" "routes (router (net_router ?n')) = (routes (router (net_router n)))(m \<mapsto> b)"
    using m(2) n rr by (simp_all add: serves_def client_method_def)
  ultimately show ?thesis by blast
qed

lemma register_then_calls:
  assumes net: "network_ok a b n" "length m < 2 ^ 31" "client_method m (net_router n)"
      "routes (router (net_router n)) m = None" "registration_fits M b m n"
    and calls: "\<And>m' vs k res err. \<lbrakk> (m', vs, k) \<in> set calls; serve m' (map norm vs) = (res, err) \<rbrakk> \<Longrightarrow>
        m' = m \<and> wire (GoSlice vs) \<and> wire res \<and> wire err \<and> call_fits M a b m vs err res n"
  shows "\<exists>n1 n'. registration_passes M b serve m j n n1 \<and> calls_pass M a b serve calls n1 n'
     \<and> ep_answers (net_server n1) = ep_answers (net_server n) @ [(j, norm (GoBool True), GoNil)]
     \<and> ep_answers (net_caller n') = ep_answers (net_caller n) @ map (remote_call norm serve) calls
     \<and> routes (router (net_router n')) = (routes (router (net_router n)))(m \<mapsto> b)"
proof -
  from registration_passes_ok [OF net, where serve = serve and j = j] obtain n1 where
    r: "registration_passes M b serve m j n n1"
      "ep_answers (net_server n1) = ep_answers (net_server n) @ [(j, norm (GoBool True), GoNil)]"
      "routes (router (net_router n1)) = (routes (router (net_router n)))(m \<mapsto> b)"
      "network_ok a b n1" "serves b m n1" "same_limits a b n n1" by blast
  have "call_ok M norm wire a b serve n1 call" if "call \<in> set calls" for call
  proof -
    obtain m' vs k res err where "call = (m', vs, k)" "serve m' (map norm vs) = (res, err)"
      by (cases call; cases "serve (fst call) (map norm (fst (snd call)))") auto
    with calls [of m' vs k res err] that r(5) call_fits_same [OF r(6)] net(2) show ?thesis
      by (simp add: call_ok_def)
  qed
  with calls_pass_ok [OF r(4), where calls = calls] obtain n' where
    "calls_pass M a b serve calls n1 n'"
    "ep_answers (net_caller n') = ep_answers (net_caller n1) @ map (remote_call norm serve) calls"
    "router (net_router n') = router (net_router n1)" by blast
  with r show ?thesis by (intro exI [of _ n1] exI [of _ n']) (simp add: registration_passes_def)
qed

end

section \<open>The command line client\<close>

text \<open>
  \<open>arduino-router-cli\<close> is a caller whose connection carries one request: what it sends is what
  \<open>SendRequest\<close> sends.
\<close>

lemma cli_send_request:
  assumes "endpoint_request M m ps () ep = (Inr mid, ep')"
  shows "cli_send M m ps False (ep_conn ep) = (None, ep_conn ep')"
  using assms by (auto simp: cli_send_def endpoint_request_def split: prod.splits)

lemma call_passes_request:
  "call_passes M a b serve m ps k n n' \<Longrightarrow> \<exists>mid ep'. endpoint_request M m ps k (net_caller n) = (Inr mid, ep')"
  unfolding call_passes_def by blast

section \<open>Properties\<close>

text \<open>
  C4. A service over the router, from end to end. A program registers a method and another one
  calls it, any number of times: the registration is answered with \<open>true\<close>, and the callbacks of the caller are
  invoked in the order of the calls, each with the result and the error that the serving
  program returns for the parameters of that call. To the caller the two connections, the router and
  the encodings in between are a call of the other program's handler. All five read and write steps of every call are
  those of the programs, on the bytes written by the step before.
\<close>

theorem service_end_to_end:
  assumes "msgpack_sizes M norm wire"
    and "network_ok a b n" "length m < 2 ^ 31" "client_method m (net_router n)"
      "routes (router (net_router n)) m = None" "registration_fits M b m n"
    and "\<And>m' vs k res err. \<lbrakk> (m', vs, k) \<in> set calls; serve m' (map norm vs) = (res, err) \<rbrakk> \<Longrightarrow>
        m' = m \<and> wire (GoSlice vs) \<and> wire res \<and> wire err \<and> call_fits M a b m vs err res n"
  shows "\<exists>n1 n'. registration_passes M b serve m j n n1 \<and> calls_pass M a b serve calls n1 n'
     \<and> ep_answers (net_server n1) = ep_answers (net_server n) @ [(j, norm (GoBool True), GoNil)]
     \<and> ep_answers (net_caller n') = ep_answers (net_caller n) @ map (remote_call norm serve) calls
     \<and> routes (router (net_router n')) = (routes (router (net_router n)))(m \<mapsto> b)"
  by (rule msgpack_sizes.register_then_calls [OF assms])

text \<open>Two programs that have just connected to a router.\<close>

definition fresh_network :: "(unit, unit, unit) network" where
  "fresh_network =
     \<lparr>net_caller = new_endpoint new_stream,
      net_router = acceptConnection 2 new_stream (acceptConnection 1 new_stream
         \<lparr>router = New, conns = Map.empty, app = ()\<rparr>),
      net_server = new_endpoint new_stream\<rparr>"

lemma accepted_simps [simp]:
  "healthy (SetKeepParamsAndResponsesAsRaw r (NewConnection new_stream :: 'k Connection))"
  "fits M data (SetKeepParamsAndResponsesAsRaw r (NewConnection new_stream :: 'k Connection))"
  by (simp_all add: SetKeepParamsAndResponsesAsRaw_def healthy_def limit_ok_def fits_def NewConnection_def
        new_stream_def conn_inv_def)

lemma fresh_network_simps [simp]:
  "network_ok 1 2 fresh_network" "registration_fits M 2 m fresh_network" "call_fits M 1 2 m vs err res fresh_network"
  "routes (router (net_router fresh_network)) = Map.empty"
  "m \<notin> set builtin_methods \<Longrightarrow> client_method m (net_router fresh_network)"
  "ep_answers (net_caller fresh_network) = []" "ep_answers (net_server fresh_network) = []"
  by (simp_all add: network_ok_def registration_fits_def call_fits_def fresh_network_def acceptConnection_def
        new_endpoint_def New_def client_method_def)

theorem service_end_to_end_witness:
  "\<exists>n1 n'. registration_passes mp_codec 2 ping_handler ''ping'' () fresh_network n1
     \<and> ep_answers (net_server n1) = [((), GoBool True, GoNil)] \<and> ping_server_waits (Inr (GoBool True, GoNil))
     \<and> call_passes mp_codec 1 2 ping_handler ''ping'' ping_client_params () n1 n'
     \<and> ep_answers (net_caller n') =
         [((), GoSlice [GoString ''HELLO'', GoInt8 1, GoBool True, GoFloat64 0x4014000000000000], GoNil)]"
proof -
  have norm: "map mp_norm ping_client_params =
      [GoString ''HELLO'', GoInt8 1, GoBool True, GoFloat64 0x4014000000000000]"
    by (simp add: ping_client_params_def mp_norm_int_def)
  have ans: "remote_call mp_norm ping_handler (''ping'', ping_client_params, ()) =
      ((), GoSlice [GoString ''HELLO'', GoInt8 1, GoBool True, GoFloat64 0x4014000000000000], GoNil)"
    by (simp add: remote_call_def ping_handler_def ping_client_params_def mp_norm_int_def)
  have m: "length ''ping'' < 2 ^ 31" "client_method ''ping'' (net_router fresh_network)"
    "routes (router (net_router fresh_network)) ''ping'' = None"
    by (simp_all add: builtin_methods_def)
  have calls: "m' = ''ping'' \<and> mp_wire (GoSlice vs) \<and> mp_wire res \<and> mp_wire err
      \<and> call_fits mp_codec 1 2 ''ping'' vs err res fresh_network"
    if "(m', vs, k) \<in> set [(''ping'', ping_client_params, ())]" "ping_handler m' (map mp_norm vs) = (res, err)"
    for m' vs k res err
  proof -
    have "m' = ''ping''" "vs = ping_client_params" using that(1) by simp_all
    with that(2) norm have "res = GoSlice [GoString ''HELLO'', GoInt8 1, GoBool True, GoFloat64 0x4014000000000000]"
      "err = GoNil" by (simp_all add: ping_handler_def)
    with \<open>m' = ''ping''\<close> \<open>vs = ping_client_params\<close> show ?thesis by (simp add: ping_client_params_def del: One_nat_def)
  qed
  from service_end_to_end [where serve = ping_handler and j = "()", OF mp.msgpack_sizes_axioms fresh_network_simps(1) m
      fresh_network_simps(2), of "[(''ping'', ping_client_params, ())]", OF calls]
  show ?thesis using ans by (auto simp add: ping_server_waits_def simp del: enc_mp_codec)
qed

text \<open>
  C29. The command line client from end to end: the words written for a list of values make it
  call the method with these values; the request it sends is answered through the router
  with the result and the error of the serving program; and its exit status is 0 exactly when that error is nil.
\<close>

theorem cli_end_to_end:
  fixes n :: "(unit, 'j, 's) network"
  assumes "msgpack_sizes M norm wire" and "network_ok a b n" "serves b m n"
    and "\<forall>v \<in> set vs. cli_value v" "wire (GoSlice vs)" "length m < 2 ^ 32"
    and "serve m (map norm vs) = (res, err)" "wire res" "wire err" "call_fits M a b m vs err res n"
  shows "run F (m # concat (map unparse vs)) = Some (CallServer m vs)
     \<and> (\<exists>c n'. cli_send M m vs False (ep_conn (net_caller n)) = (None, c)
          \<and> call_passes M a b serve m vs () n n'
          \<and> ep_answers (net_caller n') = ep_answers (net_caller n) @ [((), norm res, norm err)]
          \<and> exit_status False (Inr (norm res, norm err)) = (if norm err = GoNil then 0 else 1))"
proof -
  from msgpack_sizes.call_passes_ok [where serve = serve and m = m and vs = vs and k = "()",
      OF assms(1-3,5-10)] obtain n' where
    p: "call_passes M a b serve m vs () n n'" and d: "call_done a b ((), norm res, norm err) n n'" by blast
  from call_passes_request [OF p] cli_send_request obtain c where
    "cli_send M m vs False (ep_conn (net_caller n)) = (None, c)" by blast
  with p d cli_words [OF assms(4)] show ?thesis by (auto simp: call_done_def exit_status_def)
qed

theorem cli_end_to_end_witness:
  "\<exists>n n' :: (unit, unit, unit) network.
     run \<lparr> ParseFloat32 = (\<lambda>_. None), ParseFloat64 = (\<lambda>_. None) \<rparr> [''ping'', ''str:x'', ''nil'']
       = Some (CallServer ''ping'' [GoString ''x'', GoNil])
     \<and> call_passes mp_codec 1 2 ping_handler ''ping'' [GoString ''x'', GoNil] () n n'
     \<and> ep_answers (net_caller n') = [((), GoSlice [GoString ''x'', GoNil], GoNil)]
     \<and> exit_status False (Inr (GoSlice [GoString ''x'', GoNil], GoNil)) = 0"
proof -
  let ?w = "net_router fresh_network"
  let ?n = "fresh_network\<lparr>net_router := ?w\<lparr>router := (router ?w)\<lparr>routes := [''ping'' \<mapsto> 2]\<rparr>\<rparr>\<rparr>"
  have n: "network_ok 1 2 ?n" "serves 2 ''ping'' ?n" "ep_answers (net_caller ?n) = []"
    "call_fits mp_codec 1 2 ''ping'' [GoString ''x'', GoNil] GoNil (GoSlice [GoString ''x'', GoNil]) ?n"
    by (simp_all add: network_ok_def serves_def call_fits_def fresh_network_def acceptConnection_def new_endpoint_def
          New_def client_method_def builtin_methods_def)
  have "ping_handler ''ping'' (map mp_norm [GoString ''x'', GoNil]) = (GoSlice [GoString ''x'', GoNil], GoNil)"
    by (simp add: ping_handler_def)
  from cli_end_to_end [where serve = ping_handler and F = "\<lparr> ParseFloat32 = (\<lambda>_. None), ParseFloat64 = (\<lambda>_. None) \<rparr>",
      OF mp.msgpack_sizes_axioms n(1,2) _ _ _ this _ _ n(4)] n(3)
  show ?thesis by (auto simp del: enc_mp_codec)
qed

end
