(* ===== verification/Rpc_Logging.thy ===== *)
theory Rpc_Logging
  imports Rpc_Endpoint "HOL-Library.Stream"
begin

text \<open>
  \<open>msgpackrpc/logger.go\<close> and the places of \<open>msgpackrpc/connection.go\<close> that call the logger. A logger is a
  record of functions on the state it logs to; the durations it is given are read off the clock,
  which is a stream of the durations still to be measured. The other theories leave logging out:
  the first theorem here is that nothing is lost by that, the second what a log is worth.
\<close>

section \<open>Loggers\<close>

record 'l FunctionLogger =
  Logf :: "string \<Rightarrow> any list \<Rightarrow> 'l \<Rightarrow> 'l"

record 'l Logger =
  LogOutgoingRequest :: "MessageID \<Rightarrow> string \<Rightarrow> any list \<Rightarrow> 'l \<Rightarrow> 'l"
  LogIncomingRequest :: "MessageID \<Rightarrow> string \<Rightarrow> any list \<Rightarrow> 'l \<Rightarrow> 'l FunctionLogger \<times> 'l"
  LogOutgoingResponse :: "MessageID \<Rightarrow> string \<Rightarrow> any \<Rightarrow> any \<Rightarrow> 'l \<Rightarrow> 'l"
  LogIncomingResponse :: "MessageID \<Rightarrow> string \<Rightarrow> any \<Rightarrow> any \<Rightarrow> 'l \<Rightarrow> 'l"
  LogOutgoingNotification :: "string \<Rightarrow> any list \<Rightarrow> 'l \<Rightarrow> 'l"
  LogIncomingNotification :: "string \<Rightarrow> any list \<Rightarrow> 'l \<Rightarrow> 'l FunctionLogger \<times> 'l"
  LogIncomingCancelRequest :: "MessageID \<Rightarrow> 'l \<Rightarrow> 'l"
  LogOutgoingCancelRequest :: "MessageID \<Rightarrow> 'l \<Rightarrow> 'l"
  LogIncomingDataDelay :: "int \<Rightarrow> 'l \<Rightarrow> 'l"
  LogOutgoingDataDelay :: "int \<Rightarrow> 'l \<Rightarrow> 'l"

definition NullFunctionLogger :: "'l FunctionLogger" where
  "NullFunctionLogger = \<lparr>Logf = (\<lambda>format a l. l)\<rparr>"

definition NullLogger :: "'l Logger" where
  "NullLogger =
     \<lparr>LogOutgoingRequest = (\<lambda>mid m ps l. l),
      LogIncomingRequest = (\<lambda>mid m ps l. (NullFunctionLogger, l)),
      LogOutgoingResponse = (\<lambda>mid m resp respErr l. l),
      LogIncomingResponse = (\<lambda>mid m resp respErr l. l),
      LogOutgoingNotification = (\<lambda>m ps l. l),
      LogIncomingNotification = (\<lambda>m ps l. (NullFunctionLogger, l)),
      LogIncomingCancelRequest = (\<lambda>mid l. l),
      LogOutgoingCancelRequest = (\<lambda>mid l. l),
      LogIncomingDataDelay = (\<lambda>d l. l),
      LogOutgoingDataDelay = (\<lambda>d l. l)\<rparr>"

section \<open>A connection with its logger\<close>

record ('k, 'l) logged =
  lg_ep :: "'k endpoint"
  lg_logger :: "'l Logger"
  lg_log :: 'l
  lg_delays :: "int stream"

definition new_logged :: "out_stream \<Rightarrow> 'l \<Rightarrow> int stream \<Rightarrow> ('k, 'l) logged" where
  "new_logged out l ds = \<lparr>lg_ep = new_endpoint out, lg_logger = NullLogger, lg_log = l, lg_delays = ds\<rparr>"

definition SetLogger :: "'l Logger \<Rightarrow> ('k, 'l) logged \<Rightarrow> ('k, 'l) logged" where
  "SetLogger l st = st\<lparr>lg_logger := l\<rparr>"

abbreviation lg_conn :: "('k, 'l) logged \<Rightarrow> 'k Connection" where
  "lg_conn st \<equiv> ep_conn (lg_ep st)"

definition with_conn :: "'k Connection \<Rightarrow> ('k, 'l) logged \<Rightarrow> ('k, 'l) logged" where
  "with_conn c st = st\<lparr>lg_ep := (lg_ep st)\<lparr>ep_conn := c\<rparr>\<rparr>"

definition logs :: "('l \<Rightarrow> 'l) \<Rightarrow> ('k, 'l) logged \<Rightarrow> ('k, 'l) logged" where
  "logs f st = st\<lparr>lg_log := f (lg_log st)\<rparr>"

text \<open>\<open>elapsed := time.Since(start)\<close>, and the call of the logger with it.\<close>

definition logs_elapsed :: "(int \<Rightarrow> 'l \<Rightarrow> 'l) \<Rightarrow> ('k, 'l) logged \<Rightarrow> ('k, 'l) logged" where
  "logs_elapsed f st = st\<lparr>lg_log := f (shd (lg_delays st)) (lg_log st), lg_delays := stl (lg_delays st)\<rparr>"

definition logged_send ::
  "msgpack \<Rightarrow> any list \<Rightarrow> ('k, 'l) logged \<Rightarrow> goerror option \<times> ('k, 'l) logged" where
  "logged_send M data st =
     (case send M data (lg_conn st) of
        (Some err, c) \<Rightarrow> (Some err, with_conn c st)
      | (None, c) \<Rightarrow> (None, logs_elapsed (LogOutgoingDataDelay (lg_logger st)) (with_conn c st)))"

definition logged_sendRequest ::
  "msgpack \<Rightarrow> string \<Rightarrow> any list \<Rightarrow> 'k \<Rightarrow> ('k, 'l) logged \<Rightarrow> (goerror + MessageID) \<times> ('k, 'l) logged" where
  "logged_sendRequest M m ps k st =
     (case reserveRequest m k (lg_conn st) of
        (mid, c1) \<Rightarrow>
          (case logged_send M (request_message mid m ps)
                  (logs (LogOutgoingRequest (lg_logger st) mid m ps) (with_conn c1 st)) of
             (Some err, st2) \<Rightarrow>
               (Inl (Errorf_w ''sending request'' err),
                with_conn ((lg_conn st2)\<lparr>activeOutRequests := (activeOutRequests (lg_conn st2))(mid := None)\<rparr>) st2)
           | (None, st2) \<Rightarrow> (Inr mid, st2)))"

definition logged_SendNotification ::
  "msgpack \<Rightarrow> string \<Rightarrow> any list \<Rightarrow> ('k, 'l) logged \<Rightarrow> goerror option \<times> ('k, 'l) logged" where
  "logged_SendNotification M m ps st =
     (case logged_send M (notification_message m ps)
             (logs (LogOutgoingNotification (lg_logger st) m ps) st) of
        (Some err, st') \<Rightarrow> (Some (Errorf_w ''sending notification'' err), st')
      | (None, st') \<Rightarrow> (None, st'))"

text \<open>The end of \<open>SendRequest\<close>: a request that is given up is logged, and nothing more.\<close>

definition logged_await ::
  "MessageID \<Rightarrow> await_outcome \<Rightarrow> ('k, 'l) logged \<Rightarrow> (goerror + any \<times> any) \<times> ('k, 'l) logged" where
  "logged_await mid x st =
     (SendRequest_result x,
      case x of
        Answered result err \<Rightarrow> st
      | Cancelled e \<Rightarrow> logs (LogOutgoingCancelRequest (lg_logger st) mid) st)"

text \<open>A request handler gets the logger of its call, and may log with it before it answers.\<close>

type_synonym 'l logging_handler = "'l FunctionLogger \<Rightarrow> string \<Rightarrow> any list \<Rightarrow> 'l \<Rightarrow> (any \<times> any) \<times> 'l"

definition logged_handleIncomingRequest ::
  "msgpack \<Rightarrow> 'l logging_handler \<Rightarrow> MessageID \<Rightarrow> string \<Rightarrow> any list \<Rightarrow> ('k, 'l) logged \<Rightarrow> ('k, 'l) logged" where
  "logged_handleIncomingRequest M serve mid m ps st =
     (case LogIncomingRequest (lg_logger st) mid m ps (lg_log st) of
        (flog, l1) \<Rightarrow>
          (case serve flog m ps l1 of
             ((result, err), l2) \<Rightarrow>
               snd (logged_send M (response_message mid err result)
                 (st\<lparr>lg_log := LogOutgoingResponse (lg_logger st) mid m result err l2\<rparr>))))"

definition logged_handleIncomingNotification ::
  "string \<Rightarrow> any list \<Rightarrow> ('k, 'l) logged \<Rightarrow> ('k, 'l) logged" where
  "logged_handleIncomingNotification m ps st =
     (case LogIncomingNotification (lg_logger st) m ps (lg_log st) of (flog, l1) \<Rightarrow> st\<lparr>lg_log := l1\<rparr>)"

definition logged_handleIncomingResponse ::
  "MessageID \<Rightarrow> any \<Rightarrow> any \<Rightarrow> ('k, 'l) logged \<Rightarrow> ('k, 'l) logged" where
  "logged_handleIncomingResponse mid err result st =
     (case activeOutRequests (lg_conn st) mid of
        None \<Rightarrow> st
      | Some req \<Rightarrow>
          (let c = (lg_conn st)\<lparr>activeOutRequests := (activeOutRequests (lg_conn st))(mid := None)\<rparr>;
               st1 = logs (LogIncomingResponse (lg_logger st) mid (req_method req) result err) (with_conn c st)
           in st1\<lparr>lg_ep := (lg_ep st1)\<lparr>ep_answers := ep_answers (lg_ep st1) @ [(req_res req, result, err)]\<rparr>\<rparr>))"

text \<open>In \<open>Run\<close> the time it took to read a packet is logged before the packet is handled.\<close>

definition logged_packet :: "('k, 'l) logged \<Rightarrow> ('k, 'l) logged" where
  "logged_packet st = logs_elapsed (LogIncomingDataDelay (lg_logger st)) st"

definition logged_handlers :: "msgpack \<Rightarrow> 'l logging_handler \<Rightarrow> ('k, 'l) logged rpc_handlers" where
  "logged_handlers M serve =
     \<lparr>onRequest = (\<lambda>mid m ps st. logged_handleIncomingRequest M serve mid m ps (logged_packet st)),
      onResponse = (\<lambda>mid err result st. logged_handleIncomingResponse mid err result (logged_packet st)),
      onNotification = (\<lambda>m ps st. logged_handleIncomingNotification m ps (logged_packet st)),
      onError = (\<lambda>e st. st)\<rparr>"

section \<open>Simulation of handlers\<close>

text \<open>
  Handlers that do the same to what \<open>abs\<close> sees of the state give read loops that do the same to it.
\<close>

locale handler_simulation =
  fixes abs :: "'v \<Rightarrow> 'w" and H :: "'v rpc_handlers" and H' :: "'w rpc_handlers"
  assumes sim_request: "abs (onRequest H mid m ps v) = onRequest H' mid m ps (abs v)"
    and sim_response: "abs (onResponse H mid e r v) = onResponse H' mid e r (abs v)"
    and sim_notification: "abs (onNotification H m ps v) = onNotification H' m ps (abs v)"
    and sim_error: "abs (onError H err v) = onError H' err (abs v)"
begin

lemma dispatch_sim: "abs (dispatch H p v) = dispatch H' p (abs v)"
  by (simp add: dispatch_def sim_request sim_response sim_notification)

lemma Run_sim:
  "map_option (map_run_result abs) (Run M asRaw H fuel s v) = Run M asRaw H' fuel s (abs v)"
  by (induction fuel arbitrary: s v)
     (simp_all add: Let_def dispatch_sim sim_error split: prod.split decode_result.split)

end

text \<open>An invariant that every handler keeps is kept by the read loop.\<close>

locale handler_invariant =
  fixes I :: "'w \<Rightarrow> bool" and H :: "'w rpc_handlers"
  assumes inv_request: "I w \<Longrightarrow> I (onRequest H mid m ps w)"
    and inv_response: "I w \<Longrightarrow> I (onResponse H mid e r w)"
    and inv_notification: "I w \<Longrightarrow> I (onNotification H m ps w)"
    and inv_error: "I w \<Longrightarrow> I (onError H err w)"
begin

lemma dispatch_inv: "I w \<Longrightarrow> I (dispatch H p w)"
  by (simp add: dispatch_def inv_request inv_response inv_notification)

lemma Run_inv: "\<lbrakk> Run M asRaw H fuel s w = Some (Stopped w'); I w \<rbrakk> \<Longrightarrow> I w'"
  by (induction fuel arbitrary: s w)
     (auto simp: Let_def dispatch_inv inv_error split: prod.splits decode_result.splits if_splits)

end

section \<open>Logging changes nothing but the log\<close>

definition heedless :: "'l logging_handler \<Rightarrow> request_handler \<Rightarrow> bool" where
  "heedless serve serve' \<longleftrightarrow> (\<forall>flog m ps l. fst (serve flog m ps l) = serve' m ps)"

lemma lg_ep_simps [simp]:
  "lg_ep (with_conn c st) = (lg_ep st)\<lparr>ep_conn := c\<rparr>" "lg_logger (with_conn c st) = lg_logger st"
  "lg_log (with_conn c st) = lg_log st" "lg_delays (with_conn c st) = lg_delays st"
  "lg_ep (logs f st) = lg_ep st" "lg_logger (logs f st) = lg_logger st" "lg_log (logs f st) = f (lg_log st)"
  "lg_ep (logs_elapsed g st) = lg_ep st" "lg_logger (logs_elapsed g st) = lg_logger st"
  "lg_log (logs_elapsed g st) = g (shd (lg_delays st)) (lg_log st)"
  "lg_ep (logged_packet st) = lg_ep st" "lg_logger (logged_packet st) = lg_logger st"
  by (simp_all add: with_conn_def logs_def logs_elapsed_def logged_packet_def)

lemma logged_send_erased:
  "map_prod id lg_ep (logged_send M data st)
     = (case send M data (lg_conn st) of (e, c) \<Rightarrow> (e, (lg_ep st)\<lparr>ep_conn := c\<rparr>))"
  by (auto simp: logged_send_def split: prod.split option.split)

lemma logged_send_parts:
  "fst (logged_send M data st) = fst (send M data (lg_conn st))"
  "lg_ep (snd (logged_send M data st)) = (lg_ep st)\<lparr>ep_conn := snd (send M data (lg_conn st))\<rparr>"
  "lg_logger (snd (logged_send M data st)) = lg_logger st"
  by (auto simp: logged_send_def split: prod.split option.split)

lemma logged_request_erased:
  "map_prod id lg_ep (logged_sendRequest M m ps k st) = endpoint_request M m ps k (lg_ep st)"
  by (simp add: logged_sendRequest_def endpoint_request_def sendRequest_parts transmitRequest_def logged_send_def
       split: prod.split option.split)

lemma logged_notification_erased:
  "map_prod id lg_ep (logged_SendNotification M m ps st)
     = (case SendNotification M m ps (lg_conn st) of (e, c) \<Rightarrow> (e, (lg_ep st)\<lparr>ep_conn := c\<rparr>))"
  by (simp add: logged_SendNotification_def SendNotification_def logged_send_def split: prod.split option.split)

lemma logged_handlers_erased:
  assumes "heedless serve serve'"
  shows "lg_ep (logged_handleIncomingRequest M serve mid m ps st) = handleIncomingRequest M serve' mid m ps (lg_ep st)"
    and "lg_ep (logged_handleIncomingNotification m ps st) = handleIncomingNotification m ps (lg_ep st)"
    and "lg_ep (logged_handleIncomingResponse mid err result st) = receiveResponse mid err result (lg_ep st)"
proof -
  have "fst (serve flog m ps l) = serve' m ps" for flog l using assms by (simp add: heedless_def)
  then show "lg_ep (logged_handleIncomingRequest M serve mid m ps st) = handleIncomingRequest M serve' mid m ps (lg_ep st)"
    by (simp add: logged_handleIncomingRequest_def handleIncomingRequest_def logged_send_parts sendResponse_def
          split: prod.split) (metis fst_conv prod.inject)
qed (simp_all add: logged_handleIncomingNotification_def handleIncomingNotification_def
       logged_handleIncomingResponse_def receiveResponse_def handleIncomingResponse_def Let_def
       split: prod.split option.split)

lemma logging_simulation:
  "heedless serve serve' \<Longrightarrow> handler_simulation lg_ep (logged_handlers M serve) (endpoint_handlers M serve')"
  by unfold_locales (simp_all add: logged_handlers_def endpoint_handlers_def logged_handlers_erased)

text \<open>The handlers of the programs: none of them uses the logger it gets.\<close>

definition quiet_handler :: "request_handler \<Rightarrow> 'l logging_handler" where
  "quiet_handler serve flog m ps l = (serve m ps, l)"

lemma quiet_heedless: "heedless (quiet_handler serve) serve"
  by (simp add: heedless_def quiet_handler_def)

interpretation quiet_run: handler_simulation lg_ep "logged_handlers M (quiet_handler serve)" "endpoint_handlers M serve"
  for M serve
  by (rule logging_simulation [OF quiet_heedless])

text \<open>The logger of a connection is never exchanged while it runs.\<close>

lemma logged_logger [simp]:
  "lg_logger (logged_handleIncomingRequest M serve mid m ps st) = lg_logger st"
  "lg_logger (logged_handleIncomingNotification m ps st) = lg_logger st"
  "lg_logger (logged_handleIncomingResponse mid err result st) = lg_logger st"
  by (simp_all add: logged_handleIncomingRequest_def logged_handleIncomingNotification_def
        logged_handleIncomingResponse_def logged_send_parts Let_def split: prod.split option.split)

interpretation same_logger: handler_invariant "\<lambda>st. lg_logger st = L" "logged_handlers M serve" for L M serve
  by unfold_locales (simp_all add: logged_handlers_def)

section \<open>A logger that records\<close>

datatype log_entry =
    OutRequest MessageID string "any list" | InRequest MessageID string "any list"
  | OutResponse MessageID string any any | InResponse MessageID string any any
  | OutNotification string "any list" | InNotification string "any list"
  | InCancel MessageID | OutCancel MessageID | InDelay int | OutDelay int | Note string "any list"

definition recorder :: "log_entry list Logger" where
  "recorder =
     \<lparr>LogOutgoingRequest = (\<lambda>mid m ps l. l @ [OutRequest mid m ps]),
      LogIncomingRequest = (\<lambda>mid m ps l. (\<lparr>Logf = (\<lambda>format a l. l @ [Note format a])\<rparr>, l @ [InRequest mid m ps])),
      LogOutgoingResponse = (\<lambda>mid m resp respErr l. l @ [OutResponse mid m resp respErr]),
      LogIncomingResponse = (\<lambda>mid m resp respErr l. l @ [InResponse mid m resp respErr]),
      LogOutgoingNotification = (\<lambda>m ps l. l @ [OutNotification m ps]),
      LogIncomingNotification = (\<lambda>m ps l. (\<lparr>Logf = (\<lambda>format a l. l @ [Note format a])\<rparr>, l @ [InNotification m ps])),
      LogIncomingCancelRequest = (\<lambda>mid l. l @ [InCancel mid]),
      LogOutgoingCancelRequest = (\<lambda>mid l. l @ [OutCancel mid]),
      LogIncomingDataDelay = (\<lambda>d l. l @ [InDelay d]),
      LogOutgoingDataDelay = (\<lambda>d l. l @ [OutDelay d])\<rparr>"

text \<open>The bytes that the message of an entry takes on the stream of the connection.\<close>

fun entry_bytes :: "msgpack \<Rightarrow> log_entry \<Rightarrow> bytes" where
  "entry_bytes M (OutRequest mid m ps) = enc M (GoSlice (request_message mid m ps))"
| "entry_bytes M (OutResponse mid m resp respErr) = enc M (GoSlice (response_message mid respErr resp))"
| "entry_bytes M (OutNotification m ps) = enc M (GoSlice (notification_message m ps))"
| "entry_bytes M _ = []"

definition open_unlimited :: "'k Connection \<Rightarrow> bool" where
  "open_unlimited c \<longleftrightarrow> msgpBuffer c = None \<and> \<not> out_closed (conn_out c) \<and> capacity (conn_out c) = None"

definition audited :: "msgpack \<Rightarrow> ('k, log_entry list) logged \<Rightarrow> bool" where
  "audited M st \<longleftrightarrow>
     lg_logger st = recorder \<and> open_unlimited (lg_conn st) \<and>
     sent (conn_out (lg_conn st)) = concat (map (entry_bytes M) (lg_log st))"

lemma send_open:
  assumes "open_unlimited c" and "snd (Encode M (GoSlice data)) = None"
  shows "\<exists>c'. send M data c = (None, c') \<and> open_unlimited c'
     \<and> sent (conn_out c') = sent (conn_out c) @ enc M (GoSlice data)"
  using assms by (simp add: open_unlimited_def send_unlimited)

text \<open>A message that has been logged but not yet sent, and the entries that carry no message.\<close>

lemma logged_send_audited:
  assumes "lg_logger st = recorder" and "open_unlimited (lg_conn st)" and "snd (Encode M (GoSlice data)) = None"
    and "concat (map (entry_bytes M) (lg_log st)) = sent (conn_out (lg_conn st)) @ enc M (GoSlice data)"
  shows "fst (logged_send M data st) = None \<and> audited M (snd (logged_send M data st))"
  using send_open [OF assms(2,3)] assms(1,4)
  by (auto simp: logged_send_def audited_def recorder_def)

lemma audited_packet: "audited M st \<Longrightarrow> audited M (logged_packet st)"
  by (simp add: audited_def logged_packet_def recorder_def)

lemma audited_notification_in: "audited M st \<Longrightarrow> audited M (logged_handleIncomingNotification m ps st)"
  by (simp add: audited_def logged_handleIncomingNotification_def recorder_def)

lemma audited_response_in: "audited M st \<Longrightarrow> audited M (logged_handleIncomingResponse mid err result st)"
  by (auto simp: audited_def logged_handleIncomingResponse_def recorder_def Let_def open_unlimited_def
       split: option.split)

text \<open>Handlers that log notes only, and whose answers can be encoded.\<close>

definition proper_handler :: "msgpack \<Rightarrow> log_entry list logging_handler \<Rightarrow> bool" where
  "proper_handler M serve \<longleftrightarrow>
     (\<forall>flog m ps l. \<exists>result err ns. serve flog m ps l = ((result, err), l @ ns)
        \<and> concat (map (entry_bytes M) ns) = []
        \<and> (\<forall>mid. snd (Encode M (GoSlice (response_message mid err result))) = None))"

lemma audited_request_in:
  assumes "proper_handler M serve" and a: "audited M st"
  shows "audited M (logged_handleIncomingRequest M serve mid m ps st)"
proof -
  obtain flog l1 where l: "LogIncomingRequest (lg_logger st) mid m ps (lg_log st) = (flog, l1)"
    and l1: "l1 = lg_log st @ [InRequest mid m ps]"
    using a by (simp add: audited_def recorder_def)
  from assms(1) obtain result err ns where s: "serve flog m ps l1 = ((result, err), l1 @ ns)"
    and n: "concat (map (entry_bytes M) ns) = []"
    and e: "snd (Encode M (GoSlice (response_message mid err result))) = None"
    unfolding proper_handler_def by metis
  let ?st = "st\<lparr>lg_log := LogOutgoingResponse (lg_logger st) mid m result err (l1 @ ns)\<rparr>"
  have "audited M (snd (logged_send M (response_message mid err result) ?st))"
    by (rule conjunct2 [OF logged_send_audited [OF _ _ e]])
       (use a n l1 in \<open>simp_all add: audited_def recorder_def\<close>)
  with l s show ?thesis by (simp add: logged_handleIncomingRequest_def)
qed

lemma audited_run:
  assumes "proper_handler M serve"
  shows "handler_invariant (audited M) (logged_handlers M serve)"
  by unfold_locales
     (simp_all add: logged_handlers_def audited_packet audited_notification_in audited_response_in
        audited_request_in [OF assms])

lemma audited_sendRequest:
  assumes a: "audited M st" and e: "\<And>mid. snd (Encode M (GoSlice (request_message mid m ps))) = None"
  shows "audited M (snd (logged_sendRequest M m ps k st))"
proof -
  obtain mid c1 where r: "reserveRequest m k (lg_conn st) = (mid, c1)" by (cases "reserveRequest m k (lg_conn st)")
  then have c1: "conn_out c1 = conn_out (lg_conn st)" "msgpBuffer c1 = msgpBuffer (lg_conn st)"
    by (auto simp: reserveRequest_def Let_def)
  let ?st = "logs (LogOutgoingRequest (lg_logger st) mid m ps) (with_conn c1 st)"
  have "fst (logged_send M (request_message mid m ps) ?st) = None
     \<and> audited M (snd (logged_send M (request_message mid m ps) ?st))"
    by (rule logged_send_audited [OF _ _ e]) (use a c1 in \<open>simp_all add: audited_def recorder_def open_unlimited_def\<close>)
  with r show ?thesis
    by (cases "logged_send M (request_message mid m ps) ?st") (simp add: logged_sendRequest_def)
qed

section \<open>Properties\<close>



text \<open>
  The log accounts for the stream: with a logger that records its calls, on a connection
  that is open and has no size limit, the bytes on the stream are at all times the encodings
  of the outgoing messages in the log, in their order; every request and notification sent and everything the
  read loop answers keeps it so.
\<close>

lemma log_accounts_for_stream:
  assumes "audited M st" and "proper_handler M serve"
    and "\<And>mid. snd (Encode M (GoSlice (request_message mid m ps))) = None"
    and "Run M asRaw (logged_handlers M serve) fuel s (snd (logged_sendRequest M m ps k st)) = Some (Stopped st')"
  shows "audited M st'
     \<and> sent (conn_out (lg_conn st')) = concat (map (entry_bytes M) (lg_log st'))"
proof -
  have "audited M st'"
    using handler_invariant.Run_inv [OF audited_run [OF assms(2)] assms(4)] audited_sendRequest [OF assms(1,3)] by blast
  then show ?thesis by (simp add: audited_def)
qed

text \<open>A request that is sent and one that is answered.\<close>

lemma log_example:
  "\<exists>st' :: (unit, log_entry list) logged.
     Run mp_codec False (logged_handlers mp_codec (quiet_handler (\<lambda>m ps. (GoNil, GoNil)))) 2
       (enc mp_codec (GoSlice (request_message 7 ''f'' [])))
       (snd (logged_sendRequest mp_codec ''g'' [] () (SetLogger recorder (new_logged new_stream [] (sconst 0)))))
       = Some (Stopped st')
     \<and> lg_log st' = [OutRequest 1 ''g'' [], OutDelay 0, InDelay 0, InRequest 7 ''f'' [],
                     OutResponse 7 ''f'' GoNil GoNil, OutDelay 0]
     \<and> sent (conn_out (lg_conn st')) = enc mp_codec (GoSlice (request_message 1 ''g'' []))
         @ enc mp_codec (GoSlice (response_message 7 GoNil GoNil))"
proof -
  let ?serve = "quiet_handler (\<lambda>m ps. (GoNil, GoNil)) :: log_entry list logging_handler"
  let ?H = "logged_handlers mp_codec ?serve"
  let ?st = "SetLogger recorder (new_logged new_stream [] (sconst 0)) :: (unit, log_entry list) logged"
  let ?st1 = "snd (logged_sendRequest mp_codec ''g'' [] () ?st)"
  let ?st2 = "logged_handleIncomingRequest mp_codec ?serve 7 ''f'' [] (logged_packet ?st1)"
  have e: "snd (Encode mp_codec (GoSlice (request_message mid ''g'' []))) = None"
    "snd (Encode mp_codec (GoSlice (response_message mid GoNil GoNil))) = None" for mid
    by (rule mp.encode_ok, simp add: request_message_def response_message_def mp.wire_slice mp.wire_string)+
  have a: "audited mp_codec ?st"
    by (simp add: audited_def SetLogger_def new_logged_def new_endpoint_def open_unlimited_def NewConnection_def new_stream_def)
  have p: "proper_handler mp_codec ?serve" using e(2) by (simp add: proper_handler_def quiet_handler_def del: enc_mp_codec)
  obtain err where "decodeRpcPacket mp_codec False [] = (DecodeErr err, [])" "\<not> As_invalidRPCMessageError err"
    using mp.decodeRpcPacket_end by blast
  then have "Run mp_codec False ?H (Suc 0) [] ?st2 = Some (Stopped ?st2)" by (simp add: logged_handlers_def Let_def)
  moreover have "reads mp_codec False ?H (enc mp_codec (GoSlice (request_message 7 ''f'' []))) ?st1 ?st2"
    using mp.reads_request [of "[]" "[]" "''f''" False ?H 7 ?st1] by (simp add: mp.wire_slice logged_handlers_def del: enc_mp_codec)
  ultimately have r: "Run mp_codec False ?H 2 (enc mp_codec (GoSlice (request_message 7 ''f'' []))) ?st1 = Some (Stopped ?st2)"
    unfolding reads_def numeral_2_eq_2 by (metis append_Nil2)
  have "lg_log ?st2 = [OutRequest 1 ''g'' [], OutDelay 0, InDelay 0, InRequest 7 ''f'' [],
      OutResponse 7 ''f'' GoNil GoNil, OutDelay 0]"
    by (simp add: logged_handleIncomingRequest_def logged_packet_def logged_sendRequest_def SetLogger_def new_logged_def
          new_endpoint_def NewConnection_def new_stream_def reserveRequest_def logged_send_def send_unlimited e [simplified] recorder_def
          quiet_handler_def logs_elapsed_def logs_def with_conn_def del: enc_mp_codec)
  with r log_accounts_for_stream [OF a p e(1) r] show ?thesis by (intro exI [of _ ?st2]) (simp del: enc_mp_codec)
qed

end
