(* ===== verification/Api_Table.thy ===== *)
theory Api_Table
  imports Router_Calls
begin

text \<open>
  The internal APIs (network, monitor, HCI, serial) are tables of methods with handlers on a
  state of their own. A handler gets the answers of the operating system during the call, the
  parameters and the state. This theory holds what they share: the error values, the
  registration of a table with the router, and the contract of a table whose handlers keep
  an invariant.
\<close>

section \<open>Tables of methods\<close>

type_synonym ('e, 's) api_handler = "'e \<Rightarrow> any list \<Rightarrow> 's \<Rightarrow> handler_result \<times> 's"

definition err_pair :: "64 word \<Rightarrow> string \<Rightarrow> any" where
  "err_pair code message = GoSlice [GoInt code, GoString message]"

definition fail :: "64 word \<Rightarrow> string \<Rightarrow> 's \<Rightarrow> handler_result \<times> 's" where
  "fail code message st = (Respond GoNil (err_pair code message), st)"

definition succeed :: "any \<Rightarrow> 's \<Rightarrow> handler_result \<times> 's" where
  "succeed result st = (Respond result GoNil, st)"

lemma snd_fail [simp]: "snd (fail code message st) = st"
  by (simp add: fail_def)

lemma snd_succeed [simp]: "snd (succeed result st) = st"
  by (simp add: succeed_def)

lemma fail_not_panic [simp]: "fst (fail code message st) \<noteq> Panic" "fst (succeed result st) \<noteq> Panic"
  "fst (fail code message st) \<noteq> Hang" "fst (succeed result st) \<noteq> Hang"
  by (simp_all add: fail_def succeed_def)

text \<open>
  Registering a table: one \<open>RegisterMethod\<close> after the other, errors ignored as in the source. The
  function \<open>lift\<close> makes a handler of the router from one of the table: it supplies the
  answers of the operating system and finds the state of the API in that of the router.
\<close>

definition register_all :: "(string \<times> 'h) list \<Rightarrow> ('h \<Rightarrow> 's RouterRequestHandler) \<Rightarrow> 's Router \<Rightarrow> 's Router" where
  "register_all table lift r = fold (\<lambda>(method, h) r. snd (RegisterMethod method (lift h) r)) table r"

text \<open>An API on its own, with the same answers in every call.\<close>

definition with_events :: "'e \<Rightarrow> ('e, 's) api_handler \<Rightarrow> 's RouterRequestHandler" where
  "with_events ev h = (\<lambda>cid ps st. h ev ps st)"

lemma register_all_Cons:
  "register_all ((m, h) # table) lift r = register_all table lift (snd (RegisterMethod m (lift h) r))"
  by (simp add: register_all_def)

lemma routesInternal_RegisterMethod:
  "routesInternal (snd (RegisterMethod m h r)) = (routesInternal r)(m := Some (case routesInternal r m of None \<Rightarrow> h | Some h' \<Rightarrow> h'))"
  by (auto simp: RegisterMethod_def fun_upd_idem_iff split: option.splits)

lemma routes_RegisterMethod [simp]: "routes (snd (RegisterMethod m h r)) = routes r"
  by (simp add: RegisterMethod_def)

lemma routes_register_all [simp]: "routes (register_all table lift r) = routes r"
  by (induction table arbitrary: r) (auto simp: register_all_Cons register_all_def [of "[]"])

text \<open>The first registration of a name counts, and none replaces an earlier one.\<close>

lemma routesInternal_register_all:
  "routesInternal (register_all table lift r) m =
     (case routesInternal r m of
        Some h \<Rightarrow> Some h
      | None \<Rightarrow> map_option lift (map_of table m))"
proof (induction table arbitrary: r)
  case Nil
  then show ?case by (simp add: register_all_def split: option.split)
next
  case (Cons x table)
  obtain m' h where x: "x = (m', h)" by (cases x)
  show ?case
    unfolding x register_all_Cons Cons.IH
    by (auto simp: routesInternal_RegisterMethod split: option.splits)
qed

section \<open>The contract of a table\<close>

definition call_api :: "(string \<times> ('e, 's) api_handler) list \<Rightarrow> 'e \<times> string \<times> any list \<Rightarrow> 's \<Rightarrow> 's" where
  "call_api table x st =
     (case x of (ev, m, ps) \<Rightarrow> (case map_of table m of None \<Rightarrow> st | Some h \<Rightarrow> snd (h ev ps st)))"

locale api_table =
  fixes table :: "(string \<times> ('e, 's) api_handler) list"
    and env_ok :: "'e \<Rightarrow> bool"
    and api_inv :: "'s \<Rightarrow> bool"
  assumes keeps_inv: "\<lbrakk> (m, h) \<in> set table; env_ok ev; api_inv st \<rbrakk> \<Longrightarrow> api_inv (snd (h ev ps st))"
begin

lemma call_inv: "\<lbrakk> api_inv st; env_ok (fst x) \<rbrakk> \<Longrightarrow> api_inv (call_api table x st)"
  by (auto simp: call_api_def split: prod.split option.split dest: map_of_SomeD intro: keeps_inv)

text \<open>The invariant holds after any sequence of calls, whatever the operating system answers.\<close>

lemma calls_inv: "\<lbrakk> api_inv st; \<forall>x \<in> set xs. env_ok (fst x) \<rbrakk> \<Longrightarrow> api_inv (fold (call_api table) xs st)"
  by (induction xs arbitrary: st) (simp_all add: call_inv)

end

section \<open>A request for an internal method\<close>

lemma handleRequest_internal_panic:
  assumes "m \<notin> set builtin_methods" and "routesInternal (router w) m = Some h"
    and "fst (h cid (decoded_params M raw) (app w)) = Panic"
  shows "handleRequest M cid mid m raw w = Crashed"
  using assms run_builtin_None [of m "decoded_params M raw" cid w]
  by (cases "h cid (decoded_params M raw) (app w)") (simp add: handleRequest_def call_internal_def answer_def)

end
