(* ===== verification/Network_Tcp.thy ===== *)
theory Network_Tcp
  imports Api_Table
begin

text \<open>
  \<open>internal/network-api/network-api.go\<close>, first half: the tables of live connections and listeners,
  the generation of their IDs and the methods \<open>tcp/*\<close>.

  The package variables are the record \<open>net_state\<close>. What the operating system answers during
  one call of a handler is an argument of the handler, the record \<open>net_events\<close>: results of
  dialling, accepting, resolving, reading, and the errors of closing and of setting a
  deadline. What the handlers write goes to the \<open>out_stream\<close> of the connection. The field
  \<open>closes\<close> records the calls of \<open>Close\<close> with the kind and the ID of the closed object.
\<close>

section \<open>State\<close>

datatype net_kind = TcpConn | TcpListener | UdpConn

text \<open>A UDP socket: its local address and the datagrams sent, with their destinations.\<close>

record udp_socket =
  us_local :: string
  us_sent :: "(bytes \<times> string) list"

record net_state =
  liveConnections :: "64 word \<rightharpoonup> out_stream"
  liveListeners :: "64 word \<rightharpoonup> string"
  liveUdpConnections :: "64 word \<rightharpoonup> udp_socket"
  udpReadBuffers :: "64 word \<rightharpoonup> bytes"
  udpWriteTargets :: "64 word \<rightharpoonup> string"
  udpWriteBuffers :: "64 word \<rightharpoonup> bytes"
  nextConnectionID :: "32 word"
  closes :: "(net_kind \<times> 64 word) list"

definition initial_net :: net_state where
  "initial_net =
     \<lparr>liveConnections = Map.empty, liveListeners = Map.empty, liveUdpConnections = Map.empty,
      udpReadBuffers = Map.empty, udpWriteTargets = Map.empty, udpWriteBuffers = Map.empty,
      nextConnectionID = 0, closes = []\<rparr>"

text \<open>
  The answers of the operating system. \<open>ev_dial\<close> also stands for \<open>tls.Dial\<close>, whose
  configuration argument is the certificate pool or nothing; \<open>ev_pem_ok\<close> is the result of
  parsing a PEM certificate. \<open>ev_read\<close> is the data a read finds (cut at the size of the
  buffer) with its error, \<open>ev_readFrom\<close> a datagram with the address it came from; both
  depend on the deadline that was set.
\<close>

record net_events =
  ev_dial :: "string \<Rightarrow> string option \<Rightarrow> goerror + out_stream"
  ev_listen :: "string \<Rightarrow> goerror option"
  ev_accept :: "goerror + out_stream"
  ev_pem_ok :: "string \<Rightarrow> bool"
  ev_deadline_err :: "goerror option"
  ev_read :: "64 word option \<Rightarrow> bytes \<times> goerror option"
  ev_close_err :: "goerror option"
  ev_resolve :: "string \<Rightarrow> goerror + string"
  ev_listenUDP :: "string \<Rightarrow> goerror option"
  ev_writeTo_err :: "goerror option"
  ev_readFrom :: "64 word option \<Rightarrow> (bytes \<times> string) \<times> goerror option"

type_synonym net_handler = "(net_events, net_state) api_handler"

section \<open>Errors and addresses\<close>

abbreviation (input) errInvalidServerAddressType :: string where
  "errInvalidServerAddressType \<equiv> ''Invalid parameter type, expected string for server address''"
abbreviation (input) errInvalidServerPortType :: string where
  "errInvalidServerPortType \<equiv> ''Invalid parameter type, expected uint16 for server port''"
abbreviation (input) errInvalidUDPConnectionIDType :: string where
  "errInvalidUDPConnectionIDType \<equiv> ''Invalid parameter type, expected int for UDP connection ID''"
abbreviation (input) errInvalidConnectionIDType :: string where
  "errInvalidConnectionIDType \<equiv> ''Invalid parameter type, expected int for connection ID''"
abbreviation (input) errInvalidUDPUIntIDType :: string where
  "errInvalidUDPUIntIDType \<equiv> ''Invalid parameter type, expected uint for UDP connection ID''"

text \<open>\<open>net.JoinHostPort\<close>: a host with a colon is put in brackets.\<close>

definition JoinHostPort :: "string \<Rightarrow> string \<Rightarrow> string" where
  "JoinHostPort host port =
     (if CHR '':'' \<in> set host then ''['' @ host @ '']:'' @ port else host @ '':'' @ port)"

definition host_port :: "string \<Rightarrow> 64 word \<Rightarrow> string" where
  "host_port host port = JoinHostPort host (show_nat (unat port))"

section \<open>IDs\<close>

text \<open>
  The loop of \<open>takeLockAndGenerateNextID\<close>. The counter has 32 bits, so after \<open>2 ^ 32\<close> rounds it
  has tried every ID: running out of that fuel means that the loop never ends.
\<close>

fun next_id :: "nat \<Rightarrow> (64 word \<Rightarrow> bool) \<Rightarrow> 32 word \<Rightarrow> (64 word \<times> 32 word) option" where
  "next_id 0 exists cur = None"
| "next_id (Suc fuel) exists cur =
     (let nxt = cur + 1; newID = ucast nxt in
      if \<not> exists newID then Some (newID, nxt) else next_id fuel exists nxt)"

definition id_in_use :: "net_state \<Rightarrow> 64 word \<Rightarrow> bool" where
  "id_in_use st newID \<longleftrightarrow> liveConnections st newID \<noteq> None \<or> liveListeners st newID \<noteq> None"

definition takeLockAndGenerateNextID :: "net_state \<Rightarrow> (64 word \<times> net_state) option" where
  "takeLockAndGenerateNextID st =
     (case next_id (2 ^ 32) (id_in_use st) (nextConnectionID st) of
        None \<Rightarrow> None
      | Some (newID, cur) \<Rightarrow> Some (newID, st\<lparr>nextConnectionID := cur\<rparr>))"

text \<open>Take an ID, enter the new object under it, answer with the ID.\<close>

definition with_new_id ::
  "net_state \<Rightarrow> (64 word \<Rightarrow> net_state \<Rightarrow> net_state) \<Rightarrow> handler_result \<times> net_state" where
  "with_new_id st enter =
     (case takeLockAndGenerateNextID st of
        None \<Rightarrow> (Hang, st)
      | Some (newID, st') \<Rightarrow> succeed (GoUint newID) (enter newID st'))"

definition enter_conn :: "out_stream \<Rightarrow> 64 word \<Rightarrow> net_state \<Rightarrow> net_state" where
  "enter_conn conn newID st = st\<lparr>liveConnections := (liveConnections st)(newID \<mapsto> conn)\<rparr>"

definition enter_listener :: "string \<Rightarrow> 64 word \<Rightarrow> net_state \<Rightarrow> net_state" where
  "enter_listener addr newID st = st\<lparr>liveListeners := (liveListeners st)(newID \<mapsto> addr)\<rparr>"

section \<open>The handlers of tcp/*\<close>

definition tcpConnect :: net_handler where
  "tcpConnect ev ps st =
     (if length ps \<noteq> 2
      then fail 1 ''Invalid number of parameters, expected server address and port'' st
      else case as_string (ps ! 0) of
        None \<Rightarrow> fail 1 errInvalidServerAddressType st
      | Some serverAddr \<Rightarrow>
          (case ToUint (ps ! 1) of
             None \<Rightarrow> fail 1 errInvalidServerPortType st
           | Some serverPort \<Rightarrow>
               (case ev_dial ev (host_port serverAddr serverPort) None of
                  Inl err \<Rightarrow> fail 2 (''Failed to connect to server: '' @ Error err) st
                | Inr conn \<Rightarrow> with_new_id st (enter_conn conn))))"

definition tcpListen :: net_handler where
  "tcpListen ev ps st =
     (if length ps \<noteq> 2
      then fail 1 ''Invalid number of parameters, expected listen address and port'' st
      else case as_string (ps ! 0) of
        None \<Rightarrow> fail 1 ''Invalid parameter type, expected string for listen address'' st
      | Some listenAddr \<Rightarrow>
          (case ToUint (ps ! 1) of
             None \<Rightarrow> fail 1 ''Invalid parameter type, expected uint16 for listen port'' st
           | Some listenPort \<Rightarrow>
               (case ev_listen ev (host_port listenAddr listenPort) of
                  Some err \<Rightarrow> fail 2 (''Failed to start listening on address: '' @ Error err) st
                | None \<Rightarrow> with_new_id st (enter_listener (host_port listenAddr listenPort)))))"

definition tcpAccept :: net_handler where
  "tcpAccept ev ps st =
     (if length ps \<noteq> 1 then fail 1 ''Invalid number of parameters, expected listener ID'' st
      else case ToUint (ps ! 0) of
        None \<Rightarrow> fail 1 ''Invalid parameter type, expected int for listener ID'' st
      | Some listenerID \<Rightarrow>
          (case liveListeners st listenerID of
             None \<Rightarrow> fail 2 (''Listener not found for ID: '' @ show_nat (unat listenerID)) st
           | Some listener \<Rightarrow>
               (case ev_accept ev of
                  Inl err \<Rightarrow> fail 3 (''Failed to accept connection: '' @ Error err) st
                | Inr conn \<Rightarrow> with_new_id st (enter_conn conn))))"

text \<open>The answer of the three close methods: the text of the error of \<open>Close\<close>, or an empty one.\<close>

definition closed_answer :: "net_kind \<Rightarrow> 64 word \<Rightarrow> net_events \<Rightarrow> net_state \<Rightarrow> handler_result \<times> net_state" where
  "closed_answer kind i ev st =
     succeed (GoString (case ev_close_err ev of Some err \<Rightarrow> Error err | None \<Rightarrow> []))
       (st\<lparr>closes := closes st @ [(kind, i)]\<rparr>)"

definition tcpClose :: net_handler where
  "tcpClose ev ps st =
     (if length ps \<noteq> 1 then fail 1 ''Invalid number of parameters, expected connection ID'' st
      else case ToUint (ps ! 0) of
        None \<Rightarrow> fail 1 errInvalidConnectionIDType st
      | Some i \<Rightarrow>
          (case liveConnections st i of
             None \<Rightarrow> fail 2 (''Connection not found for ID: '' @ show_nat (unat i)) st
           | Some conn \<Rightarrow>
               closed_answer TcpConn i ev (st\<lparr>liveConnections := (liveConnections st)(i := None)\<rparr>)))"

definition tcpCloseListener :: net_handler where
  "tcpCloseListener ev ps st =
     (if length ps \<noteq> 1 then fail 1 ''Invalid number of parameters, expected listener ID'' st
      else case ToUint (ps ! 0) of
        None \<Rightarrow> fail 1 ''Invalid parameter type, expected int for listener ID'' st
      | Some i \<Rightarrow>
          (case liveListeners st i of
             None \<Rightarrow> fail 2 (''Listener not found for ID: '' @ show_nat (unat i)) st
           | Some listener \<Rightarrow>
               closed_answer TcpListener i ev (st\<lparr>liveListeners := (liveListeners st)(i := None)\<rparr>)))"

text \<open>
  The timeout parameter of \<open>tcp/read\<close>: an error, or the deadline as a \<open>time.Duration\<close> from now, a
  signed number of nanoseconds in 64 bits; \<open>None\<close> is the zero time, no deadline. The product of the
  milliseconds and \<open>time.Millisecond\<close> wraps around.
\<close>

definition Millisecond :: "64 word" where
  "Millisecond = 1000000"

definition read_deadline :: "any list \<Rightarrow> string + 64 word option" where
  "read_deadline ps =
     (if length ps = 2 then Inr (Some Millisecond)
      else case ToInt (ps ! 2) of
        None \<Rightarrow> Inl ''Invalid parameter type, expected int for timeout in ms''
      | Some ms \<Rightarrow> Inr (if sint ms > 0 then Some (ms * Millisecond) else None))"

definition tcpRead :: net_handler where
  "tcpRead ev ps st =
     (if length ps \<noteq> 2 \<and> length ps \<noteq> 3
      then fail 1 ''Invalid number of parameters, expected (connection ID, max bytes to read[, optional timeout in ms])'' st
      else case ToUint (ps ! 0) of
        None \<Rightarrow> fail 1 errInvalidConnectionIDType st
      | Some i \<Rightarrow>
          (case liveConnections st i of
             None \<Rightarrow> fail 2 (''Connection not found for ID: '' @ show_nat (unat i)) st
           | Some conn \<Rightarrow>
               (case ToUint (ps ! 1) of
                  None \<Rightarrow> fail 1 ''Invalid parameter type, expected int for max bytes to read'' st
                | Some maxBytes \<Rightarrow>
                    (case read_deadline ps of
                       Inl message \<Rightarrow> fail 1 message st
                     | Inr deadline \<Rightarrow>
                         (case make_bytes (uint maxBytes) of
                            None \<Rightarrow> (Panic, st)
                          | Some buffer \<Rightarrow>
                              (case ev_deadline_err ev of
                                 Some err \<Rightarrow> fail 3 (''Failed to set read timeout: '' @ Error err) st
                               | None \<Rightarrow>
                                   (case ev_read ev deadline of
                                      (b, err) \<Rightarrow>
                                        (case err of
                                           Some e \<Rightarrow>
                                             if errors_Is e ErrDeadlineExceeded
                                             then succeed (GoBytes (take (length buffer) b)) st
                                             else fail 3 (''Failed to read from connection: '' @ Error e) st
                                         | None \<Rightarrow> succeed (GoBytes (take (length buffer) b)) st))))))))"

definition tcpWrite :: net_handler where
  "tcpWrite ev ps st =
     (if length ps \<noteq> 2
      then fail 1 ''Invalid number of parameters, expected (connection ID, data to write)'' st
      else case ToUint (ps ! 0) of
        None \<Rightarrow> fail 1 errInvalidConnectionIDType st
      | Some i \<Rightarrow>
          (case liveConnections st i of
             None \<Rightarrow> fail 2 (''Connection not found for ID: '' @ show_nat (unat i)) st
           | Some conn \<Rightarrow>
               (case as_data (ps ! 1) of
                  None \<Rightarrow> fail 1 ''Invalid parameter type, expected []byte or string for data to write'' st
                | Some data \<Rightarrow>
                    (case stream_Write conn data of
                       (n, err, conn') \<Rightarrow>
                         (let st' = st\<lparr>liveConnections := (liveConnections st)(i \<mapsto> conn')\<rparr> in
                          case err of
                            Some e \<Rightarrow> fail 3 (''Failed to write to connection: '' @ Error e) st'
                          | None \<Rightarrow> succeed (GoInt (of_nat n)) st')))))"

text \<open>
  \<open>tcp/connectSSL\<close>: the parameter count is only checked to be between one and three, so with one
  parameter \<open>params[1]\<close> is out of range, a panic.
\<close>

definition tls_cert :: "net_events \<Rightarrow> any list \<Rightarrow> string + string option" where
  "tls_cert ev ps =
     (if length ps \<noteq> 3 then Inr None
      else case as_string (ps ! 2) of
        None \<Rightarrow> Inl ''Invalid parameter type, expected string for TLS cert''
      | Some cert \<Rightarrow>
          if cert = [] then Inr None
          else if \<not> ev_pem_ok ev cert then Inl ''Failed to parse TLS certificate''
          else Inr (Some cert))"

definition tcpConnectSSL :: net_handler where
  "tcpConnectSSL ev ps st =
     (if length ps < 1 \<or> length ps > 3
      then fail 1 ''Invalid number of parameters, expected server address, port and optional TLS cert'' st
      else case as_string (ps ! 0) of
        None \<Rightarrow> fail 1 errInvalidServerAddressType st
      | Some serverAddr \<Rightarrow>
          if length ps < 2 then (Panic, st)
          else (case ToUint (ps ! 1) of
             None \<Rightarrow> fail 1 errInvalidServerPortType st
           | Some serverPort \<Rightarrow>
               (case tls_cert ev ps of
                  Inl message \<Rightarrow> fail 1 message st
                | Inr tlsConfig \<Rightarrow>
                    (case ev_dial ev (host_port serverAddr serverPort) tlsConfig of
                       Inl err \<Rightarrow> fail 2 (''Failed to connect to server: '' @ Error err) st
                     | Inr conn \<Rightarrow> with_new_id st (enter_conn conn)))))"

end
