(* ===== verification/Network_Udp.thy ===== *)
theory Network_Udp
  imports Network_Tcp
begin

text \<open>
  \<open>internal/network-api/network-api.go\<close>, second half: the methods \<open>udp/*\<close>, with the write
  buffers that collect an outgoing packet and the read buffers that hold the rest of an
  incoming one, and the registration of all the network methods. The read-write lock is not
  a part of the state: every critical section is one step of a handler.
\<close>

section \<open>The handlers of udp/*\<close>

definition enter_udp :: "string \<Rightarrow> 64 word \<Rightarrow> net_state \<Rightarrow> net_state" where
  "enter_udp addr newID st =
     st\<lparr>liveUdpConnections := (liveUdpConnections st)(newID \<mapsto> \<lparr>us_local = addr, us_sent = []\<rparr>)\<rparr>"

definition udpConnect :: net_handler where
  "udpConnect ev ps st =
     (if length ps \<noteq> 2
      then fail 1 ''Invalid number of parameters, expected server address and port'' st
      else case as_string (ps ! 0) of
        None \<Rightarrow> fail 1 errInvalidServerAddressType st
      | Some serverAddr \<Rightarrow>
          (case ToUint (ps ! 1) of
             None \<Rightarrow> fail 1 errInvalidServerPortType st
           | Some serverPort \<Rightarrow>
               (case ev_resolve ev (host_port serverAddr serverPort) of
                  Inl err \<Rightarrow> fail 2 (''Failed to resolve UDP address: '' @ Error err) st
                | Inr udpAddr \<Rightarrow>
                    (case ev_listenUDP ev udpAddr of
                       Some err \<Rightarrow> fail 2 (''Failed to connect to server: '' @ Error err) st
                     | None \<Rightarrow> with_new_id st (enter_udp udpAddr)))))"

definition udp_not_found :: "64 word \<Rightarrow> net_state \<Rightarrow> handler_result \<times> net_state" where
  "udp_not_found i st = fail 2 (''UDP connection not found for ID: '' @ show_nat (unat i)) st"

definition udpBeginPacket :: net_handler where
  "udpBeginPacket ev ps st =
     (if length ps \<noteq> 3
      then fail 1 ''Invalid number of parameters, expected udpConnId, dest address, dest port'' st
      else case ToUint (ps ! 0) of
        None \<Rightarrow> fail 1 errInvalidUDPConnectionIDType st
      | Some i \<Rightarrow>
          (case as_string (ps ! 1) of
             None \<Rightarrow> fail 1 errInvalidServerAddressType st
           | Some targetIP \<Rightarrow>
               (case ToUint (ps ! 2) of
                  None \<Rightarrow> fail 1 errInvalidServerPortType st
                | Some targetPort \<Rightarrow>
                    if liveUdpConnections st i = None then udp_not_found i st
                    else (case ev_resolve ev (host_port targetIP targetPort) of
                       Inl err \<Rightarrow> fail 3 (''Failed to resolve target address: '' @ Error err) st
                     | Inr addr \<Rightarrow>
                         succeed (GoBool True)
                           (st\<lparr>udpWriteTargets := (udpWriteTargets st)(i \<mapsto> addr),
                               udpWriteBuffers := (udpWriteBuffers st)(i \<mapsto> [])\<rparr>)))))"

definition udpWrite :: net_handler where
  "udpWrite ev ps st =
     (if length ps \<noteq> 2 then fail 1 ''Invalid number of parameters, expected udpConnId, payload'' st
      else case ToUint (ps ! 0) of
        None \<Rightarrow> fail 1 errInvalidUDPConnectionIDType st
      | Some i \<Rightarrow>
          (case as_data (ps ! 1) of
             None \<Rightarrow> fail 1 ''Invalid parameter type, expected []byte or string for data to write'' st
           | Some data \<Rightarrow>
               (case udpWriteBuffers st i of
                  None \<Rightarrow> udp_not_found i st
                | Some udpBuffer \<Rightarrow>
                    succeed (GoInt (of_nat (length data)))
                      (st\<lparr>udpWriteBuffers := (udpWriteBuffers st)(i \<mapsto> udpBuffer @ data)\<rparr>))))"

text \<open>
  \<open>udp/endPacket\<close>. A missing target is a nil address, for which the send fails with the error
  of the \<open>net\<close> package.
\<close>

definition udpEndPacket :: net_handler where
  "udpEndPacket ev ps st =
     (if length ps \<noteq> 1 then fail 1 ''Invalid number of parameters, expected expected udpConnId'' st
      else case ToUint (ps ! 0) of
        None \<Rightarrow> fail 1 errInvalidUDPConnectionIDType st
      | Some i \<Rightarrow>
          (case liveUdpConnections st i of
             None \<Rightarrow> udp_not_found i st
           | Some udpConn \<Rightarrow>
               (let st' = st\<lparr>udpWriteBuffers := (udpWriteBuffers st)(i := None),
                             udpWriteTargets := (udpWriteTargets st)(i := None)\<rparr> in
                case udpWriteBuffers st i of
                  None \<Rightarrow> fail 3 (''No UDP packet begun for ID: '' @ show_nat (unat i)) st'
                | Some udpBuffer \<Rightarrow>
                    (case udpWriteTargets st i of
                       None \<Rightarrow> fail 4 ''Failed to write to UDP connection: missing address'' st'
                     | Some udpAddr \<Rightarrow>
                         (case ev_writeTo_err ev of
                            Some err \<Rightarrow> fail 4 (''Failed to write to UDP connection: '' @ Error err) st'
                          | None \<Rightarrow>
                              succeed (GoInt (of_nat (length udpBuffer)))
                                (st'\<lparr>liveUdpConnections := (liveUdpConnections st')
                                    (i \<mapsto> udpConn\<lparr>us_sent := us_sent udpConn @ [(udpBuffer, udpAddr)]\<rparr>)\<rparr>))))))"

text \<open>
  \<open>net.SplitHostPort\<close> on the printed form of a \<open>UDPAddr\<close>: what precedes the last colon, without
  brackets, and what follows it. An address without a colon is an error.
\<close>

definition SplitHostPort :: "string \<Rightarrow> (string \<times> string) option" where
  "SplitHostPort addr =
     (if CHR '':'' \<notin> set addr then None
      else (let port = rev (takeWhile (\<lambda>c. c \<noteq> CHR '':'') (rev addr));
                host = take (length addr - length port - 1) addr
            in if host \<noteq> [] \<and> hd host = CHR ''['' \<and> last host = CHR '']''
               then Some (butlast (tl host), port) else Some (host, port)))"

text \<open>The text of the error of \<open>strconv.Atoi\<close>.\<close>

definition Atoi_error :: "string \<Rightarrow> string" where
  "Atoi_error s =
     ''strconv.Atoi: parsing '' @ [CHR 0x22] @ s @ [CHR 0x22] @
     (if parse_magnitude (if s \<noteq> [] \<and> (hd s = CHR ''-'' \<or> hd s = CHR ''+'') then tl s else s) = None
      then '': invalid syntax'' else '': value out of range'')"

definition await_deadline :: "any list \<Rightarrow> string + 64 word option" where
  "await_deadline ps =
     (if length ps = 2
      then (case ToInt (ps ! 1) of
              None \<Rightarrow> Inl ''Invalid parameter type, expected int for timeout in ms''
            | Some ms \<Rightarrow> Inr (if sint ms > 0 then Some (ms * Millisecond) else None))
      else Inr None)"

definition udpAwaitPacket :: net_handler where
  "udpAwaitPacket ev ps st =
     (if length ps \<noteq> 1 \<and> length ps \<noteq> 2
      then fail 1 ''Invalid number of parameters, expected (UDP connection ID[, optional timeout in ms])'' st
      else case ToUint (ps ! 0) of
        None \<Rightarrow> fail 1 errInvalidUDPUIntIDType st
      | Some i \<Rightarrow>
          (case await_deadline ps of
             Inl message \<Rightarrow> fail 1 message st
           | Inr deadline \<Rightarrow>
               if liveUdpConnections st i = None then udp_not_found i st
               else (case ev_deadline_err ev of
                  Some err \<Rightarrow> fail 3 (''Failed to set read deadline: '' @ Error err) st
                | None \<Rightarrow>
                    (case ev_readFrom ev deadline of
                       ((b, addr), Some err) \<Rightarrow>
                         if errors_Is err ErrDeadlineExceeded then fail 5 ''Timeout'' st
                         else fail 3 (''Failed to read from UDP connection: '' @ Error err) st
                     | ((b, addr), None) \<Rightarrow>
                         (case SplitHostPort addr of
                            None \<Rightarrow> fail 4 (''Failed to parse source address: address '' @ addr @ '': missing port in address'') st
                          | Some (host, portStr) \<Rightarrow>
                              (case Atoi portStr of
                                 None \<Rightarrow> fail 4 (''Failed to parse source address: '' @ Atoi_error portStr) st
                               | Some port \<Rightarrow>
                                   (let packet = take (64 * 1024) b in
                                    succeed (GoSlice [GoInt (of_nat (length packet)), GoString host,
                                                      GoInt (word_of_int port)])
                                      (st\<lparr>udpReadBuffers := (udpReadBuffers st)(i \<mapsto> packet)\<rparr>))))))))"

text \<open>
  \<open>udp/dropPacket\<close>: the variable tested by the second \<open>!ok\<close> is still the one of the type
  conversion, so that branch is never taken.
\<close>

definition udpDropPacket :: net_handler where
  "udpDropPacket ev ps st =
     (if length ps \<noteq> 1 \<and> length ps \<noteq> 2
      then fail 1 ''Invalid number of parameters, expected (UDP connection ID[, optional timeout in ms])'' st
      else case ToUint (ps ! 0) of
        None \<Rightarrow> fail 1 errInvalidUDPUIntIDType st
      | Some i \<Rightarrow> succeed (GoBool True) (st\<lparr>udpReadBuffers := (udpReadBuffers st)(i := None)\<rparr>))"

definition udpRead :: net_handler where
  "udpRead ev ps st =
     (if length ps \<noteq> 2 \<and> length ps \<noteq> 3
      then fail 1 ''Invalid number of parameters, expected (UDP connection ID, max bytes to read)'' st
      else case ToUint (ps ! 0) of
        None \<Rightarrow> fail 1 errInvalidUDPUIntIDType st
      | Some i \<Rightarrow>
          (case ToUint (ps ! 1) of
             None \<Rightarrow> fail 1 ''Invalid parameter type, expected uint for max bytes to read'' st
           | Some maxBytes \<Rightarrow>
               (case udpReadBuffers st i of
                  None \<Rightarrow> succeed (GoBytes []) st
                | Some buffer \<Rightarrow>
                    if length buffer > unat maxBytes
                    then succeed (GoBytes (take (unat maxBytes) buffer))
                           (st\<lparr>udpReadBuffers := (udpReadBuffers st)(i \<mapsto> drop (unat maxBytes) buffer)\<rparr>)
                    else succeed (GoBytes buffer)
                           (st\<lparr>udpReadBuffers := (udpReadBuffers st)(i := None)\<rparr>))))"

definition udpClose :: net_handler where
  "udpClose ev ps st =
     (if length ps \<noteq> 1 then fail 1 ''Invalid number of parameters, expected UDP connection ID'' st
      else case ToUint (ps ! 0) of
        None \<Rightarrow> fail 1 errInvalidUDPUIntIDType st
      | Some i \<Rightarrow>
          (let st' = st\<lparr>liveUdpConnections := (liveUdpConnections st)(i := None),
                        udpReadBuffers := (udpReadBuffers st)(i := None)\<rparr> in
           if liveUdpConnections st i = None then udp_not_found i st'
           else closed_answer UdpConn i ev st'))"

section \<open>Registration\<close>

text \<open>The network methods with their handlers, in the order \<open>Register\<close> adds them.\<close>

definition network_methods :: "(string \<times> net_handler) list" where
  "network_methods =
     [(''tcp/connect'', tcpConnect), (''tcp/listen'', tcpListen),
      (''tcp/closeListener'', tcpCloseListener), (''tcp/accept'', tcpAccept),
      (''tcp/read'', tcpRead), (''tcp/write'', tcpWrite), (''tcp/close'', tcpClose),
      (''tcp/connectSSL'', tcpConnectSSL), (''udp/connect'', udpConnect),
      (''udp/beginPacket'', udpBeginPacket), (''udp/write'', udpWrite),
      (''udp/endPacket'', udpEndPacket), (''udp/awaitPacket'', udpAwaitPacket),
      (''udp/read'', udpRead), (''udp/dropPacket'', udpDropPacket), (''udp/close'', udpClose)]"

definition Register_network :: "(net_handler \<Rightarrow> 's RouterRequestHandler) \<Rightarrow> 's Router \<Rightarrow> 's Router" where
  "Register_network = register_all network_methods"

end
