(* ===== verification/Network_Props.thy ===== *)
theory Network_Props
  imports Network_Udp
begin

text \<open>
  The properties of the network API: the generation of IDs ends and gives fresh IDs, the
  tables stay consistent under every method, connections live from connect to close, and a
  UDP packet is sent and read as a whole.
\<close>

section \<open>Generating IDs\<close>

lemma next_id_Some:
  "next_id fuel ex cur = Some (i, n) \<Longrightarrow> \<not> ex i \<and> i = ucast n"
  by (induction fuel arbitrary: cur) (auto simp: Let_def split: if_splits)

lemma next_id_None:
  "next_id fuel ex cur = None \<Longrightarrow> k < fuel \<Longrightarrow> ex (ucast (cur + of_nat (Suc k)))"
proof (induction fuel arbitrary: cur k)
  case (Suc fuel)
  then have "ex (ucast (cur + 1))" and "next_id fuel ex (cur + 1) = None"
    by (auto simp: Let_def split: if_splits)
  with Suc.IH [of "cur + 1" "k - 1"] Suc.prems(2) show ?case
    by (cases k) (simp_all add: add.assoc add.commute add.left_commute)
qed simp

lemma unat_ucast_32_64: "unat (ucast w :: 64 word) = unat w" for w :: "32 word"
proof -
  have "unat w < 2 ^ 64" using unsigned_less [of w, where 'a = nat] by simp
  then show ?thesis by (simp only: unsigned_ucast_eq take_bit_nat_eq_self_iff) simp
qed

lemma ucast_32_64_inject: "(ucast a :: 64 word) = ucast b \<Longrightarrow> a = b" for a b :: "32 word"
  by (metis unat_ucast_32_64 word_unat_eq_iff)

lemma candidates_inj: "inj_on (\<lambda>k. ucast (cur + of_nat (Suc k)) :: 64 word) {..<2 ^ 32}" for cur :: "32 word"
proof (rule inj_onI)
  fix i j :: nat
  assume ij: "i \<in> {..<2 ^ 32}" "j \<in> {..<2 ^ 32}"
    and "(ucast (cur + of_nat (Suc i)) :: 64 word) = ucast (cur + of_nat (Suc j))"
  then have "(of_nat i :: 32 word) = of_nat j" by (auto dest: ucast_32_64_inject)
  then have "unat (of_nat i :: 32 word) = unat (of_nat j :: 32 word)" by simp
  with ij show "i = j" by (simp add: unsigned_of_nat take_bit_eq_mod)
qed

text \<open>With fewer than \<open>2 ^ 32\<close> IDs in use, one of the candidates is free.\<close>

lemma next_id_found:
  assumes "finite {i. ex i}" and "card {i. ex i} < 2 ^ 32"
  shows "\<exists>i n. next_id (2 ^ 32) ex cur = Some (i, n)"
proof (rule ccontr)
  assume "\<nexists>i n. next_id (2 ^ 32) ex cur = Some (i, n)"
  then have "next_id (2 ^ 32) ex cur = None" by (cases "next_id (2 ^ 32) ex cur") auto
  then have "(\<lambda>k. ucast (cur + of_nat (Suc k))) ` {..<2 ^ 32} \<subseteq> {i. ex i}"
    using next_id_None by blast
  then have "card ((\<lambda>k. ucast (cur + of_nat (Suc k)) :: 64 word) ` {..<2 ^ 32}) \<le> card {i. ex i}"
    using assms(1) by (rule card_mono [rotated])
  then have "2 ^ 32 \<le> card {i. ex i}" by (simp only: card_image [OF candidates_inj] card_lessThan)
  with assms(2) show False by linarith
qed

lemma takeLock_Some:
  assumes "takeLockAndGenerateNextID st = Some (i, st')"
  shows "\<not> id_in_use st i \<and> unat i < 2 ^ 32 \<and> (\<exists>n. st' = st\<lparr>nextConnectionID := n\<rparr>)"
proof -
  from assms obtain n where n: "next_id (2 ^ 32) (id_in_use st) (nextConnectionID st) = Some (i, n)"
    and st': "st' = st\<lparr>nextConnectionID := n\<rparr>"
    by (auto simp: takeLockAndGenerateNextID_def split: option.splits prod.splits)
  from next_id_Some [OF n] unat_ucast_32 [of n] st' show ?thesis by blast
qed

section \<open>The tables\<close>

definition net_inv :: "net_state \<Rightarrow> bool" where
  "net_inv st \<longleftrightarrow>
     finite (dom (liveConnections st)) \<and> finite (dom (liveListeners st)) \<and>
     dom (liveConnections st) \<inter> dom (liveListeners st) = {} \<and>
     (\<forall>i \<in> dom (liveConnections st) \<union> dom (liveListeners st) \<union> dom (liveUdpConnections st). unat i < 2 ^ 32) \<and>
     dom (udpWriteBuffers st) = dom (udpWriteTargets st)"

lemma net_inv_initial: "net_inv initial_net"
  by (simp add: net_inv_def initial_net_def)

lemma net_inv_counter [simp]: "net_inv (st\<lparr>nextConnectionID := n\<rparr>) = net_inv st"
  by (simp add: net_inv_def)

lemma with_new_id_inv:
  assumes "net_inv st"
    and "\<And>i n. \<lbrakk> \<not> id_in_use st i; unat i < 2 ^ 32 \<rbrakk> \<Longrightarrow> net_inv (enter i (st\<lparr>nextConnectionID := n\<rparr>))"
  shows "net_inv (snd (with_new_id st enter))"
  using assms takeLock_Some by (fastforce simp: with_new_id_def split: option.split prod.split)

lemma enter_conn_inv:
  "\<lbrakk> net_inv st; \<not> id_in_use st i; unat i < 2 ^ 32 \<rbrakk> \<Longrightarrow> net_inv (enter_conn c i (st\<lparr>nextConnectionID := n\<rparr>))"
  by (auto simp: net_inv_def enter_conn_def id_in_use_def)

lemma enter_listener_inv:
  "\<lbrakk> net_inv st; \<not> id_in_use st i; unat i < 2 ^ 32 \<rbrakk> \<Longrightarrow> net_inv (enter_listener a i (st\<lparr>nextConnectionID := n\<rparr>))"
  by (auto simp: net_inv_def enter_listener_def id_in_use_def)

lemma enter_udp_inv:
  "\<lbrakk> net_inv st; unat i < 2 ^ 32 \<rbrakk> \<Longrightarrow> net_inv (enter_udp a i (st\<lparr>nextConnectionID := n\<rparr>))"
  by (auto simp: net_inv_def enter_udp_def)

lemmas new_id_intros = with_new_id_inv enter_conn_inv enter_listener_inv enter_udp_inv

lemma tcpConnect_inv: "net_inv st \<Longrightarrow> net_inv (snd (tcpConnect ev ps st))"
  by (auto simp: tcpConnect_def split: option.split sum.split intro: new_id_intros)

lemma tcpListen_inv: "net_inv st \<Longrightarrow> net_inv (snd (tcpListen ev ps st))"
  by (auto simp: tcpListen_def split: option.split sum.split intro: new_id_intros)

lemma tcpAccept_inv: "net_inv st \<Longrightarrow> net_inv (snd (tcpAccept ev ps st))"
  by (auto simp: tcpAccept_def split: option.split sum.split intro: new_id_intros)

lemma tcpConnectSSL_inv: "net_inv st \<Longrightarrow> net_inv (snd (tcpConnectSSL ev ps st))"
  by (auto simp: tcpConnectSSL_def split: option.split sum.split intro: new_id_intros)

lemma udpConnect_inv: "net_inv st \<Longrightarrow> net_inv (snd (udpConnect ev ps st))"
  by (auto simp: udpConnect_def split: option.split sum.split intro: new_id_intros)

lemma tcpClose_inv: "net_inv st \<Longrightarrow> net_inv (snd (tcpClose ev ps st))"
  by (auto simp: tcpClose_def closed_answer_def net_inv_def split: option.split)

lemma tcpCloseListener_inv: "net_inv st \<Longrightarrow> net_inv (snd (tcpCloseListener ev ps st))"
  by (auto simp: tcpCloseListener_def closed_answer_def net_inv_def split: option.split)

lemma tcpRead_state [simp]: "snd (tcpRead ev ps st) = st"
  by (simp add: tcpRead_def split: option.split sum.split prod.split)

lemma tcpWrite_inv: "net_inv st \<Longrightarrow> net_inv (snd (tcpWrite ev ps st))"
  by (auto simp: tcpWrite_def net_inv_def Let_def split: option.split prod.split)

lemma udpBeginPacket_inv: "net_inv st \<Longrightarrow> net_inv (snd (udpBeginPacket ev ps st))"
  by (auto simp: udpBeginPacket_def udp_not_found_def net_inv_def split: option.split sum.split)

lemma udpWrite_inv: "net_inv st \<Longrightarrow> net_inv (snd (udpWrite ev ps st))"
  by (auto simp: udpWrite_def udp_not_found_def net_inv_def split: option.split)

lemma udpEndPacket_inv: "net_inv st \<Longrightarrow> net_inv (snd (udpEndPacket ev ps st))"
  by (auto simp: udpEndPacket_def udp_not_found_def net_inv_def Let_def split: option.split)

lemma udpAwaitPacket_inv: "net_inv st \<Longrightarrow> net_inv (snd (udpAwaitPacket ev ps st))"
  by (auto simp: udpAwaitPacket_def udp_not_found_def net_inv_def Let_def split: option.split sum.split prod.split)

lemma udpDropPacket_inv: "net_inv st \<Longrightarrow> net_inv (snd (udpDropPacket ev ps st))"
  by (auto simp: udpDropPacket_def net_inv_def split: option.split)

lemma udpRead_inv: "net_inv st \<Longrightarrow> net_inv (snd (udpRead ev ps st))"
  by (auto simp: udpRead_def net_inv_def split: option.split)

lemma udpClose_inv: "net_inv st \<Longrightarrow> net_inv (snd (udpClose ev ps st))"
  by (auto simp: udpClose_def udp_not_found_def closed_answer_def net_inv_def Let_def split: option.split)

lemmas net_handler_inv =
  tcpConnect_inv tcpListen_inv tcpAccept_inv tcpConnectSSL_inv udpConnect_inv tcpClose_inv
  tcpCloseListener_inv tcpWrite_inv udpBeginPacket_inv udpWrite_inv udpEndPacket_inv
  udpAwaitPacket_inv udpDropPacket_inv udpRead_inv udpClose_inv

interpretation net_api: api_table network_methods "\<lambda>ev. True" net_inv
proof
  fix m h ev st ps
  assume "(m, h) \<in> set network_methods" and "net_inv st"
  then show "net_inv (snd (h ev ps st))"
    by (auto simp: network_methods_def intro: net_handler_inv)
qed

section \<open>Sequences of UDP calls\<close>

text \<open>The payloads of one packet, written one after the other.\<close>

definition udp_write_all :: "net_events \<Rightarrow> 64 word \<Rightarrow> bytes list \<Rightarrow> net_state \<Rightarrow> net_state" where
  "udp_write_all ev i ds st = fold (\<lambda>d st. snd (udpWrite ev [GoUint i, GoBytes d] st)) ds st"

text \<open>Successive reads with the given sizes: the bytes returned, and the state left.\<close>

fun udp_read_all :: "net_events \<Rightarrow> 64 word \<Rightarrow> 64 word list \<Rightarrow> net_state \<Rightarrow> bytes \<times> net_state" where
  "udp_read_all ev i [] st = ([], st)"
| "udp_read_all ev i (n # ns) st =
     (case udpRead ev [GoUint i, GoUint n] st of
        (r, st1) \<Rightarrow>
          (case udp_read_all ev i ns st1 of
             (bs, st2) \<Rightarrow> ((case r of Respond (GoBytes b) _ \<Rightarrow> b | _ \<Rightarrow> []) @ bs, st2)))"

lemma udp_write_all_buffer:
  "udpWriteBuffers st i = Some b \<Longrightarrow>
     udp_write_all ev i ds st = st\<lparr>udpWriteBuffers := (udpWriteBuffers st)(i \<mapsto> b @ concat ds)\<rparr>"
proof (induction ds arbitrary: st b)
  case Nil
  then have "(udpWriteBuffers st)(i \<mapsto> b) = udpWriteBuffers st" by (simp add: fun_upd_idem_iff)
  then show ?case by (simp add: udp_write_all_def)
next
  case (Cons d ds)
  have step: "snd (udpWrite ev [GoUint i, GoBytes d] st) = st\<lparr>udpWriteBuffers := (udpWriteBuffers st)(i \<mapsto> b @ d)\<rparr>"
    using Cons.prems by (simp add: udpWrite_def)
  from Cons.IH [of "st\<lparr>udpWriteBuffers := (udpWriteBuffers st)(i \<mapsto> b @ d)\<rparr>" "b @ d"] show ?case
    by (simp add: udp_write_all_def step cong: if_cong)
qed

lemma udp_read_none: "udpReadBuffers st i = None \<Longrightarrow> udp_read_all ev i ns st = ([], st)"
  by (induction ns) (simp_all add: udpRead_def succeed_def)

lemma udp_read_all_packet:
  assumes "udpReadBuffers st i = Some packet"
  shows "fst (udp_read_all ev i ns st) = take (sum_list (map unat ns)) packet"
  using assms
proof (induction ns arbitrary: st packet)
  case (Cons n ns)
  show ?case
  proof (cases "length packet > unat n")
    case True
    let ?st = "st\<lparr>udpReadBuffers := (udpReadBuffers st)(i \<mapsto> drop (unat n) packet)\<rparr>"
    have "udpRead ev [GoUint i, GoUint n] st = (Respond (GoBytes (take (unat n) packet)) GoNil, ?st)"
      using Cons.prems True by (simp add: udpRead_def succeed_def)
    moreover obtain bs st2 where r: "udp_read_all ev i ns ?st = (bs, st2)" by (metis prod.exhaust)
    moreover have "bs = take (sum_list (map unat ns)) (drop (unat n) packet)"
      using Cons.IH [of ?st "drop (unat n) packet"] r by simp
    ultimately show ?thesis by (simp add: take_add)
  next
    case False
    let ?st = "st\<lparr>udpReadBuffers := (udpReadBuffers st)(i := None)\<rparr>"
    have "udpRead ev [GoUint i, GoUint n] st = (Respond (GoBytes packet) GoNil, ?st)"
      using Cons.prems False by (simp add: udpRead_def succeed_def)
    with False udp_read_none [of ?st i ev ns] show ?thesis by simp
  qed
qed simp

lemma next_id_first:
  "\<lbrakk> 0 < fuel; \<not> ex (ucast (cur + 1)) \<rbrakk> \<Longrightarrow> next_id fuel ex cur = Some (ucast (cur + 1), cur + 1)"
  by (cases fuel) (simp_all add: Let_def)

lemma takeLock_first:
  "\<not> id_in_use st (ucast (nextConnectionID st + 1)) \<Longrightarrow>
     takeLockAndGenerateNextID st =
       Some (ucast (nextConnectionID st + 1), st\<lparr>nextConnectionID := nextConnectionID st + 1\<rparr>)"
  by (simp add: takeLockAndGenerateNextID_def next_id_first)

section \<open>Timeouts\<close>

lemma sint_word_of_int_64: "\<lbrakk> 0 \<le> k; k < 2 ^ 63 \<rbrakk> \<Longrightarrow> sint (word_of_int k :: 64 word) = k"
  by (subst signed_of_int) (simp add: signed_take_bit_int_eq_self)

lemma read_deadline_ms:
  "read_deadline [c, n, GoInt ms] = Inr (if 0 < sint ms then Some (ms * Millisecond) else None)"
  by (simp add: read_deadline_def)

lemma await_deadline_ms:
  "await_deadline [c, GoInt ms] = Inr (if 0 < sint ms then Some (ms * Millisecond) else None)"
  by (simp add: await_deadline_def)

lemma huge_timeout: "0 < sint (9223372036855 :: 64 word)" "sint (9223372036855 * Millisecond) < 0"
  unfolding Millisecond_def by code_simp+

section \<open>Panics\<close>

text \<open>
  \<open>tcp/connectSSL\<close> with one parameter indexes past the end of the parameters, and \<open>tcp/read\<close> on a
  live connection with a size the allocator cannot provide panics in \<open>make\<close>.
\<close>

lemma tcpConnectSSL_panics: "fst (tcpConnectSSL ev [GoString host] st) = Panic"
  by (simp add: tcpConnectSSL_def)

lemma tcpRead_panics:
  "liveConnections st i = Some conn \<Longrightarrow> fst (tcpRead ev [GoUint i, GoUint (2 ^ 62)] st) = Panic"
  by (simp add: tcpRead_def read_deadline_def make_bytes_def maxAlloc_def)

section \<open>Properties\<close>

text \<open>
  The tables of the network API stay consistent: after any sequence of calls of its
  methods, with any parameters and any answers of the operating system, no ID names both a
  connection and a listener, every ID fits in 32 bits, and a UDP packet that was begun has
  both a buffer and a target.
\<close>

lemma network_tables_consistent:
  "net_inv (fold (call_api network_methods) xs initial_net)"
  by (rule net_api.calls_inv [OF net_inv_initial]) simp

text \<open>
  C16. Connecting: as long as fewer than \<open>2 ^ 32\<close> connections and listeners are live, a
  successful dial ends with a connection ID that no live connection or listener has; the
  new connection is entered under it and every other entry is left alone.
\<close>

theorem connect_gives_fresh_id:
  assumes "net_inv st" and "card (dom (liveConnections st) \<union> dom (liveListeners st)) < 2 ^ 32"
    and "ev_dial ev (host_port addr port) None = Inr conn"
  shows "\<exists>i n. tcpConnect ev [GoString addr, GoUint port] st
           = (Respond (GoUint i) GoNil,
              st\<lparr>nextConnectionID := n, liveConnections := (liveConnections st)(i \<mapsto> conn)\<rparr>)
     \<and> liveConnections st i = None \<and> liveListeners st i = None"
proof -
  have "{i. id_in_use st i} = dom (liveConnections st) \<union> dom (liveListeners st)"
    by (auto simp: id_in_use_def)
  then have "finite {i. id_in_use st i}" "card {i. id_in_use st i} < 2 ^ 32"
    using assms(1,2) by (simp_all add: net_inv_def)
  then obtain i n where n: "next_id (2 ^ 32) (id_in_use st) (nextConnectionID st) = Some (i, n)"
    using next_id_found by blast
  then have "takeLockAndGenerateNextID st = Some (i, st\<lparr>nextConnectionID := n\<rparr>)"
    by (simp add: takeLockAndGenerateNextID_def)
  moreover have "\<not> id_in_use st i" using next_id_Some [OF n] by blast
  ultimately show ?thesis
    using assms(3) by (auto simp: tcpConnect_def with_new_id_def enter_conn_def succeed_def id_in_use_def)
qed

definition quiet_events :: net_events where
  "quiet_events =
     \<lparr>ev_dial = (\<lambda>_ _. Inr new_stream), ev_listen = (\<lambda>_. None), ev_accept = Inr new_stream,
      ev_pem_ok = (\<lambda>_. True), ev_deadline_err = None, ev_read = (\<lambda>_. ([], None)), ev_close_err = None,
      ev_resolve = Inr, ev_listenUDP = (\<lambda>_. None), ev_writeTo_err = None,
      ev_readFrom = (\<lambda>_. (([], ''1.2.3.4:5''), None))\<rparr>"

theorem connect_gives_fresh_id_witness:
  "\<exists>i st'. tcpConnect quiet_events [GoString ''host'', GoUint 80] initial_net = (Respond (GoUint i) GoNil, st')
     \<and> liveConnections st' i = Some new_stream"
proof -
  have "card (dom (liveConnections initial_net) \<union> dom (liveListeners initial_net)) < 2 ^ 32"
    by (simp add: initial_net_def)
  moreover have "ev_dial quiet_events (host_port ''host'' 80) None = Inr new_stream"
    by (simp add: quiet_events_def)
  ultimately show ?thesis
    using connect_gives_fresh_id [OF net_inv_initial, of quiet_events "''host''" 80 new_stream] by force
qed

text \<open>
  C17. The life of a TCP connection: a write appends exactly the data to its stream and
  returns the number of bytes; closing it calls \<open>Close\<close> on it once and removes it; from then on
  reading, writing and closing are refused with "Connection not found" and change nothing.
\<close>

theorem tcp_lifecycle:
  assumes "liveConnections st i = Some conn" and "\<not> out_closed conn" and "capacity conn = None"
  shows "tcpWrite ev [GoUint i, GoBytes d] st =
           (Respond (GoInt (of_nat (length d))) GoNil,
            st\<lparr>liveConnections := (liveConnections st)(i \<mapsto> conn\<lparr>sent := sent conn @ d\<rparr>)\<rparr>)
     \<and> (\<exists>text st'. tcpClose ev [GoUint i] st = (Respond (GoString text) GoNil, st')
          \<and> st' = st\<lparr>liveConnections := (liveConnections st)(i := None), closes := closes st @ [(TcpConn, i)]\<rparr>
          \<and> (\<forall>ev' x n. tcpWrite ev' [GoUint i, x] st' = tcpClose ev' [GoUint i] st'
               \<and> tcpRead ev' [GoUint i, n] st' = tcpClose ev' [GoUint i] st'
               \<and> tcpClose ev' [GoUint i] st'
                   = (Respond GoNil (err_pair 2 (''Connection not found for ID: '' @ show_nat (unat i))), st')))"
  using assms
  by (simp add: tcpWrite_def tcpClose_def tcpRead_def closed_answer_def succeed_def fail_def
        stream_Write_unlimited)

theorem tcp_lifecycle_witness:
  "\<exists>st'. tcpClose quiet_events [GoUint 1] (initial_net\<lparr>liveConnections := [1 \<mapsto> new_stream]\<rparr>)
        = (Respond (GoString []) GoNil, st')
     \<and> tcpWrite quiet_events [GoUint 1, GoBytes [7]] st'
        = (Respond GoNil (err_pair 2 (''Connection not found for ID: '' @ show_nat 1)), st')"
  using tcp_lifecycle [of "initial_net\<lparr>liveConnections := [1 \<mapsto> new_stream]\<rparr>" 1 new_stream quiet_events]
  by (simp add: new_stream_def) (auto simp: tcpClose_def closed_answer_def succeed_def quiet_events_def)

text \<open>
  C18. A UDP packet is sent as a whole: between \<open>udp/beginPacket\<close> and \<open>udp/endPacket\<close> any number
  of writes collects the payload, and one datagram with their concatenation goes to the
  target given at the beginning; the answer is its length and no buffer is left behind.
\<close>

theorem udp_packet_sent_whole:
  assumes "liveUdpConnections st i = Some sock" and "ev_resolve ev (host_port ip port) = Inr addr"
    and "ev_writeTo_err ev = None"
    and "st1 = snd (udpBeginPacket ev [GoUint i, GoString ip, GoUint port] st)"
    and "st2 = udp_write_all ev i ds st1"
  shows "\<exists>st3. udpEndPacket ev [GoUint i] st2 = (Respond (GoInt (of_nat (length (concat ds)))) GoNil, st3)
     \<and> liveUdpConnections st3 = (liveUdpConnections st)(i \<mapsto> sock\<lparr>us_sent := us_sent sock @ [(concat ds, addr)]\<rparr>)
     \<and> udpWriteBuffers st3 = (udpWriteBuffers st)(i := None)
     \<and> udpWriteTargets st3 = (udpWriteTargets st)(i := None)"
proof -
  have st1: "st1 = st\<lparr>udpWriteTargets := (udpWriteTargets st)(i \<mapsto> addr),
                      udpWriteBuffers := (udpWriteBuffers st)(i \<mapsto> [])\<rparr>"
    using assms(1,2) by (simp add: assms(4) udpBeginPacket_def)
  then have "st2 = st1\<lparr>udpWriteBuffers := (udpWriteBuffers st1)(i \<mapsto> concat ds)\<rparr>"
    using udp_write_all_buffer [of st1 i "[]" ev ds] by (simp add: assms(5))
  with st1 assms(1,3) show ?thesis by (simp add: udpEndPacket_def succeed_def)
qed

theorem udp_packet_sent_whole_witness:
  "\<exists>st3. udpEndPacket quiet_events [GoUint 1]
       (udp_write_all quiet_events 1 [[1, 2], [3]]
         (snd (udpBeginPacket quiet_events [GoUint 1, GoString ''h'', GoUint 9]
           (initial_net\<lparr>liveUdpConnections := [1 \<mapsto> \<lparr>us_local = [], us_sent = []\<rparr>]\<rparr>))))
       = (Respond (GoInt 3) GoNil, st3)
     \<and> liveUdpConnections st3 1 = Some \<lparr>us_local = [], us_sent = [([1, 2, 3], ''h:9'')]\<rparr>"
proof -
  have "show_nat (unat (9 :: 64 word)) = ''9''" by code_simp
  then have "ev_resolve quiet_events (host_port ''h'' 9) = Inr ''h:9''"
    by (simp add: quiet_events_def host_port_def JoinHostPort_def)
  from udp_packet_sent_whole [OF _ this _ refl refl, of
      "initial_net\<lparr>liveUdpConnections := [1 \<mapsto> \<lparr>us_local = [], us_sent = []\<rparr>]\<rparr>" 1 _ "[[1, 2], [3]]"]
  show ?thesis by (auto simp: quiet_events_def)
qed

text \<open>
  C19. Reading a received packet in pieces returns the packet: the concatenation of the results
  of any sequence of \<open>udp/read\<close> calls is the packet, cut after as many bytes as were asked for
  in total.
\<close>

theorem udp_read_in_pieces:
  assumes "udpReadBuffers st i = Some packet"
  shows "fst (udp_read_all ev i ns st) = take (sum_list (map unat ns)) packet"
  by (rule udp_read_all_packet [OF assms])

theorem udp_read_in_pieces_witness:
  "fst (udp_read_all quiet_events 1 [2, 0, 5] (initial_net\<lparr>udpReadBuffers := [1 \<mapsto> [1, 2, 3]]\<rparr>)) = [1, 2, 3]"
  by (subst udp_read_in_pieces [where packet = "[1, 2, 3]"]) simp_all

text \<open>
  The ID generator does not look at the UDP sockets, so after the counter has wrapped
  around a new UDP socket can get the ID of a live one: the old socket is dropped from the
  table without being closed.
\<close>

lemma udp_id_can_be_reused:
  assumes "liveUdpConnections st (ucast (nextConnectionID st + 1)) = Some old"
    and "\<not> id_in_use st (ucast (nextConnectionID st + 1))"
    and "ev_resolve ev (host_port ip port) = Inr addr" and "ev_listenUDP ev addr = None"
  shows "\<exists>st'. udpConnect ev [GoString ip, GoUint port] st
           = (Respond (GoUint (ucast (nextConnectionID st + 1))) GoNil, st')
     \<and> liveUdpConnections st' (ucast (nextConnectionID st + 1)) = Some \<lparr>us_local = addr, us_sent = []\<rparr>
     \<and> closes st' = closes st"
  using assms by (simp add: udpConnect_def with_new_id_def takeLock_first enter_udp_def succeed_def)



text \<open>
  Closing a UDP connection forgets the packet being read but not the one being written:
  after \<open>udp/close\<close> in the middle of a packet, \<open>udp/write\<close> still succeeds and collects data for
  a connection that no longer exists, while \<open>udp/endPacket\<close> reports that it does not exist.
\<close>

lemma udp_write_after_close:
  assumes "liveUdpConnections st i = Some sock" and "udpWriteBuffers st i = Some b"
    and "st' = snd (udpClose ev [GoUint i] st)"
  shows "udpReadBuffers st' i = None
     \<and> udpWrite ev [GoUint i, GoBytes d] st' =
         (Respond (GoInt (of_nat (length d))) GoNil,
          st'\<lparr>udpWriteBuffers := (udpWriteBuffers st')(i \<mapsto> b @ d)\<rparr>)
     \<and> fst (udpEndPacket ev [GoUint i] st') =
         Respond GoNil (err_pair 2 (''UDP connection not found for ID: '' @ show_nat (unat i)))"
  using assms
  by (simp add: udpClose_def udpWrite_def udpEndPacket_def udp_not_found_def closed_answer_def
        succeed_def fail_def Let_def)

end
