(* ===== verification/Network_Locks.thy ===== *)
theory Network_Locks
  imports Network_Props
begin

text \<open>
  The critical sections of \<open>internal/network-api/network-api.go\<close>. The handlers run in the goroutines of the
  connections that call them and share the tables under the read-write lock \<open>lock\<close>. For each method the
  sections it passes through are listed with the lock they hold and the tables they read and write; the
  lists are checked against the handlers, and the lock decides which sections can overlap.
\<close>

section \<open>Critical sections\<close>

datatype lock_mode = Shared | Exclusive

datatype net_table = Conns | Listeners | Udps | ReadBufs | Targets | WriteBufs

record section_of =
  sec_mode :: lock_mode
  sec_reads :: "net_table list"
  sec_writes :: "net_table list"

definition sec :: "lock_mode \<Rightarrow> net_table list \<Rightarrow> net_table list \<Rightarrow> section_of" where
  "sec md rd wr = \<lparr>sec_mode = md, sec_reads = rd, sec_writes = wr\<rparr>"

text \<open>\<open>takeLockAndGenerateNextID\<close> and the entry of the new object, up to \<open>unlock\<close>.\<close>

definition new_id_section :: "net_table \<Rightarrow> section_of" where
  "new_id_section t = sec Exclusive [Conns, Listeners] [t]"

definition critical_sections :: "(string \<times> section_of list) list" where
  "critical_sections =
     [(''tcp/connect'', [new_id_section Conns]),
      (''tcp/listen'', [new_id_section Listeners]),
      (''tcp/closeListener'', [sec Exclusive [Listeners] [Listeners]]),
      (''tcp/accept'', [sec Shared [Listeners] [], new_id_section Conns]),
      (''tcp/read'', [sec Shared [Conns] []]),
      (''tcp/write'', [sec Shared [Conns] []]),
      (''tcp/close'', [sec Exclusive [Conns] [Conns]]),
      (''tcp/connectSSL'', [new_id_section Conns]),
      (''udp/connect'', [new_id_section Udps]),
      (''udp/beginPacket'', [sec Shared [Udps] [Targets, WriteBufs]]),
      (''udp/write'', [sec Shared [WriteBufs] [WriteBufs]]),
      (''udp/endPacket'', [sec Shared [Udps, WriteBufs, Targets] [WriteBufs, Targets]]),
      (''udp/awaitPacket'', [sec Shared [Udps] [], sec Exclusive [] [ReadBufs]]),
      (''udp/read'', [sec Exclusive [ReadBufs] [ReadBufs]]),
      (''udp/dropPacket'', [sec Shared [] [ReadBufs]]),
      (''udp/close'', [sec Exclusive [Udps] [Udps, ReadBufs]])]"

definition sections :: "(string \<times> section_of) list" where
  "sections = concat (map (\<lambda>(m, ss). map (Pair m) ss) critical_sections)"

section \<open>The lists are those of the handlers\<close>

text \<open>A table that a step leaves alone. The sockets in the tables are pointers: only which are there counts.\<close>

fun keeps :: "net_table \<Rightarrow> net_state \<Rightarrow> net_state \<Rightarrow> bool" where
  "keeps Conns st st' \<longleftrightarrow> dom (liveConnections st') = dom (liveConnections st)"
| "keeps Listeners st st' \<longleftrightarrow> liveListeners st' = liveListeners st"
| "keeps Udps st st' \<longleftrightarrow> dom (liveUdpConnections st') = dom (liveUdpConnections st)"
| "keeps ReadBufs st st' \<longleftrightarrow> udpReadBuffers st' = udpReadBuffers st"
| "keeps Targets st st' \<longleftrightarrow> udpWriteTargets st' = udpWriteTargets st"
| "keeps WriteBufs st st' \<longleftrightarrow> udpWriteBuffers st' = udpWriteBuffers st"

definition writes_of :: "string \<Rightarrow> net_table list" where
  "writes_of m = (case map_of critical_sections m of None \<Rightarrow> [] | Some ss \<Rightarrow> concat (map sec_writes ss))"

lemma keeps_refl [simp]: "keeps t st st"
  by (cases t) simp_all

lemma with_new_id_keeps:
  assumes "\<And>i n. keeps t st (enter i (st\<lparr>nextConnectionID := n\<rparr>))"
  shows "keeps t st (snd (with_new_id st enter))"
  using assms takeLock_Some [of st] by (fastforce simp: with_new_id_def split: option.split prod.split)

lemma enter_keeps:
  "t \<noteq> Conns \<Longrightarrow> keeps t st (enter_conn c i (st\<lparr>nextConnectionID := n\<rparr>))"
  "t \<noteq> Listeners \<Longrightarrow> keeps t st (enter_listener a i (st\<lparr>nextConnectionID := n\<rparr>))"
  "t \<noteq> Udps \<Longrightarrow> keeps t st (enter_udp u i (st\<lparr>nextConnectionID := n\<rparr>))"
  by (cases t; simp add: enter_conn_def enter_listener_def enter_udp_def)+

lemmas new_id_keeps = with_new_id_keeps enter_keeps

lemma new_id_handlers_keep:
  "t \<noteq> Conns \<Longrightarrow> keeps t st (snd (tcpConnect ev ps st))"
  "t \<noteq> Listeners \<Longrightarrow> keeps t st (snd (tcpListen ev ps st))"
  "t \<noteq> Conns \<Longrightarrow> keeps t st (snd (tcpAccept ev ps st))"
  "t \<noteq> Conns \<Longrightarrow> keeps t st (snd (tcpConnectSSL ev ps st))"
  "t \<noteq> Udps \<Longrightarrow> keeps t st (snd (udpConnect ev ps st))"
  by (auto simp: tcpConnect_def tcpListen_def tcpAccept_def tcpConnectSSL_def udpConnect_def
       split: option.split sum.split intro: new_id_keeps)

lemma tcp_handlers_keep:
  "t \<noteq> Listeners \<Longrightarrow> keeps t st (snd (tcpCloseListener ev ps st))"
  "t \<noteq> Conns \<Longrightarrow> keeps t st (snd (tcpClose ev ps st))"
  "keeps t st (snd (tcpWrite ev ps st))"
  by (cases t; auto simp: tcpCloseListener_def tcpClose_def closed_answer_def tcpWrite_def Let_def
        split: option.split prod.split)+

lemma udp_send_handlers_keep:
  "\<lbrakk> t \<noteq> Targets; t \<noteq> WriteBufs \<rbrakk> \<Longrightarrow> keeps t st (snd (udpBeginPacket ev ps st))"
  "t \<noteq> WriteBufs \<Longrightarrow> keeps t st (snd (udpWrite ev ps st))"
  "\<lbrakk> t \<noteq> Targets; t \<noteq> WriteBufs \<rbrakk> \<Longrightarrow> keeps t st (snd (udpEndPacket ev ps st))"
  by (cases t; auto simp: udpBeginPacket_def udpWrite_def udpEndPacket_def udp_not_found_def Let_def
        split: option.split sum.split)+

lemma udp_receive_handlers_keep:
  "t \<noteq> ReadBufs \<Longrightarrow> keeps t st (snd (udpAwaitPacket ev ps st))"
  "t \<noteq> ReadBufs \<Longrightarrow> keeps t st (snd (udpDropPacket ev ps st))"
  "t \<noteq> ReadBufs \<Longrightarrow> keeps t st (snd (udpRead ev ps st))"
  "\<lbrakk> t \<noteq> Udps; t \<noteq> ReadBufs \<rbrakk> \<Longrightarrow> keeps t st (snd (udpClose ev ps st))"
  by (cases t; auto simp: udpAwaitPacket_def udpDropPacket_def udpRead_def udpClose_def udp_not_found_def
        closed_answer_def Let_def split: option.split sum.split prod.split)+

lemmas handlers_keep = new_id_handlers_keep tcp_handlers_keep udp_send_handlers_keep udp_receive_handlers_keep

text \<open>A handler changes no table that its sections do not list.\<close>

lemma sections_cover_writes:
  "\<lbrakk> (m, h) \<in> set network_methods; t \<notin> set (writes_of m) \<rbrakk> \<Longrightarrow> keeps t st (snd (h ev ps st))"
  by (auto simp: network_methods_def writes_of_def critical_sections_def new_id_section_def sec_def intro: handlers_keep)

lemma sections_of_all_methods: "map fst critical_sections = map fst network_methods"
  by (simp add: critical_sections_def network_methods_def)

section \<open>The lock\<close>

text \<open>
  Where each goroutine is: in no section, or in a section of a method. The lock lets a goroutine into an exclusive section
  when nobody is in one, and into a shared section when nobody is in an exclusive one. (\<open>sync.RWMutex\<close> also makes readers
  wait behind a waiting writer, which only excludes some of these runs.)
\<close>

type_synonym lock_state = "(string \<times> section_of) option list"

definition mode_of :: "(string \<times> section_of) option \<Rightarrow> lock_mode option" where
  "mode_of x = map_option (\<lambda>(m, s). sec_mode s) x"

inductive lock_step :: "lock_state \<Rightarrow> lock_state \<Rightarrow> bool" where
  RLock: "\<lbrakk> i < length h; h ! i = None; (m, s) \<in> set sections; sec_mode s = Shared;
            Some Exclusive \<notin> mode_of ` set h \<rbrakk> \<Longrightarrow> lock_step h (h[i := Some (m, s)])"
| Lock: "\<lbrakk> i < length h; (m, s) \<in> set sections; sec_mode s = Exclusive; set h \<subseteq> {None} \<rbrakk> \<Longrightarrow>
            lock_step h (h[i := Some (m, s)])"
| Unlock: "\<lbrakk> i < length h; h ! i = Some x \<rbrakk> \<Longrightarrow> lock_step h (h[i := None])"

definition lock_reachable :: "nat \<Rightarrow> lock_state \<Rightarrow> bool" where
  "lock_reachable n h \<longleftrightarrow> lock_step\<^sup>*\<^sup>* (replicate n None) h"

definition lock_inv :: "lock_state \<Rightarrow> bool" where
  "lock_inv h \<longleftrightarrow>
     (\<forall>x \<in> set h. \<forall>y. x = Some y \<longrightarrow> y \<in> set sections) \<and>
     (\<forall>i j. i < length h \<and> j < length h \<and> i \<noteq> j \<and> mode_of (h ! i) = Some Exclusive \<longrightarrow> h ! j = None)"

lemma mode_of_simps [simp]: "mode_of None = None" "mode_of (Some (m, s)) = Some (sec_mode s)"
  by (simp_all add: mode_of_def)

lemma lock_inv_step: "\<lbrakk> lock_step h h'; lock_inv h \<rbrakk> \<Longrightarrow> lock_inv h'"
proof (induction rule: lock_step.induct)
  case (RLock i h m s)
  have "mode_of (h ! j) \<noteq> Some Exclusive" if "j < length h" for j
    using RLock(5) that by (metis image_eqI nth_mem)
  with RLock show ?case
    using set_update_subset_insert [of h i "Some (m, s)"] by (auto simp: lock_inv_def nth_list_update)
next
  case (Lock i h m s)
  have "h ! j = None" if "j < length h" for j using Lock(4) that nth_mem by fastforce
  with Lock show ?case
    using set_update_subset_insert [of h i "Some (m, s)"] by (auto simp: lock_inv_def nth_list_update)
next
  case (Unlock i h x)
  then show ?case
    using set_update_subset_insert [of h i None] by (auto simp: lock_inv_def nth_list_update)
qed

interpretation exclusion: step_invariant "\<lambda>h. \<exists>n. h = replicate n None" lock_step lock_inv
  by unfold_locales (auto simp: lock_inv_def [of "replicate _ _"] intro: lock_inv_step)

lemma lock_reachable_inv: "lock_reachable n h \<Longrightarrow> lock_inv h"
  unfolding lock_reachable_def by (rule exclusion.reachable_inv) blast+

lemma lock_invD:
  assumes "lock_inv h" "i < length h" "j < length h" "i \<noteq> j" "h ! i = Some (m, s)" "h ! j = Some (m', s')"
  shows "(m, s) \<in> set sections" and "sec_mode s = Shared"
proof -
  from assms(2,5) have "Some (m, s) \<in> set h" by (metis nth_mem)
  with assms(1) show "(m, s) \<in> set sections" by (simp add: lock_inv_def)
  from assms(1-4,6) have "mode_of (h ! i) \<noteq> Some Exclusive" unfolding lock_inv_def by (metis option.distinct(1))
  with assms(5) show "sec_mode s = Shared" by (cases "sec_mode s") simp_all
qed

section \<open>Data races\<close>

text \<open>Two sections that must not run at the same time: one of them writes a table the other one uses.\<close>

definition conflict :: "section_of \<Rightarrow> section_of \<Rightarrow> bool" where
  "conflict s s' \<longleftrightarrow>
     (\<exists>t \<in> set (sec_writes s). t \<in> set (sec_reads s') \<or> t \<in> set (sec_writes s')) \<or>
     (\<exists>t \<in> set (sec_writes s'). t \<in> set (sec_reads s))"

definition packet_methods :: "string list" where
  "packet_methods = [''udp/beginPacket'', ''udp/write'', ''udp/endPacket'']"

definition expected_conflict :: "string \<Rightarrow> string \<Rightarrow> bool" where
  "expected_conflict m m' \<longleftrightarrow>
     m \<in> set packet_methods \<and> m' \<in> set packet_methods \<or> m = ''udp/dropPacket'' \<and> m' = ''udp/dropPacket''"

lemma shared_conflicts_table:
  "list_all (\<lambda>(m, s). list_all (\<lambda>(m', s'). sec_mode s = Shared \<longrightarrow> sec_mode s' = Shared \<longrightarrow>
      conflict s s' = expected_conflict m m') sections) sections"
  by code_simp

lemma shared_conflicts:
  assumes "(m, s) \<in> set sections" "sec_mode s = Shared" and "(m', s') \<in> set sections" "sec_mode s' = Shared"
  shows "conflict s s' \<longleftrightarrow>
     m \<in> set packet_methods \<and> m' \<in> set packet_methods \<or> m = ''udp/dropPacket'' \<and> m' = ''udp/dropPacket''"
  using shared_conflicts_table assms unfolding list_all_iff expected_conflict_def by blast

section \<open>Properties\<close>

text \<open>
  C25. Which calls of the network API can race. Two goroutines that are in conflicting sections at the same time are both in calls
  of \<open>udp/beginPacket\<close>, \<open>udp/write\<close> or \<open>udp/endPacket\<close>, or both in calls of \<open>udp/dropPacket\<close>, which
  change the tables of packets while they hold the lock for reading; the other twelve methods are
  free of races among themselves and with these. The sections are those of the handlers: a handler changes no other table.
\<close>

theorem network_races:
  assumes "lock_reachable n h" and "i < length h" "j < length h" "i \<noteq> j"
    and "h ! i = Some (m, s)" "h ! j = Some (m', s')"
  shows "sec_mode s = Shared \<and> sec_mode s' = Shared
     \<and> (conflict s s' \<longleftrightarrow>
          m \<in> set packet_methods \<and> m' \<in> set packet_methods \<or> m = ''udp/dropPacket'' \<and> m' = ''udp/dropPacket'')
     \<and> (\<forall>g t st ev ps. (m, g) \<in> set network_methods \<and> t \<notin> set (writes_of m) \<longrightarrow> keeps t st (snd (g ev ps st)))"
proof -
  have inv: "lock_inv h" by (rule lock_reachable_inv [OF assms(1)])
  note i = lock_invD [OF inv assms(2,3,4,5,6)] and j = lock_invD [OF inv assms(3,2) assms(4) [symmetric] assms(6,5)]
  show ?thesis
  proof (intro conjI allI impI)
    fix g t st ev ps
    assume "(m, g) \<in> set network_methods \<and> t \<notin> set (writes_of m)"
    then show "keeps t st (snd (g ev ps st))" using sections_cover_writes by blast
  qed (fact i(2) j(2) shared_conflicts [OF i j])+
qed

text \<open>Two goroutines in \<open>udp/write\<close>.\<close>

lemma reach_two_writes:
  "lock_reachable 2 [Some (''udp/write'', sec Shared [WriteBufs] [WriteBufs]),
                     Some (''udp/write'', sec Shared [WriteBufs] [WriteBufs])]"
proof -
  let ?x = "(''udp/write'', sec Shared [WriteBufs] [WriteBufs])"
  have x: "?x \<in> set sections" by (simp add: sections_def critical_sections_def)
  have n: "replicate 2 None = [None, None]" by (simp add: numeral_2_eq_2)
  have "lock_step [None, None] [Some ?x, None]"
    using lock_step.RLock [of 0 "[None, None]", OF _ _ x] by (simp add: sec_def)
  moreover have "lock_step [Some ?x, None] [Some ?x, Some ?x]"
    using lock_step.RLock [of 1 "[Some ?x, None]", OF _ _ x] by (simp add: sec_def)
  ultimately show ?thesis unfolding lock_reachable_def n by (rule rtranclp.rtrancl_into_rtrancl [OF r_into_rtranclp])
qed

theorem network_races_witness:
  "\<exists>h s. lock_reachable 2 h \<and> h ! 0 = Some (''udp/write'', s) \<and> h ! 1 = Some (''udp/write'', s)
     \<and> WriteBufs \<in> set (sec_writes s) \<and> conflict s s"
  using network_races [OF reach_two_writes, of 0 1] reach_two_writes
  by (intro exI [of _ "[Some (''udp/write'', sec Shared [WriteBufs] [WriteBufs]),
        Some (''udp/write'', sec Shared [WriteBufs] [WriteBufs])]"]
      exI [of _ "sec Shared [WriteBufs] [WriteBufs]"]) (simp add: packet_methods_def sec_def)

end
