(* ===== verification/Monitor_Api.thy ===== *)
theory Monitor_Api
  imports Api_Table "HOL-Library.AList"
begin

text \<open>
  \<open>internal/monitorapi/monitor-api.go\<close>: the monitor proxy. TCP clients of the monitor port send
  bytes into a pipe that \<open>mon/read\<close> empties, and \<open>mon/write\<close> broadcasts to all of them.

  A monitor connection is a number with its outgoing stream. The pipe and its buffer
  (\<open>github.com/djherbis/nio\<close>, \<open>github.com/djherbis/buffer\<close>) are not part of the repository: they
  are the parameter \<open>pipe_ops\<close>, and what the code relies on, that the pipe is first in, first
  out, is the locale \<open>fifo_pipe\<close>.
\<close>

section \<open>The pipe\<close>

record 'p pipe_ops =
  pipe_Write :: "'p \<Rightarrow> bytes \<Rightarrow> nat \<times> goerror option \<times> 'p"
  pipe_Read :: "'p \<Rightarrow> nat \<Rightarrow> (bytes \<times> goerror option) \<times> 'p"

text \<open>
  The contract, for a pipe that neither side ever closes, which is how the monitor uses it: a
  write returns when all the data is in the pipe, and a read from a pipe that is not empty
  returns some of the oldest bytes.
\<close>

locale fifo_pipe =
  fixes P :: "'p pipe_ops" and content :: "'p \<Rightarrow> bytes"
  assumes pipe_write: "pipe_Write P p d = (n, e, p') \<Longrightarrow> e = None \<and> n = length d \<and> content p' = content p @ d"
    and pipe_read: "\<lbrakk> content p \<noteq> []; pipe_Read P p n = ((b, e), p') \<rbrakk> \<Longrightarrow>
          e = None \<and> length b \<le> n \<and> content p = b @ content p' \<and> (0 < n \<longrightarrow> b \<noteq> [])"

text \<open>A pipe that is the list of its bytes.\<close>

definition list_pipe :: "bytes pipe_ops" where
  "list_pipe = \<lparr>pipe_Write = (\<lambda>p d. (length d, None, p @ d)), pipe_Read = (\<lambda>p n. ((take n p, None), drop n p))\<rparr>"

interpretation list_pipe: fifo_pipe list_pipe "\<lambda>p. p"
  by unfold_locales (auto simp: list_pipe_def)

section \<open>State and steps of the connections\<close>

record 'p mon_state =
  sockets :: "(nat \<times> out_stream) list"
  socketsClosed :: "nat list"
  monSendPipe :: 'p
  bytesInSendPipe :: int

definition initial_mon :: "'p \<Rightarrow> 'p mon_state" where
  "initial_mon p = \<lparr>sockets = [], socketsClosed = [], monSendPipe = p, bytesInSendPipe = 0\<rparr>"

text \<open>\<open>close\<close>: the socket leaves the table and is closed.\<close>

definition mon_close :: "nat \<Rightarrow> 'p mon_state \<Rightarrow> 'p mon_state" where
  "mon_close conn st =
     st\<lparr>sockets := filter (\<lambda>(k, s). k \<noteq> conn) (sockets st), socketsClosed := socketsClosed st @ [conn]\<rparr>"

text \<open>
  The events of \<open>connectionHandler\<close>: a connection is accepted; its goroutine reads a chunk and
  writes it into the pipe; it fails to read and closes the connection.
\<close>

datatype mon_event = Accepted nat out_stream | Chunk nat bytes | ReadFailed nat

fun connectionHandler :: "'p pipe_ops \<Rightarrow> mon_event \<Rightarrow> 'p mon_state \<Rightarrow> 'p mon_state" where
  "connectionHandler P (Accepted conn out) st = st\<lparr>sockets := (conn, out) # sockets st\<rparr>"
| "connectionHandler P (Chunk conn buff) st =
     (case pipe_Write P (monSendPipe st) buff of
        (written, Some err, p) \<Rightarrow> mon_close conn (st\<lparr>monSendPipe := p\<rparr>)
      | (written, None, p) \<Rightarrow>
          st\<lparr>monSendPipe := p, bytesInSendPipe := bytesInSendPipe st + int written\<rparr>)"
| "connectionHandler P (ReadFailed conn) st = mon_close conn st"

section \<open>The handlers of mon/*\<close>

text \<open>
  The first argument of the handlers is the order in which the loop over the Go map visits
  the sockets, which the language leaves open.
\<close>

type_synonym visit_order = "nat list \<Rightarrow> nat list"
type_synonym 'p mon_handler = "(visit_order, 'p mon_state) api_handler"

definition connected :: "'p mon_handler" where
  "connected ord ps st =
     (if length ps \<noteq> 0 then fail 1 ''Invalid number of parameters, expected no parameters'' st
      else succeed (GoBool (length (sockets st) > 0)) st)"

definition mon_read :: "'p pipe_ops \<Rightarrow> 'p mon_handler" where
  "mon_read P ord ps st =
     (if length ps \<noteq> 1 then fail 1 ''Invalid number of parameters, expected max bytes to read'' st
      else case ToUint (ps ! 0) of
        None \<Rightarrow> fail 1 ''Invalid parameter type, expected positive int for max bytes to read'' st
      | Some maxBytes \<Rightarrow>
          if bytesInSendPipe st = 0 then succeed (GoBytes []) st
          else (case make_bytes (uint maxBytes) of
             None \<Rightarrow> (Panic, st)
           | Some buffer \<Rightarrow>
               (case pipe_Read P (monSendPipe st) (length buffer) of
                  ((b, Some err), p) \<Rightarrow>
                    fail 3 (''Failed to read from connection: '' @ Error err) (st\<lparr>monSendPipe := p\<rparr>)
                | ((b, None), p) \<Rightarrow>
                    succeed (GoBytes b)
                      (st\<lparr>monSendPipe := p, bytesInSendPipe := bytesInSendPipe st - int (length b)\<rparr>))))"

text \<open>One turn of the loop over the clients, then the loop.\<close>

definition write_client :: "bytes \<Rightarrow> nat \<Rightarrow> 'p mon_state \<Rightarrow> 'p mon_state" where
  "write_client data conn st =
     (case map_of (sockets st) conn of
        None \<Rightarrow> st
      | Some out \<Rightarrow>
          (case stream_Write out data of
             (n, Some err, out') \<Rightarrow> mon_close conn st
           | (n, None, out') \<Rightarrow> st\<lparr>sockets := AList.update conn out' (sockets st)\<rparr>))"

definition mon_write :: "'p mon_handler" where
  "mon_write ord ps st =
     (if length ps \<noteq> 1 then fail 1 ''Invalid number of parameters, expected data to write'' st
      else case as_data (ps ! 0) of
        None \<Rightarrow> fail 1 ''Invalid parameter type, expected []byte or string for data to write'' st
      | Some data \<Rightarrow>
          succeed (GoInt (of_nat (length data)))
            (fold (write_client data) (ord (map fst (sockets st))) st))"

definition mon_reset :: "'p mon_handler" where
  "mon_reset ord ps st =
     (if length ps \<noteq> 0 then fail 1 ''Invalid number of parameters, expected no parameters'' st
      else succeed (GoBool True)
             (st\<lparr>sockets := [], socketsClosed := socketsClosed st @ ord (map fst (sockets st))\<rparr>))"

section \<open>Registration\<close>

definition monitor_methods :: "'p pipe_ops \<Rightarrow> (string \<times> 'p mon_handler) list" where
  "monitor_methods P =
     [(''mon/connected'', connected), (''mon/read'', mon_read P),
      (''mon/write'', mon_write), (''mon/reset'', mon_reset)]"

text \<open>\<open>Register\<close>: without a listener on the monitor port nothing is registered.\<close>

definition Register_monitor ::
  "'p pipe_ops \<Rightarrow> goerror option \<Rightarrow> ('p mon_handler \<Rightarrow> 's RouterRequestHandler) \<Rightarrow> 's Router
     \<Rightarrow> goerror option \<times> 's Router" where
  "Register_monitor P listen_err lift r =
     (case listen_err of
        Some err \<Rightarrow> (Some (Errorf_w ''failed to start listener'' err), r)
      | None \<Rightarrow> (None, register_all (monitor_methods P) lift r))"

section \<open>Broadcasting\<close>

text \<open>What a write does to one socket: it receives the data, or it is dropped.\<close>

definition after_write :: "bytes \<Rightarrow> out_stream \<Rightarrow> out_stream option" where
  "after_write data out =
     (case stream_Write out data of (n, Some err, out') \<Rightarrow> None | (n, None, out') \<Rightarrow> Some out')"

lemma map_of_filter_key: "map_of (filter (\<lambda>(k, s). k \<noteq> c) xs) = (map_of xs)(c := None)"
  by (induction xs) (auto simp: fun_eq_iff)

lemma map_of_write_client:
  "map_of (sockets (write_client data c st)) =
     (map_of (sockets st))(c := Option.bind (map_of (sockets st) c) (after_write data))"
  by (auto simp: write_client_def after_write_def mon_close_def map_of_filter_key update_conv
       fun_upd_idem_iff split: option.split prod.split)

lemma map_of_write_clients:
  "distinct cs \<Longrightarrow>
     map_of (sockets (fold (write_client data) cs st)) k =
       (if k \<in> set cs then Option.bind (map_of (sockets st) k) (after_write data) else map_of (sockets st) k)"
  by (induction cs arbitrary: st) (auto simp: map_of_write_client)

lemma write_client_pipe:
  "monSendPipe (write_client data c st) = monSendPipe st \<and> bytesInSendPipe (write_client data c st) = bytesInSendPipe st"
  by (simp add: write_client_def mon_close_def split: option.split prod.split)

lemma write_clients_pipe:
  "monSendPipe (fold (write_client data) cs st) = monSendPipe st
   \<and> bytesInSendPipe (fold (write_client data) cs st) = bytesInSendPipe st"
  by (induction cs arbitrary: st) (simp_all add: write_client_pipe)

section \<open>The table of sockets\<close>

text \<open>The keys of the table are distinct, as those of a Go map are.\<close>

definition sockets_ok :: "'p mon_state \<Rightarrow> bool" where
  "sockets_ok st \<longleftrightarrow> distinct (map fst (sockets st))"

lemma distinct_filter_keys: "distinct (map fst xs) \<Longrightarrow> distinct (map fst (filter P xs))"
  by (induction xs) auto

lemma mon_close_ok: "sockets_ok st \<Longrightarrow> sockets_ok (mon_close conn st)"
  by (simp add: sockets_ok_def mon_close_def distinct_filter_keys)

lemma write_client_ok: "sockets_ok st \<Longrightarrow> sockets_ok (write_client data conn st)"
  by (auto simp: write_client_def mon_close_ok sockets_ok_def distinct_update
       split: option.split prod.split) (simp add: mon_close_ok [unfolded sockets_ok_def])

lemma write_clients_ok: "sockets_ok st \<Longrightarrow> sockets_ok (fold (write_client data) cs st)"
  by (induction cs arbitrary: st) (simp_all add: write_client_ok)

interpretation mon_api: api_table "monitor_methods P" "\<lambda>ord. True" sockets_ok for P :: "'p pipe_ops"
proof
  fix m ord ps and h :: "'p mon_handler" and st :: "'p mon_state"
  assume h: "(m, h) \<in> set (monitor_methods P)" and ok: "sockets_ok st"
  have "sockets_ok (snd (mon_read P ord ps st))"
    using ok by (auto simp: mon_read_def sockets_ok_def split: option.split prod.split)
  moreover have "sockets_ok (snd (mon_write ord ps st))"
    using ok by (simp add: mon_write_def write_clients_ok split: option.split)
  moreover have "sockets_ok (snd (mon_reset ord ps st))"
    using ok by (simp add: mon_reset_def sockets_ok_def)
  moreover have "sockets_ok (snd (connected ord ps st))" using ok by (simp add: connected_def)
  moreover have "h = connected \<or> h = mon_read P \<or> h = mon_write \<or> h = mon_reset"
    using h by (simp add: monitor_methods_def) metis
  ultimately show "sockets_ok (snd (h ord ps st))" by metis
qed

section \<open>The counter and the pipe\<close>

text \<open>A step of the monitor: an event of a monitor connection, or a call of a method with its parameters.\<close>

datatype mon_step = Net mon_event | Call string "any list"

fun read_bytes :: "handler_result \<Rightarrow> bytes" where
  "read_bytes (Respond (GoBytes b) _) = b"
| "read_bytes _ = []"

text \<open>A sequence of steps: the bytes that the calls of \<open>mon/read\<close> returned, and the final state.\<close>

fun mon_run :: "'p pipe_ops \<Rightarrow> visit_order \<Rightarrow> mon_step list \<Rightarrow> 'p mon_state \<Rightarrow> bytes \<times> 'p mon_state" where
  "mon_run P ord [] st = ([], st)"
| "mon_run P ord (Net e # xs) st = mon_run P ord xs (connectionHandler P e st)"
| "mon_run P ord (Call m ps # xs) st =
     (if m = ''mon/read''
      then (case mon_read P ord ps st of
              (r, st1) \<Rightarrow> (case mon_run P ord xs st1 of (bs, st2) \<Rightarrow> (read_bytes r @ bs, st2)))
      else mon_run P ord xs (call_api (monitor_methods P) (ord, m, ps) st))"

fun chunk_of :: "mon_step \<Rightarrow> bytes" where
  "chunk_of (Net (Chunk conn buff)) = buff"
| "chunk_of _ = []"

text \<open>The counter is the number of bytes in the pipe.\<close>

definition mon_counts :: "('p \<Rightarrow> bytes) \<Rightarrow> 'p mon_state \<Rightarrow> bool" where
  "mon_counts content st \<longleftrightarrow> bytesInSendPipe st = int (length (content (monSendPipe st)))"

context fifo_pipe
begin

lemma mon_event_pipe:
  "content (monSendPipe (connectionHandler P e st)) = content (monSendPipe st) @ chunk_of (Net e)
   \<and> (mon_counts content st \<longrightarrow> mon_counts content (connectionHandler P e st))"
proof (cases e)
  case (Chunk conn buff)
  obtain n err p where "pipe_Write P (monSendPipe st) buff = (n, err, p)" by (metis prod.exhaust)
  with pipe_write [OF this] Chunk show ?thesis by (simp add: mon_counts_def)
qed (simp_all add: mon_close_def mon_counts_def)

lemma mon_read_pipe:
  assumes "mon_counts content st" and "mon_read P ord ps st = (r, st')"
  shows "content (monSendPipe st) = read_bytes r @ content (monSendPipe st') \<and> mon_counts content st'"
proof (cases "length ps \<noteq> 1 \<or> ToUint (ps ! 0) = None \<or> bytesInSendPipe st = 0")
  case True
  then have "read_bytes (fst (mon_read P ord ps st)) = [] \<and> snd (mon_read P ord ps st) = st"
    by (cases "ToUint (ps ! 0)") (simp_all add: mon_read_def fail_def succeed_def)
  with assms show ?thesis by simp
next
  case False
  then obtain k where k: "ToUint (ps ! 0) = Some k" by auto
  show ?thesis
  proof (cases "make_bytes (uint k)")
    case None
    with False k assms show ?thesis by (simp add: mon_read_def)
  next
    case (Some buffer)
    obtain b e p where rd: "pipe_Read P (monSendPipe st) (length buffer) = ((b, e), p)" by (metis prod.exhaust)
    from False assms(1) have "content (monSendPipe st) \<noteq> []" by (auto simp: mon_counts_def)
    from pipe_read [OF this rd] rd False k Some assms show ?thesis
      by (auto simp: mon_read_def succeed_def mon_counts_def)
  qed
qed

lemma mon_other_pipe:
  "m \<noteq> ''mon/read'' \<Longrightarrow>
     monSendPipe (call_api (monitor_methods P) (ord, m, ps) st) = monSendPipe st
     \<and> bytesInSendPipe (call_api (monitor_methods P) (ord, m, ps) st) = bytesInSendPipe st"
  by (simp add: call_api_def monitor_methods_def connected_def mon_write_def mon_reset_def
        write_clients_pipe split: option.split)

lemma mon_run_fifo:
  "mon_counts content st \<Longrightarrow> mon_run P ord xs st = (rd, st') \<Longrightarrow>
     content (monSendPipe st) @ concat (map chunk_of xs) = rd @ content (monSendPipe st') \<and> mon_counts content st'"
proof (induction xs arbitrary: st rd)
  case (Cons x xs)
  show ?case
  proof (cases x)
    case (Net e)
    let ?st = "connectionHandler P e st"
    have "mon_counts content ?st" using mon_event_pipe Cons.prems(1) by blast
    moreover have "mon_run P ord xs ?st = (rd, st')" using Cons.prems(2) Net by simp
    ultimately have "content (monSendPipe ?st) @ concat (map chunk_of xs) = rd @ content (monSendPipe st')
        \<and> mon_counts content st'"
      by (rule Cons.IH)
    with mon_event_pipe [of e st] Net show ?thesis by (metis append.assoc concat.simps(2) list.simps(9))
  next
    case (Call m ps)
    show ?thesis
    proof (cases "m = ''mon/read''")
      case True
      obtain r st1 where r: "mon_read P ord ps st = (r, st1)" by (metis prod.exhaust)
      obtain bs st2 where b: "mon_run P ord xs st1 = (bs, st2)" by (metis prod.exhaust)
      with r True Call Cons.prems(2) have rd: "rd = read_bytes r @ bs" and st2: "st2 = st'" by auto
      note rp = mon_read_pipe [OF Cons.prems(1) r]
      have "content (monSendPipe st1) @ concat (map chunk_of xs) = bs @ content (monSendPipe st')
          \<and> mon_counts content st'"
        by (rule Cons.IH) (use rp b st2 in auto)
      with rp rd Call show ?thesis by simp
    next
      case False
      let ?st = "call_api (monitor_methods P) (ord, m, ps) st"
      note same = mon_other_pipe [OF False, of ord ps st]
      have "mon_counts content ?st" using same Cons.prems(1) by (simp add: mon_counts_def)
      moreover have "mon_run P ord xs ?st = (rd, st')" using Cons.prems(2) False Call by simp
      ultimately have "content (monSendPipe ?st) @ concat (map chunk_of xs) = rd @ content (monSendPipe st')
          \<and> mon_counts content st'"
        by (rule Cons.IH)
      with same Call show ?thesis by simp
    qed
  qed
qed simp

end

section \<open>Properties\<close>



text \<open>
  C22. A monitor write reaches every client, whatever the order in which they are visited: each
  socket that accepts the data has it appended to its stream, each socket that fails is
  removed and closed, and the caller is always told that all the data was written.
\<close>

theorem monitor_broadcasts:
  assumes "set (ord (map fst (sockets st))) = set (map fst (sockets st))" and "distinct (ord (map fst (sockets st)))"
  shows "\<exists>st'. mon_write ord [GoBytes data] st = (Respond (GoInt (of_nat (length data))) GoNil, st')
     \<and> (\<forall>k. map_of (sockets st') k = Option.bind (map_of (sockets st) k) (after_write data))
     \<and> monSendPipe st' = monSendPipe st"
proof -
  have "map_of (sockets (fold (write_client data) (ord (map fst (sockets st))) st)) k
      = Option.bind (map_of (sockets st) k) (after_write data)" for k
  proof (cases "k \<in> fst ` set (sockets st)")
    case True
    with map_of_write_clients [OF assms(2), of data st k] assms(1) show ?thesis by simp
  next
    case False
    then have "map_of (sockets st) k = None" by (simp add: map_of_eq_None_iff)
    with map_of_write_clients [OF assms(2), of data st k] show ?thesis by (simp split: if_splits)
  qed
  then show ?thesis by (simp add: mon_write_def succeed_def write_clients_pipe)
qed

theorem monitor_broadcasts_witness:
  "\<exists>st'. mon_write rev [GoBytes [7]] \<lparr>sockets = [(1, new_stream), (2, new_stream\<lparr>capacity := Some 0\<rparr>)],
          socketsClosed = [], monSendPipe = (), bytesInSendPipe = 0\<rparr> = (Respond (GoInt 1) GoNil, st')
     \<and> map_of (sockets st') 1 = Some (new_stream\<lparr>sent := [7]\<rparr>) \<and> map_of (sockets st') 2 = None"
proof -
  let ?st = "\<lparr>sockets = [(1, new_stream), (2, new_stream\<lparr>capacity := Some 0\<rparr>)],
          socketsClosed = [], monSendPipe = (), bytesInSendPipe = 0\<rparr>"
  have "set (rev (map fst (sockets ?st))) = set (map fst (sockets ?st))" "distinct (rev (map fst (sockets ?st)))"
    by auto
  from monitor_broadcasts [of rev ?st "[7]", OF this] obtain st' where
    w: "mon_write rev [GoBytes [7]] ?st = (Respond (GoInt 1) GoNil, st')"
    and m: "\<forall>k. map_of (sockets st') k = Option.bind (map_of (sockets ?st) k) (after_write [7])"
    by auto
  from m have "map_of (sockets st') 1 = Some (new_stream\<lparr>sent := [7]\<rparr>)" "map_of (sockets st') 2 = None"
    by (simp_all add: after_write_def stream_Write_def new_stream_def)
  with w show ?thesis by blast
qed

end
