(* ===== verification/Monitor_Race.thy ===== *)
theory Monitor_Race
  imports Monitor_Api
begin

text \<open>
  The goroutines around the pipe of \<open>internal/monitorapi/monitor-api.go\<close>. A monitor connection writes a chunk into
  the pipe and then adds its length to \<open>bytesInSendPipe\<close>; \<open>mon/read\<close> loads the counter, reads from the pipe and then
  subtracts what it read. The pipe and the counter are safe for concurrent use, but nothing
  makes the two steps of a goroutine one. In \<open>Monitor_Api\<close> the handlers run one after the other.
\<close>

section \<open>Goroutines\<close>

text \<open>A writer is between chunks, or has written this many bytes that are not counted yet.\<close>

datatype mon_writer = WIdle | Written nat

text \<open>
  A call of \<open>mon/read\<close> has not started, has found the counter not to be 0 (and wants at most so many bytes), or
  has these bytes, which are still counted.
\<close>

datatype mon_reader = RIdle | Checked nat | Got bytes

record 'p mon_race =
  mr_pipe :: 'p
  mr_count :: int
  mr_writers :: "mon_writer list"
  mr_readers :: "mon_reader list"
  mr_put :: bytes
  mr_taken :: bytes

definition mon_start :: "'p \<Rightarrow> nat \<Rightarrow> nat \<Rightarrow> 'p mon_race" where
  "mon_start p n k =
     \<lparr>mr_pipe = p, mr_count = 0, mr_writers = replicate n WIdle, mr_readers = replicate k RIdle, mr_put = [], mr_taken = []\<rparr>"

text \<open>
  The steps. \<open>mr_put\<close> and \<open>mr_taken\<close> record what went into the pipe and what came out. A read from an empty pipe
  does not return, so it is no step.
\<close>

inductive mon_race_step :: "'p pipe_ops \<Rightarrow> ('p \<Rightarrow> bytes) \<Rightarrow> 'p mon_race \<Rightarrow> 'p mon_race \<Rightarrow> bool" for P content where
  put: "\<lbrakk> i < length (mr_writers r); mr_writers r ! i = WIdle; pipe_Write P (mr_pipe r) d = (n, None, p) \<rbrakk> \<Longrightarrow>
     mon_race_step P content r
       (r\<lparr>mr_pipe := p, mr_writers := (mr_writers r)[i := Written n], mr_put := mr_put r @ d\<rparr>)"
| add: "\<lbrakk> i < length (mr_writers r); mr_writers r ! i = Written n \<rbrakk> \<Longrightarrow>
     mon_race_step P content r (r\<lparr>mr_count := mr_count r + int n, mr_writers := (mr_writers r)[i := WIdle]\<rparr>)"
| check: "\<lbrakk> j < length (mr_readers r); mr_readers r ! j = RIdle; mr_count r \<noteq> 0 \<rbrakk> \<Longrightarrow>
     mon_race_step P content r (r\<lparr>mr_readers := (mr_readers r)[j := Checked m]\<rparr>)"
| take: "\<lbrakk> j < length (mr_readers r); mr_readers r ! j = Checked m; content (mr_pipe r) \<noteq> [];
           pipe_Read P (mr_pipe r) m = ((b, None), p) \<rbrakk> \<Longrightarrow>
     mon_race_step P content r
       (r\<lparr>mr_pipe := p, mr_readers := (mr_readers r)[j := Got b], mr_taken := mr_taken r @ b\<rparr>)"
| subtract: "\<lbrakk> j < length (mr_readers r); mr_readers r ! j = Got b \<rbrakk> \<Longrightarrow>
     mon_race_step P content r
       (r\<lparr>mr_count := mr_count r - int (length b), mr_readers := (mr_readers r)[j := RIdle]\<rparr>)"

definition mon_reachable :: "'p pipe_ops \<Rightarrow> ('p \<Rightarrow> bytes) \<Rightarrow> 'p \<Rightarrow> nat \<Rightarrow> nat \<Rightarrow> 'p mon_race \<Rightarrow> bool" where
  "mon_reachable P content p0 n k r \<longleftrightarrow> (mon_race_step P content)\<^sup>*\<^sup>* (mon_start p0 n k) r"

section \<open>Accounting\<close>

fun uncounted :: "mon_writer \<Rightarrow> int" where
  "uncounted WIdle = 0"
| "uncounted (Written n) = int n"

fun overcounted :: "mon_reader \<Rightarrow> int" where
  "overcounted (Got b) = int (length b)"
| "overcounted rd = 0"

definition race_counts :: "('p \<Rightarrow> bytes) \<Rightarrow> 'p mon_race \<Rightarrow> bool" where
  "race_counts content r \<longleftrightarrow>
     mr_count r + (\<Sum>x\<leftarrow>mr_writers r. uncounted x) - (\<Sum>x\<leftarrow>mr_readers r. overcounted x) = int (length (content (mr_pipe r)))
     \<and> mr_put r = mr_taken r @ content (mr_pipe r)"

lemma sum_list_update_int:
  fixes f :: "'a \<Rightarrow> int"
  assumes "i < length xs"
  shows "(\<Sum>x\<leftarrow>xs[i := y]. f x) = (\<Sum>x\<leftarrow>xs. f x) - f (xs ! i) + f y"
  using assms
proof (induction xs arbitrary: i)
  case (Cons a xs)
  show ?case
  proof (cases i)
    case (Suc j)
    with Cons.IH [of j] Cons.prems show ?thesis by simp
  qed simp
qed simp

context fifo_pipe
begin

lemma race_counts_step: "\<lbrakk> mon_race_step P content r r'; race_counts content r \<rbrakk> \<Longrightarrow> race_counts content r'"
proof (induction rule: mon_race_step.induct)
  case (put i r d n p)
  with pipe_write [OF put(3)] show ?case by (simp add: race_counts_def sum_list_update_int)
next
  case (take j r m b p)
  with pipe_read [OF take(3,4)] show ?case by (simp add: race_counts_def sum_list_update_int)
qed (simp_all add: race_counts_def sum_list_update_int)

lemma race_counts_start: "content p0 = [] \<Longrightarrow> race_counts content (mon_start p0 n k)"
  by (simp add: race_counts_def mon_start_def sum_list_replicate)

end

sublocale fifo_pipe \<subseteq> counting: step_invariant
    "\<lambda>r. \<exists>p0 n k. content p0 = [] \<and> r = mon_start p0 n k" "mon_race_step P content" "race_counts content"
  by unfold_locales (auto intro: race_counts_start race_counts_step)

context fifo_pipe
begin

lemma mon_reachable_counts: "\<lbrakk> mon_reachable P content p0 n k r; content p0 = [] \<rbrakk> \<Longrightarrow> race_counts content r"
  unfolding mon_reachable_def by (rule counting.reachable_inv) blast+

end

section \<open>Readers that wait\<close>

definition blocked :: "('p \<Rightarrow> bytes) \<Rightarrow> nat \<Rightarrow> 'p mon_race \<Rightarrow> bool" where
  "blocked content j r \<longleftrightarrow>
     j < length (mr_readers r) \<and> (\<exists>m. 0 < m \<and> mr_readers r ! j = Checked m) \<and> content (mr_pipe r) = []"

context fifo_pipe
begin

text \<open>Only a writer with a new chunk ends the wait.\<close>

lemma blocked_step:
  "\<lbrakk> mon_race_step P content r r'; blocked content j r; mr_put r' = mr_put r \<rbrakk> \<Longrightarrow> blocked content j r'"
proof (induction rule: mon_race_step.induct)
  case (put i r d n p)
  with pipe_write [OF put(3)] show ?case by (simp add: blocked_def)
next
  case (check j' r m)
  then show ?case by (auto simp: blocked_def nth_list_update)
next
  case (subtract j' r b)
  then show ?case by (auto simp: blocked_def nth_list_update)
qed (auto simp: blocked_def)

end

section \<open>The handlers as sequences of steps\<close>

context fifo_pipe
begin

text \<open>A chunk that is handled without interruption, and a call of \<open>mon/read\<close> that is.\<close>

lemma chunk_steps:
  assumes i: "i < length (mr_writers r)" "mr_writers r ! i = WIdle"
    and st: "monSendPipe st = mr_pipe r" "bytesInSendPipe st = mr_count r"
    and st': "st' = connectionHandler P (Chunk conn buff) st"
  shows "(mon_race_step P content)\<^sup>*\<^sup>* r
     (r\<lparr>mr_pipe := monSendPipe st', mr_put := mr_put r @ buff, mr_count := bytesInSendPipe st'\<rparr>)"
proof -
  obtain n e p where w: "pipe_Write P (mr_pipe r) buff = (n, e, p)" by (metis prod.exhaust)
  with pipe_write have w': "pipe_Write P (mr_pipe r) buff = (n, None, p)" by blast
  let ?r1 = "r\<lparr>mr_pipe := p, mr_writers := (mr_writers r)[i := Written n], mr_put := mr_put r @ buff\<rparr>"
  have "mon_race_step P content r ?r1" by (rule mon_race_step.put [OF i w'])
  moreover have "mon_race_step P content ?r1 (?r1\<lparr>mr_count := mr_count ?r1 + int n, mr_writers := (mr_writers ?r1)[i := WIdle]\<rparr>)"
    by (rule mon_race_step.add) (use i in simp_all)
  moreover have "(mr_writers r)[i := WIdle] = mr_writers r" using i by (metis list_update_id)
  ultimately show ?thesis
    using st st' w' by (simp add: converse_rtranclp_into_rtranclp)
qed

lemma read_steps:
  assumes j: "j < length (mr_readers r)" "mr_readers r ! j = RIdle"
    and st: "monSendPipe st = mr_pipe r" "bytesInSendPipe st = mr_count r" "mon_counts content st"
    and rd: "mon_read P ord ps st = (x, st')"
  shows "(mon_race_step P content)\<^sup>*\<^sup>* r
     (r\<lparr>mr_pipe := monSendPipe st', mr_taken := mr_taken r @ read_bytes x, mr_count := bytesInSendPipe st'\<rparr>)"
proof (cases "st' = st \<and> read_bytes x = []")
  case True
  with st show ?thesis by simp
next
  case False
  with rd obtain m b e p where c: "mr_count r \<noteq> 0" and p: "pipe_Read P (mr_pipe r) m = ((b, e), p)"
    and x: "e = None \<longrightarrow> read_bytes x = b
      \<and> st' = st\<lparr>monSendPipe := p, bytesInSendPipe := bytesInSendPipe st - int (length b)\<rparr>"
    using st(1,2) by (auto simp: mon_read_def fail_def succeed_def split: if_splits option.splits prod.splits)
  have "content (mr_pipe r) \<noteq> []" using c st by (auto simp: mon_counts_def)
  with pipe_read [OF this p] x p have p: "pipe_Read P (mr_pipe r) m = ((b, None), p)"
    and x: "read_bytes x = b" "st' = st\<lparr>monSendPipe := p, bytesInSendPipe := bytesInSendPipe st - int (length b)\<rparr>"
    by simp_all
  let ?r1 = "r\<lparr>mr_readers := (mr_readers r)[j := Checked m]\<rparr>"
  let ?r2 = "?r1\<lparr>mr_pipe := p, mr_readers := (mr_readers ?r1)[j := Got b], mr_taken := mr_taken ?r1 @ b\<rparr>"
  have "mon_race_step P content r ?r1" by (rule mon_race_step.check [OF j c])
  moreover have "mon_race_step P content ?r1 ?r2"
    by (rule mon_race_step.take) (use j c st p in \<open>auto simp: mon_counts_def\<close>)
  moreover have "mon_race_step P content ?r2
      (?r2\<lparr>mr_count := mr_count ?r2 - int (length b), mr_readers := (mr_readers ?r2)[j := RIdle]\<rparr>)"
    by (rule mon_race_step.subtract) (use j in simp_all)
  moreover have "(mr_readers r)[j := RIdle] = mr_readers r" using j by (metis list_update_id)
  ultimately show ?thesis
    using st x by (simp add: converse_rtranclp_into_rtranclp)
qed

end

section \<open>Properties\<close>


text \<open>Two chunks, the second not counted yet, both read by one call; then another call.\<close>

lemma reach_blocked:
  "mon_reachable list_pipe (\<lambda>p. p) [] 1 1
     \<lparr>mr_pipe = [], mr_count = - 3, mr_writers = [Written 3], mr_readers = [Checked 8],
      mr_put = [1, 2, 3, 4, 5, 6], mr_taken = [1, 2, 3, 4, 5, 6]\<rparr>" (is "mon_reachable _ _ _ _ _ ?r6")
proof -
  let ?st = "\<lambda>p c w rd pt tk. \<lparr>mr_pipe = p, mr_count = c, mr_writers = [w], mr_readers = [rd], mr_put = pt, mr_taken = tk\<rparr>"
  let ?step = "mon_race_step list_pipe (\<lambda>p. p)"
  let ?r1 = "?st [1, 2, 3] 0 (Written 3) RIdle [1, 2, 3] []"
  let ?r2 = "?st [1, 2, 3] 3 WIdle RIdle [1, 2, 3] []"
  let ?r3 = "?st [1, 2, 3, 4, 5, 6] 3 (Written 3) RIdle [1, 2, 3, 4, 5, 6] []"
  let ?r4 = "?st [1, 2, 3, 4, 5, 6] 3 (Written 3) (Checked 8) [1, 2, 3, 4, 5, 6] []"
  let ?r5 = "?st [] 3 (Written 3) (Got [1, 2, 3, 4, 5, 6]) [1, 2, 3, 4, 5, 6] [1, 2, 3, 4, 5, 6]"
  let ?r5' = "?st [] (- 3) (Written 3) RIdle [1, 2, 3, 4, 5, 6] [1, 2, 3, 4, 5, 6]"
  have "?step (mon_start [] 1 1) ?r1"
    using mon_race_step.put [of 0 "mon_start [] 1 1" list_pipe "[1, 2, 3]" 3 "[1, 2, 3]"]
    by (simp add: mon_start_def list_pipe_def)
  moreover have "?step ?r1 ?r2" using mon_race_step.add [of 0 ?r1 3] by simp
  moreover have "?step ?r2 ?r3"
    using mon_race_step.put [of 0 ?r2 list_pipe "[4, 5, 6]" 3 "[1, 2, 3, 4, 5, 6]"] by (simp add: list_pipe_def)
  moreover have "?step ?r3 ?r4" using mon_race_step.check [of 0 ?r3 _ _ 8] by simp
  moreover have "?step ?r4 ?r5"
    using mon_race_step.take [of 0 ?r4 8 "\<lambda>p. p" list_pipe "[1, 2, 3, 4, 5, 6]" "[]"] by (simp add: list_pipe_def)
  moreover have "?step ?r5 ?r5'" using mon_race_step.subtract [of 0 ?r5 "[1, 2, 3, 4, 5, 6]"] by simp
  moreover have "?step ?r5' ?r6" using mon_race_step.check [of 0 ?r5' _ _ 8] by simp
  ultimately show ?thesis
    unfolding mon_reachable_def by (meson r_into_rtranclp rtranclp.rtrancl_into_rtrancl)
qed


text \<open>
  \<open>mon/read\<close> can wait for data although it is meant to return at once when there is none: one monitor connection
  and one caller are enough. The writer of a second chunk is delayed between the pipe and
  the counter, a read takes both chunks, the counter becomes negative, and the next call passes the test for 0 and
  reads from an empty pipe. Once the writer has counted its chunk the counter is 0, and the call still waits for a third chunk.
\<close>

lemma mon_read_can_block:
  "\<exists>r r'. mon_reachable list_pipe (\<lambda>p. p) [] 1 1 r \<and> blocked (\<lambda>p. p) 0 r \<and> mr_count r = - 3
     \<and> mon_race_step list_pipe (\<lambda>p. p) r r' \<and> blocked (\<lambda>p. p) 0 r' \<and> mr_count r' = 0 \<and> mr_writers r' = [WIdle]"
proof -
  let ?r = "\<lparr>mr_pipe = [], mr_count = - 3, mr_writers = [Written 3], mr_readers = [Checked 8],
      mr_put = [1, 2, 3, 4, 5, 6], mr_taken = [1, 2, 3, 4, 5, 6]\<rparr>"
  have "mon_race_step list_pipe (\<lambda>p. p) ?r (?r\<lparr>mr_count := 0, mr_writers := [WIdle]\<rparr>)"
    using mon_race_step.add [of 0 ?r 3] by simp
  with reach_blocked show ?thesis
    by (intro exI [of _ ?r] exI [of _ "?r\<lparr>mr_count := 0, mr_writers := [WIdle]\<rparr>"]) (simp add: blocked_def)
qed

end
