(* ===== verification/Hci_Api.thy ===== *)
theory Hci_Api
  imports Api_Table
begin

text \<open>
  \<open>internal/hciapi\<close>: access to a Bluetooth HCI device through a raw socket. The file descriptor of
  the open socket is the atomic variable \<open>hciSocket\<close> (\<open>-1\<close> when none is open); the model adds the
  lists of the descriptors that were created and closed and of the packets written. The
  answers of the kernel during a call are the record \<open>hci_events\<close>. On systems other than Linux
  \<open>Register\<close> registers nothing (\<open>hci-api_default.go\<close>).
\<close>

section \<open>State\<close>

record hci_state =
  hciSocket :: "32 word"
  fds_created :: "32 word list"
  fds_closed :: "32 word list"
  hci_sent :: "(32 word \<times> bytes) list"

definition initial_hci :: hci_state where
  "initial_hci = \<lparr>hciSocket = -1, fds_created = [], fds_closed = [], hci_sent = []\<rparr>"

text \<open>
  \<open>ev_socket\<close> and \<open>ev_ioctl\<close>, \<open>ev_bind\<close>: results of creating the socket, of bringing the device down
  and of binding to it (each a function of the device number); \<open>ev_hci_write\<close> is the number of bytes
  a write accepts; \<open>ev_hci_read\<close> and
  \<open>ev_poll\<close> (the number of ready descriptors and whether \<open>POLLIN\<close> is set) answer a read and a
  poll.
\<close>

record hci_events =
  ev_socket :: "goerror + 32 word"
  ev_ioctl :: "nat \<Rightarrow> goerror option"
  ev_bind :: "nat \<Rightarrow> goerror option"
  ev_hci_write :: "goerror + nat"
  ev_timeval :: "goerror option"
  ev_hci_read :: "goerror + bytes"
  ev_poll :: "goerror + nat \<times> bool"

type_synonym hci_handler = "(hci_events, hci_state) api_handler"

definition is_open :: "hci_state \<Rightarrow> bool" where
  "is_open st \<longleftrightarrow> 0 \<le> sint (hciSocket st)"

definition no_hci_device :: "hci_state \<Rightarrow> handler_result \<times> hci_state" where
  "no_hci_device st = fail 2 ''No HCI device open'' st"

definition close_fd :: "32 word \<Rightarrow> hci_state \<Rightarrow> hci_state" where
  "close_fd fd st = st\<lparr>fds_closed := fds_closed st @ [fd]\<rparr>"

text \<open>\<open>if fd := hciSocket.Swap(-1); fd >= 0 { unix.Close(fd) }\<close>\<close>

definition swap_close :: "hci_state \<Rightarrow> hci_state" where
  "swap_close st =
     (let st' = st\<lparr>hciSocket := -1\<rparr> in if is_open st then close_fd (hciSocket st) st' else st')"

section \<open>The handlers of hci/*\<close>

text \<open>The device number in a name such as \<open>hci0\<close>: the text of the error, or the number.\<close>

definition device_number :: "string \<Rightarrow> string + nat" where
  "device_number deviceName =
     (if length deviceName < 4 \<or> take 3 deviceName \<noteq> ''hci''
      then Inl ''Invalid device name format, expected 'hciX' where X is device number''
      else case Atoi (drop 3 deviceName) of
        None \<Rightarrow> Inl ''Invalid device number in device name''
      | Some devNum \<Rightarrow>
          if devNum < 0 \<or> devNum > 0xFFFF then Inl ''Invalid device number in device name''
          else Inr (nat devNum))"

definition hciOpen :: hci_handler where
  "hciOpen ev ps st =
     (if length ps \<noteq> 1 then fail 1 ''Expected one parameter: HCI device name (e.g., 'hci0')'' st
      else case as_string (ps ! 0) of
        None \<Rightarrow> fail 1 ''Invalid parameter type: expected string for device name'' st
      | Some deviceName \<Rightarrow>
          (case device_number deviceName of
             Inl message \<Rightarrow> fail 1 message st
           | Inr devNum \<Rightarrow>
               (let st1 = swap_close st in
                case ev_socket ev of
                  Inl err \<Rightarrow> fail 3 (''Failed to create HCI socket: '' @ Error err) st1
                | Inr fd \<Rightarrow>
                    (let st2 = st1\<lparr>fds_created := fds_created st1 @ [fd]\<rparr> in
                     case ev_ioctl ev devNum of
                       Some err \<Rightarrow> fail 3 (''Failed to bring down HCI device: '' @ Error err) (close_fd fd st2)
                     | None \<Rightarrow>
                         (case ev_bind ev devNum of
                            Some err \<Rightarrow> fail 3 (''Failed to bind to HCI device: '' @ Error err) (close_fd fd st2)
                          | None \<Rightarrow> succeed (GoBool True) (st2\<lparr>hciSocket := fd\<rparr>))))))"

definition hciClose :: hci_handler where
  "hciClose ev ps st =
     (if length ps \<noteq> 0 then fail 1 ''Expected no parameters'' st
      else succeed (GoBool True) (swap_close st))"

definition hciSend :: hci_handler where
  "hciSend ev ps st =
     (if length ps \<noteq> 1 then fail 1 ''Expected one parameter: data to send'' st
      else case as_data (ps ! 0) of
        None \<Rightarrow> fail 1 ''Invalid parameter type, expected []byte or string'' st
      | Some data \<Rightarrow>
          if \<not> is_open st then no_hci_device st
          else (case ev_hci_write ev of
             Inl err \<Rightarrow> fail 3 (''Failed to send HCI packet: '' @ Error err) st
           | Inr n \<Rightarrow> succeed (GoInt (of_nat n))
               (st\<lparr>hci_sent := hci_sent st @ [(hciSocket st, take n data)]\<rparr>)))"

definition hciRecv :: hci_handler where
  "hciRecv ev ps st =
     (if length ps \<noteq> 1 then fail 1 ''Expected one parameter: max bytes to receive'' st
      else case ToUint (ps ! 0) of
        None \<Rightarrow> fail 1 ''Invalid parameter type, expected uint for max bytes'' st
      | Some sz \<Rightarrow>
          if \<not> is_open st then no_hci_device st
          else (case make_bytes (uint sz) of
             None \<Rightarrow> (Panic, st)
           | Some buffer \<Rightarrow>
               (case ev_timeval ev of
                  Some err \<Rightarrow> fail 3 (''Failed to set read timeout: '' @ Error err) st
                | None \<Rightarrow>
                    (case ev_hci_read ev of
                       Inl err \<Rightarrow>
                         if errors_Is err EAGAIN then succeed (GoBytes []) st
                         else fail 3 (''Failed to receive HCI packet: '' @ Error err) st
                     | Inr b \<Rightarrow> succeed (GoBytes (take (length buffer) b)) st))))"

definition hciAvail :: hci_handler where
  "hciAvail ev ps st =
     (if length ps \<noteq> 0 then fail 1 ''Expected no parameters'' st
      else if \<not> is_open st then no_hci_device st
      else (case ev_poll ev of
         Inl err \<Rightarrow>
           if errors_Is err EINTR then succeed (GoBool False) st
           else fail 3 (''Poll failed: '' @ Error err) st
       | Inr (n, pollin) \<Rightarrow> succeed (GoBool (n > 0 \<and> pollin)) st))"

definition hci_methods :: "(string \<times> hci_handler) list" where
  "hci_methods =
     [(''hci/open'', hciOpen), (''hci/send'', hciSend), (''hci/recv'', hciRecv),
      (''hci/avail'', hciAvail), (''hci/close'', hciClose)]"

definition Register_hci :: "(hci_handler \<Rightarrow> 's RouterRequestHandler) \<Rightarrow> 's Router \<Rightarrow> 's Router" where
  "Register_hci = register_all hci_methods"

definition Register_hci_default :: "'s Router \<Rightarrow> 's Router" where
  "Register_hci_default r = r"

section \<open>Descriptors\<close>

text \<open>
  No descriptor is leaked and none is closed twice: the descriptors that were created and not
  closed are the current one, if any. Descriptors may be reused by the kernel, so they are
  counted.
\<close>

definition hci_inv :: "hci_state \<Rightarrow> bool" where
  "hci_inv st \<longleftrightarrow>
     (\<forall>fd. count_list (fds_created st) fd
        = count_list (fds_closed st) fd + (if is_open st \<and> fd = hciSocket st then 1 else 0))
     \<and> (\<not> is_open st \<longrightarrow> hciSocket st = -1)"

lemma not_open_closed [simp]: "\<not> is_open (st\<lparr>hciSocket := -1\<rparr>)"
  by (simp add: is_open_def)

lemma hci_inv_initial: "hci_inv initial_hci"
  by (simp add: hci_inv_def initial_hci_def is_open_def)

lemma swap_close_inv: "hci_inv st \<Longrightarrow> hci_inv (swap_close st) \<and> \<not> is_open (swap_close st)"
  by (auto simp: hci_inv_def swap_close_def close_fd_def is_open_def Let_def)

lemma open_failed_inv:
  "\<lbrakk> hci_inv st; \<not> is_open st \<rbrakk> \<Longrightarrow> hci_inv (close_fd fd (st\<lparr>fds_created := fds_created st @ [fd]\<rparr>))"
  by (auto simp: hci_inv_def close_fd_def is_open_def)

lemma open_succeeded_inv:
  "\<lbrakk> hci_inv st; \<not> is_open st; 0 \<le> sint fd \<rbrakk> \<Longrightarrow>
     hci_inv (st\<lparr>fds_created := fds_created st @ [fd], hciSocket := fd\<rparr>)"
  by (auto simp: hci_inv_def is_open_def)

text \<open>The kernel hands out descriptors that are not negative.\<close>

definition sane_events :: "hci_events \<Rightarrow> bool" where
  "sane_events ev \<longleftrightarrow> (\<forall>fd. ev_socket ev = Inr fd \<longrightarrow> 0 \<le> sint fd)"

lemma hciOpen_inv: "\<lbrakk> hci_inv st; sane_events ev \<rbrakk> \<Longrightarrow> hci_inv (snd (hciOpen ev ps st))"
  using swap_close_inv [of st]
  by (auto simp: hciOpen_def Let_def sane_events_def split: option.split sum.split
       intro: open_failed_inv open_succeeded_inv)

lemma hciClose_inv: "hci_inv st \<Longrightarrow> hci_inv (snd (hciClose ev ps st))"
  using swap_close_inv [of st] by (simp add: hciClose_def)

lemma hciSend_inv: "hci_inv st \<Longrightarrow> hci_inv (snd (hciSend ev ps st))"
  by (simp add: hciSend_def no_hci_device_def hci_inv_def is_open_def split: option.split sum.split)

lemma hciRecv_state [simp]: "snd (hciRecv ev ps st) = st"
  by (simp add: hciRecv_def no_hci_device_def split: option.split sum.split)

lemma hciAvail_state [simp]: "snd (hciAvail ev ps st) = st"
  by (simp add: hciAvail_def no_hci_device_def split: sum.split prod.split)

interpretation hci_api: api_table hci_methods sane_events hci_inv
proof
  fix m h ev st ps
  assume "(m, h) \<in> set hci_methods" and "sane_events ev" and "hci_inv st"
  then show "hci_inv (snd (h ev ps st))"
    by (auto simp: hci_methods_def intro: hciOpen_inv hciClose_inv hciSend_inv)
qed

section \<open>Device names\<close>

lemma device_number_hci: "n \<le> 65535 \<Longrightarrow> device_number (''hci'' @ show_nat n) = Inr n"
proof -
  assume n: "n \<le> 65535"
  have "Atoi (show_nat n) = Some (int n)"
    using Atoi_show_int [of "int n"] n by (simp add: in_int64_def show_int_def)
  moreover have "0 < length (show_nat n)" by simp
  ultimately show ?thesis using n by (simp add: device_number_def del: length_greater_0_conv)
qed

lemma device_number_iff:
  "device_number s = Inr n \<longleftrightarrow> take 3 s = ''hci'' \<and> n \<le> 65535 \<and> Atoi (drop 3 s) = Some (int n)"
proof -
  have "\<not> length s < 4" if "Atoi (drop 3 s) = Some i" for i
    using that by (cases "drop 3 s = []") (auto simp: Atoi_def)
  then show ?thesis by (auto simp: device_number_def split: if_splits option.splits)
qed

section \<open>Properties\<close>

text \<open>
  The HCI API leaks no file descriptor and closes none twice: after any sequence of calls,
  every descriptor has been closed as often as it was created, except the one of the device
  that is open now, which is still to be closed once.
\<close>

lemma hci_no_descriptor_leak:
  assumes "\<forall>x \<in> set xs. sane_events (fst x)" and "st = fold (call_api hci_methods) xs initial_hci"
  shows "count_list (fds_created st) fd =
     count_list (fds_closed st) fd + (if is_open st \<and> fd = hciSocket st then 1 else 0)"
  using hci_api.calls_inv [OF hci_inv_initial assms(1)] unfolding assms(2) hci_inv_def by blast

definition good_hci_events :: hci_events where
  "good_hci_events =
     \<lparr>ev_socket = Inr 5, ev_ioctl = (\<lambda>_. None), ev_bind = (\<lambda>_. None), ev_hci_write = Inr 4,
      ev_timeval = None, ev_hci_read = Inr [1, 2, 3], ev_poll = Inr (1, True)\<rparr>"

lemma good_open:
  "snd (hciOpen good_hci_events [GoString ''hci0''] initial_hci)
     = \<lparr>hciSocket = 5, fds_created = [5], fds_closed = [], hci_sent = []\<rparr>"
proof -
  have "Atoi ''0'' = Some (int 0)" by code_simp
  then have "device_number ''hci0'' = Inr 0" by (subst device_number_iff) simp
  then show ?thesis
    by (simp add: hciOpen_def Let_def swap_close_def is_open_def initial_hci_def good_hci_events_def succeed_def)
qed

text \<open>
  Opening a device closes the socket that was open before; if the kernel creates the new
  socket, brings the device down and binds to it, the new socket is the current one, and if
  one of the last two steps fails it is closed again and no device is open.
\<close>

lemma hci_open_device:
  assumes "device_number name = Inr n" and "ev_socket ev = Inr fd"
  shows "(if ev_ioctl ev n = None \<and> ev_bind ev n = None
          then fst (hciOpen ev [GoString name] st) = Respond (GoBool True) GoNil
               \<and> hciSocket (snd (hciOpen ev [GoString name] st)) = fd
          else (\<exists>msg. fst (hciOpen ev [GoString name] st) = Respond GoNil (err_pair 3 msg))
               \<and> \<not> is_open (snd (hciOpen ev [GoString name] st))
               \<and> fd \<in> set (fds_closed (snd (hciOpen ev [GoString name] st))))
     \<and> (is_open st \<longrightarrow> hciSocket st \<in> set (fds_closed (snd (hciOpen ev [GoString name] st))))"
  using assms
  by (cases "ev_ioctl ev n"; cases "ev_bind ev n")
     (auto simp: hciOpen_def Let_def swap_close_def close_fd_def is_open_def fail_def succeed_def)

end
