(* ===== verification/Hci_Race.thy ===== *)
theory Hci_Race
  imports Hci_Api
begin

text \<open>
  The handlers of \<open>internal/hciapi/hci-api_linux.go\<close> run in the goroutine of the connection that calls them, so
  two clients can be inside them at once, and \<open>hciSocket\<close> is an atomic variable and not a lock. Here the
  handlers are cut into their atomic steps (swap, close, create, set up, store; load, write), and a step of the system is a
  step of any goroutine. The system of one goroutine is the handler of \<open>Hci_Api\<close>.
\<close>

section \<open>Goroutines\<close>

text \<open>
  Where a goroutine is: outside the handlers, about to close the descriptor it swapped out (on behalf of \<open>hciOpen\<close>
  or \<open>hciClose\<close>), about to create the socket, in possession of a new socket, or about to write.
\<close>

datatype hci_pc = Ready | Closing "32 word" bool | Opening | Holding "32 word" | Sending "32 word" bytes

record hci_race =
  rc_state :: hci_state
  rc_threads :: "hci_pc list"

definition hci_start :: "nat \<Rightarrow> hci_race" where
  "hci_start n = \<lparr>rc_state = initial_hci, rc_threads = replicate n Ready\<rparr>"

definition goto :: "nat \<Rightarrow> hci_pc \<Rightarrow> hci_state \<Rightarrow> hci_race \<Rightarrow> hci_race" where
  "goto i pc st r = r\<lparr>rc_state := st, rc_threads := (rc_threads r)[i := pc]\<rparr>"

text \<open>A descriptor the kernel has handed out and that was not given back.\<close>

definition in_use :: "32 word \<Rightarrow> hci_state \<Rightarrow> bool" where
  "in_use fd st \<longleftrightarrow> count_list (fds_closed st) fd < count_list (fds_created st) fd"

text \<open>
  The steps of goroutine \<open>i\<close> (the parameters have been checked). A new descriptor is one that is not in use.
\<close>

inductive hci_step :: "hci_race \<Rightarrow> hci_race \<Rightarrow> bool" where
  swap: "\<lbrakk> i < length (rc_threads r); rc_threads r ! i = Ready; st = rc_state r; 0 \<le> sint (hciSocket st) \<rbrakk> \<Longrightarrow>
     hci_step r (goto i (Closing (hciSocket st) opening) (st\<lparr>hciSocket := -1\<rparr>) r)"
| swap_none: "\<lbrakk> i < length (rc_threads r); rc_threads r ! i = Ready; st = rc_state r; \<not> 0 \<le> sint (hciSocket st) \<rbrakk> \<Longrightarrow>
     hci_step r (goto i (if opening then Opening else Ready) (st\<lparr>hciSocket := -1\<rparr>) r)"
| close: "\<lbrakk> i < length (rc_threads r); rc_threads r ! i = Closing fd opening \<rbrakk> \<Longrightarrow>
     hci_step r (goto i (if opening then Opening else Ready) (close_fd fd (rc_state r)) r)"
| socket: "\<lbrakk> i < length (rc_threads r); rc_threads r ! i = Opening; st = rc_state r; 0 \<le> sint fd; \<not> in_use fd st \<rbrakk> \<Longrightarrow>
     hci_step r (goto i (Holding fd) (st\<lparr>fds_created := fds_created st @ [fd]\<rparr>) r)"
| socket_fails: "\<lbrakk> i < length (rc_threads r); rc_threads r ! i = Opening \<rbrakk> \<Longrightarrow>
     hci_step r (goto i Ready (rc_state r) r)"
| setup_fails: "\<lbrakk> i < length (rc_threads r); rc_threads r ! i = Holding fd \<rbrakk> \<Longrightarrow>
     hci_step r (goto i Ready (close_fd fd (rc_state r)) r)"
| store: "\<lbrakk> i < length (rc_threads r); rc_threads r ! i = Holding fd \<rbrakk> \<Longrightarrow>
     hci_step r (goto i Ready ((rc_state r)\<lparr>hciSocket := fd\<rparr>) r)"
| load: "\<lbrakk> i < length (rc_threads r); rc_threads r ! i = Ready; 0 \<le> sint (hciSocket (rc_state r)) \<rbrakk> \<Longrightarrow>
     hci_step r (goto i (Sending (hciSocket (rc_state r)) data) (rc_state r) r)"
| send: "\<lbrakk> i < length (rc_threads r); rc_threads r ! i = Sending fd data; st = rc_state r \<rbrakk> \<Longrightarrow>
     hci_step r (goto i Ready (st\<lparr>hci_sent := hci_sent st @ [(fd, data)]\<rparr>) r)"
| send_fails: "\<lbrakk> i < length (rc_threads r); rc_threads r ! i = Sending fd data \<rbrakk> \<Longrightarrow>
     hci_step r (goto i Ready (rc_state r) r)"

definition hci_reachable :: "nat \<Rightarrow> hci_race \<Rightarrow> bool" where
  "hci_reachable n r \<longleftrightarrow> hci_step\<^sup>*\<^sup>* (hci_start n) r"

section \<open>Ownership of descriptors\<close>

text \<open>The goroutines that own a descriptor: those that will close it or store it.\<close>

fun owns :: "32 word \<Rightarrow> hci_pc \<Rightarrow> bool" where
  "owns fd (Closing x opening) = (x = fd)"
| "owns fd (Holding x) = (x = fd)"
| "owns fd pc = False"

definition current :: "hci_state \<Rightarrow> 32 word \<Rightarrow> bool" where
  "current st fd \<longleftrightarrow> 0 \<le> sint (hciSocket st) \<and> hciSocket st = fd"

definition owners :: "32 word \<Rightarrow> hci_race \<Rightarrow> nat" where
  "owners fd r = length (filter (owns fd) (rc_threads r)) + of_bool (current (rc_state r) fd)"

definition race_inv :: "hci_race \<Rightarrow> bool" where
  "race_inv r \<longleftrightarrow>
     (\<forall>fd. count_list (fds_closed (rc_state r)) fd + owners fd r \<le> count_list (fds_created (rc_state r)) fd
        \<and> count_list (fds_created (rc_state r)) fd \<le> Suc (count_list (fds_closed (rc_state r)) fd))"

lemma length_filter_update:
  assumes "i < length xs"
  shows "length (filter P (xs[i := x])) + of_bool (P (xs ! i)) = length (filter P xs) + of_bool (P x)"
  using assms
proof (induction xs arbitrary: i)
  case (Cons a xs)
  show ?case
  proof (cases i)
    case (Suc j)
    with Cons.IH [of j] Cons.prems show ?thesis by simp
  qed simp
qed simp

lemma rc_state_goto [simp]: "rc_state (goto i pc st r) = st"
  by (simp add: goto_def)

text \<open>
  A step keeps the invariant when it closes no more than it gives up: what the step closes, what its goroutine owns
  afterwards and what it stores is covered by what it creates, owned and found stored.
\<close>

lemma race_inv_goto:
  assumes "race_inv r" and "i < length (rc_threads r)"
    and "\<And>fd. count_list (fds_closed st) fd + of_bool (owns fd pc) + of_bool (current st fd)
            + count_list (fds_created (rc_state r)) fd
          \<le> count_list (fds_created st) fd + of_bool (owns fd (rc_threads r ! i)) + of_bool (current (rc_state r) fd)
            + count_list (fds_closed (rc_state r)) fd"
    and "\<And>fd. count_list (fds_created st) fd \<le> Suc (count_list (fds_closed st) fd)"
  shows "race_inv (goto i pc st r)"
  unfolding race_inv_def
proof
  fix fd
  let ?ts = "rc_threads r"
  have "length (filter (owns fd) (?ts[i := pc])) + of_bool (owns fd (?ts ! i))
      = length (filter (owns fd) ?ts) + of_bool (owns fd pc)"
    by (rule length_filter_update [OF assms(2)])
  moreover have "owners fd (goto i pc st r) = length (filter (owns fd) (?ts[i := pc])) + of_bool (current st fd)"
    by (simp add: owners_def goto_def)
  moreover have "count_list (fds_closed (rc_state r)) fd + owners fd r \<le> count_list (fds_created (rc_state r)) fd"
    using assms(1) by (simp add: race_inv_def)
  ultimately show "count_list (fds_closed (rc_state (goto i pc st r))) fd + owners fd (goto i pc st r)
        \<le> count_list (fds_created (rc_state (goto i pc st r))) fd
      \<and> count_list (fds_created (rc_state (goto i pc st r))) fd \<le> Suc (count_list (fds_closed (rc_state (goto i pc st r))) fd)"
    using assms(3) [of fd] assms(4) [of fd] unfolding owners_def [of fd r] rc_state_goto by linarith
qed

lemma current_simps [simp]:
  "\<not> current (st\<lparr>hciSocket := -1\<rparr>) fd"
  "current (st\<lparr>fds_created := xs\<rparr>) fd = current st fd"
  "current (close_fd x st) fd = current st fd"
  "current (st\<lparr>hci_sent := ys\<rparr>) fd = current st fd"
  by (simp_all add: current_def close_fd_def)

lemma race_invD: "race_inv r \<Longrightarrow> count_list (fds_created (rc_state r)) fd \<le> Suc (count_list (fds_closed (rc_state r)) fd)"
  by (simp add: race_inv_def)

lemma race_inv_step: "\<lbrakk> hci_step r r'; race_inv r \<rbrakk> \<Longrightarrow> race_inv r'"
proof (induction rule: hci_step.induct)
  case (swap i r st opn)
  then show ?case by (intro race_inv_goto) (auto simp: current_def race_invD)
next
  case (swap_none i r st opn)
  then show ?case by (intro race_inv_goto) (auto simp: current_def race_invD)
next
  case (close i r fd opn)
  then show ?case by (intro race_inv_goto) (auto simp: close_fd_def current_def le_SucI race_invD)
next
  case (socket i r st fd)
  then show ?case by (intro race_inv_goto) (auto simp: in_use_def race_invD)
next
  case (socket_fails i r)
  then show ?case by (intro race_inv_goto) (auto simp: race_invD)
next
  case (setup_fails i r fd)
  then show ?case by (intro race_inv_goto) (auto simp: close_fd_def current_def le_SucI race_invD)
next
  case (store i r fd)
  then show ?case by (intro race_inv_goto) (auto simp: current_def race_invD)
next
  case (load i r data)
  then show ?case by (intro race_inv_goto) (auto simp: race_invD)
next
  case (send i r fd data st)
  then show ?case by (intro race_inv_goto) (auto simp: race_invD)
next
  case (send_fails i r fd data)
  then show ?case by (intro race_inv_goto) (auto simp: race_invD)
qed

lemma race_inv_start: "race_inv (hci_start n)"
  by (simp add: race_inv_def hci_start_def owners_def current_def initial_hci_def)

interpretation descriptors: step_invariant "\<lambda>r. \<exists>n. r = hci_start n" hci_step race_inv
  by unfold_locales (auto simp: race_inv_start intro: race_inv_step)

lemma hci_reachable_inv: "hci_reachable n r \<Longrightarrow> race_inv r"
  unfolding hci_reachable_def by (rule descriptors.reachable_inv) blast+

section \<open>The handlers as sequences of steps\<close>

lemma goto_goto [simp]: "goto i pc st (goto i pc' st' r) = goto i pc st r"
  by (simp add: goto_def)

lemma goto_same: "rc_threads r ! i = pc \<Longrightarrow> goto i pc (rc_state r) r = r"
  by (cases r) (auto simp: goto_def)

lemma goto_threads [simp]:
  "length (rc_threads (goto i pc st r)) = length (rc_threads r)"
  "i < length (rc_threads r) \<Longrightarrow> rc_threads (goto i pc st r) ! i = pc"
  by (simp_all add: goto_def)

text \<open>Swapping the descriptor out and closing it, on behalf of either handler.\<close>

lemma swap_close_steps:
  assumes "i < length (rc_threads r)" and "rc_threads r ! i = Ready"
  shows "hci_step\<^sup>*\<^sup>* r (goto i (if opening then Opening else Ready) (swap_close (rc_state r)) r)"
proof (cases "0 \<le> sint (hciSocket (rc_state r))")
  case True
  let ?st = "rc_state r"
  let ?r1 = "goto i (Closing (hciSocket ?st) opening) (?st\<lparr>hciSocket := -1\<rparr>) r"
  have "hci_step r ?r1" using assms True by (intro hci_step.swap) simp_all
  moreover have "hci_step ?r1 (goto i (if opening then Opening else Ready) (close_fd (hciSocket ?st) (rc_state ?r1)) ?r1)"
    using assms by (intro hci_step.close) simp_all
  ultimately show ?thesis using True by (simp add: swap_close_def Let_def is_open_def)
next
  case False
  with assms have "hci_step r (goto i (if opening then Opening else Ready) ((rc_state r)\<lparr>hciSocket := -1\<rparr>) r)"
    by (intro hci_step.swap_none) simp_all
  then show ?thesis using False by (simp add: swap_close_def Let_def is_open_def)
qed

text \<open>What the kernel may answer to a call of \<open>hciOpen\<close>: a new descriptor is not one in use.\<close>

definition fresh_events :: "hci_events \<Rightarrow> hci_state \<Rightarrow> bool" where
  "fresh_events ev st \<longleftrightarrow> (\<forall>fd. ev_socket ev = Inr fd \<longrightarrow> 0 \<le> sint fd \<and> \<not> in_use fd (swap_close st))"

lemma hciOpen_steps:
  assumes i: "i < length (rc_threads r)" "rc_threads r ! i = Ready" and ev: "fresh_events ev (rc_state r)"
  shows "hci_step\<^sup>*\<^sup>* r (goto i Ready (snd (hciOpen ev ps (rc_state r))) r)"
proof (cases "\<exists>name n. length ps = 1 \<and> as_string (ps ! 0) = Some name \<and> device_number name = Inr n")
  case False
  then have "snd (hciOpen ev ps (rc_state r)) = rc_state r"
    by (auto simp: hciOpen_def split: option.split sum.split)
  with i show ?thesis by (simp add: goto_same)
next
  case True
  then obtain name n where p: "length ps = 1" "as_string (ps ! 0) = Some name" "device_number name = Inr n" by blast
  let ?st1 = "swap_close (rc_state r)"
  let ?r1 = "goto i Opening ?st1 r"
  have s1: "hci_step\<^sup>*\<^sup>* r ?r1" using swap_close_steps [OF i, of True] by simp
  show ?thesis
  proof (cases "ev_socket ev")
    case (Inl err)
    have "hci_step ?r1 (goto i Ready (rc_state ?r1) ?r1)" using i by (intro hci_step.socket_fails) simp_all
    with s1 Inl p show ?thesis by (simp add: hciOpen_def)
  next
    case (Inr fd)
    let ?st2 = "?st1\<lparr>fds_created := fds_created ?st1 @ [fd]\<rparr>"
    let ?r2 = "goto i (Holding fd) ?st2 ?r1"
    have "hci_step ?r1 ?r2" using i ev Inr by (intro hci_step.socket) (auto simp: fresh_events_def)
    with s1 have s2: "hci_step\<^sup>*\<^sup>* r ?r2" by simp
    have "hci_step ?r2 (goto i Ready (close_fd fd (rc_state ?r2)) ?r2)"
      using i by (intro hci_step.setup_fails) simp_all
    moreover have "hci_step ?r2 (goto i Ready ((rc_state ?r2)\<lparr>hciSocket := fd\<rparr>) ?r2)"
      using i by (intro hci_step.store) simp_all
    ultimately show ?thesis using s2 Inr p
      by (auto simp: hciOpen_def Let_def intro: rtranclp.rtrancl_into_rtrancl split: option.split)
  qed
qed

lemma hciClose_steps:
  assumes "i < length (rc_threads r)" "rc_threads r ! i = Ready"
  shows "hci_step\<^sup>*\<^sup>* r (goto i Ready (snd (hciClose ev ps (rc_state r))) r)"
  using swap_close_steps [OF assms, of False] goto_same [OF assms(2)] by (simp add: hciClose_def)

lemma hciSend_steps:
  assumes i: "i < length (rc_threads r)" "rc_threads r ! i = Ready"
  shows "hci_step\<^sup>*\<^sup>* r (goto i Ready (snd (hciSend ev ps (rc_state r))) r)"
proof (cases "snd (hciSend ev ps (rc_state r)) = rc_state r")
  case True
  with i show ?thesis by (simp add: goto_same)
next
  case False
  let ?st = "rc_state r"
  from False obtain data n where o: "0 \<le> sint (hciSocket ?st)"
    and s: "snd (hciSend ev ps ?st) = ?st\<lparr>hci_sent := hci_sent ?st @ [(hciSocket ?st, take n data)]\<rparr>"
    by (auto simp: hciSend_def no_hci_device_def is_open_def split: option.splits sum.splits if_splits)
  let ?r1 = "goto i (Sending (hciSocket ?st) (take n data)) ?st r"
  have "hci_step r ?r1" using i o by (intro hci_step.load) simp_all
  moreover have "hci_step ?r1 (goto i Ready (?st\<lparr>hci_sent := hci_sent ?st @ [(hciSocket ?st, take n data)]\<rparr>) ?r1)"
    using i by (intro hci_step.send) simp_all
  ultimately show ?thesis using s by simp
qed

section \<open>Lost descriptors\<close>

text \<open>A descriptor that is open, and that neither the variable nor any goroutine knows.\<close>

definition lost :: "32 word \<Rightarrow> hci_race \<Rightarrow> bool" where
  "lost fd r \<longleftrightarrow> in_use fd (rc_state r) \<and> \<not> current (rc_state r) fd \<and> (\<forall>pc \<in> set (rc_threads r). \<not> owns fd pc)"

lemma lost_goto:
  assumes "lost fd r" and "in_use fd st" and "\<not> current st fd" and "\<not> owns fd pc"
  shows "lost fd (goto i pc st r)"
  using assms set_update_subset_insert [of "rc_threads r" i pc] by (auto simp: lost_def goto_def)

lemma lost_not_owned: "\<lbrakk> lost fd r; i < length (rc_threads r); rc_threads r ! i = pc \<rbrakk> \<Longrightarrow> \<not> owns fd pc"
  by (auto simp: lost_def)

lemma in_use_simps [simp]:
  "in_use fd (st\<lparr>hciSocket := s\<rparr>) = in_use fd st" "in_use fd (st\<lparr>hci_sent := y\<rparr>) = in_use fd st"
  "x \<noteq> fd \<Longrightarrow> in_use fd (close_fd x st) = in_use fd st"
  "in_use fd st \<Longrightarrow> in_use fd (st\<lparr>fds_created := fds_created st @ [x]\<rparr>)"
  by (auto simp: in_use_def close_fd_def)

lemma lost_step: "\<lbrakk> hci_step r r'; lost fd r \<rbrakk> \<Longrightarrow> lost fd r'"
proof (induction rule: hci_step.induct)
  case (socket i r st x)
  then show ?case by (intro lost_goto) (auto simp: lost_def)
next
  case (close i r x opn)
  with lost_not_owned [OF close(3,1,2)] show ?case by (intro lost_goto) (auto simp: lost_def)
next
  case (setup_fails i r x)
  with lost_not_owned [OF setup_fails(3,1,2)] show ?case by (intro lost_goto) (auto simp: lost_def)
next
  case (store i r x)
  with lost_not_owned [OF store(3,1,2)] show ?case by (intro lost_goto) (auto simp: lost_def current_def)
next
  case (swap i r st opn)
  then show ?case by (intro lost_goto) (auto simp: lost_def current_def)
qed (intro lost_goto; auto simp: lost_def)+

interpretation loss: step_invariant "lost fd" hci_step "lost fd" for fd
  by unfold_locales (auto intro: lost_step)

section \<open>Properties\<close>

text \<open>
  C24. However the calls of any number of clients interleave, a descriptor has at most one owner, the
  variable or one goroutine; so no descriptor is closed more often than the kernel handed it
  out, and the one in the variable is open. The whole handlers are sequences of these steps.
\<close>

theorem hci_race_single_owner:
  assumes "hci_reachable n r"
  shows "(\<forall>fd. owners fd r \<le> 1 \<and> count_list (fds_closed (rc_state r)) fd \<le> count_list (fds_created (rc_state r)) fd
            \<and> (current (rc_state r) fd \<longrightarrow> in_use fd (rc_state r)))
     \<and> (\<forall>i ev ps. i < length (rc_threads r) \<and> rc_threads r ! i = Ready \<longrightarrow>
            hci_reachable n (goto i Ready (snd (hciClose ev ps (rc_state r))) r)
            \<and> hci_reachable n (goto i Ready (snd (hciSend ev ps (rc_state r))) r)
            \<and> (fresh_events ev (rc_state r) \<longrightarrow> hci_reachable n (goto i Ready (snd (hciOpen ev ps (rc_state r))) r)))"
proof (intro conjI allI impI)
  fix fd
  have inv: "count_list (fds_closed (rc_state r)) fd + owners fd r \<le> count_list (fds_created (rc_state r)) fd"
    "count_list (fds_created (rc_state r)) fd \<le> Suc (count_list (fds_closed (rc_state r)) fd)"
    using hci_reachable_inv [OF assms] by (simp_all add: race_inv_def)
  then show "owners fd r \<le> 1" "count_list (fds_closed (rc_state r)) fd \<le> count_list (fds_created (rc_state r)) fd"
    by linarith+
  show "in_use fd (rc_state r)" if "current (rc_state r) fd"
    using inv(1) that by (simp add: in_use_def owners_def)
next
  fix i ev ps
  assume "i < length (rc_threads r) \<and> rc_threads r ! i = Ready"
  then have i: "i < length (rc_threads r)" "rc_threads r ! i = Ready" by simp_all
  note reach = assms [unfolded hci_reachable_def]
  show "hci_reachable n (goto i Ready (snd (hciClose ev ps (rc_state r))) r)"
    unfolding hci_reachable_def by (rule rtranclp_trans [OF reach hciClose_steps [OF i]])
  show "hci_reachable n (goto i Ready (snd (hciSend ev ps (rc_state r))) r)"
    unfolding hci_reachable_def by (rule rtranclp_trans [OF reach hciSend_steps [OF i]])
  show "hci_reachable n (goto i Ready (snd (hciOpen ev ps (rc_state r))) r)" if "fresh_events ev (rc_state r)"
    unfolding hci_reachable_def by (rule rtranclp_trans [OF reach hciOpen_steps [OF i that]])
qed

text \<open>Two clients that open the device at the same time.\<close>

definition both_opening :: hci_race where
  "both_opening = \<lparr>rc_state = initial_hci, rc_threads = [Opening, Opening]\<rparr>"

lemma reach_both_opening: "hci_reachable 2 both_opening"
proof -
  let ?r0 = "hci_start 2"
  let ?r1 = "goto 0 Opening initial_hci ?r0"
  have "hci_step ?r0 (goto 0 (if True then Opening else Ready) ((rc_state ?r0)\<lparr>hciSocket := -1\<rparr>) ?r0)"
    by (rule hci_step.swap_none) (simp_all add: hci_start_def initial_hci_def)
  then have "hci_step ?r0 ?r1" by (simp add: hci_start_def initial_hci_def)
  moreover have "hci_step ?r1 (goto 1 (if True then Opening else Ready) ((rc_state ?r1)\<lparr>hciSocket := -1\<rparr>) ?r1)"
    by (rule hci_step.swap_none) (simp_all add: hci_start_def initial_hci_def goto_def numeral_2_eq_2)
  then have "hci_step ?r1 both_opening"
    by (simp add: both_opening_def hci_start_def initial_hci_def goto_def numeral_2_eq_2)
  ultimately show ?thesis unfolding hci_reachable_def by (meson r_into_rtranclp rtranclp.rtrancl_into_rtrancl)
qed

definition both_open :: hci_race where
  "both_open = \<lparr>rc_state = initial_hci\<lparr>fds_created := [3, 4], hciSocket := 4\<rparr>, rc_threads = [Ready, Ready]\<rparr>"

lemma reach_both_open: "hci_reachable 2 both_open"
proof -
  let ?s = "\<lambda>fds s. initial_hci\<lparr>fds_created := fds, hciSocket := s\<rparr>"
  let ?r1 = "\<lparr>rc_state = ?s [3] (-1), rc_threads = [Holding 3, Opening]\<rparr>"
  let ?r2 = "\<lparr>rc_state = ?s [3, 4] (-1), rc_threads = [Holding 3, Holding 4]\<rparr>"
  let ?r3 = "\<lparr>rc_state = ?s [3, 4] 3, rc_threads = [Ready, Holding 4]\<rparr>"
  have "hci_step both_opening ?r1"
    using hci_step.socket [of 0 both_opening initial_hci 3]
    by (simp add: both_opening_def initial_hci_def goto_def in_use_def)
  moreover have "hci_step ?r1 ?r2"
    using hci_step.socket [of 1 ?r1 "?s [3] (-1)" 4] by (simp add: initial_hci_def goto_def in_use_def)
  moreover have "hci_step ?r2 ?r3"
    using hci_step.store [of 0 ?r2 3] by (simp add: initial_hci_def goto_def)
  moreover have "hci_step ?r3 both_open"
    using hci_step.store [of 1 ?r3 4] by (simp add: both_open_def initial_hci_def goto_def)
  ultimately show ?thesis
    using reach_both_opening unfolding hci_reachable_def by (meson rtranclp.rtrancl_into_rtrancl)
qed

theorem hci_race_single_owner_witness:
  "hci_reachable 2 both_open \<and> owners 4 both_open \<le> 1 \<and> in_use 4 (rc_state both_open)"
  using hci_race_single_owner [OF reach_both_open] reach_both_open by (simp add: both_open_def current_def)

text \<open>
  Two overlapping calls of \<open>hci/open\<close>, say for two devices, leak a descriptor: both find no device open, both
  create and bind a socket, and the second store overwrites the first. The first socket then stays open whatever is
  called afterwards.
\<close>

lemma hci_race_leaks:
  "\<exists>r. hci_reachable 2 r \<and> set (rc_threads r) = {Ready} \<and> lost 3 r
     \<and> \<not> (\<exists>r'. hci_step\<^sup>*\<^sup>* r r' \<and> \<not> in_use 3 (rc_state r'))"
proof (intro exI [of _ both_open] conjI)
  show l: "lost 3 both_open" by (simp add: lost_def both_open_def in_use_def current_def initial_hci_def)
  show "\<not> (\<exists>r'. hci_step\<^sup>*\<^sup>* both_open r' \<and> \<not> in_use 3 (rc_state r'))"
    using loss.steps_inv [OF _ l] by (auto simp: lost_def)
qed (use reach_both_open in \<open>simp_all add: both_open_def\<close>)

end
