(* ===== verification/Filepath.thy ===== *)
theory Filepath
  imports Prelude
begin

text \<open>
  The two functions of Go's \<open>path/filepath\<close> that \<open>waitForPort\<close> uses, on a Unix system: \<open>Clean\<close>, the
  shortest name of a path, and \<open>Dir\<close>, its directory. The lemmas show that going from a
  directory to its parent comes to an end: \<open>Dir\<close> either leaves a path alone or makes it
  smaller.
\<close>

section \<open>Clean\<close>

text \<open>The elements between the slashes, empty ones included.\<close>

fun split_path :: "string \<Rightarrow> string list" where
  "split_path [] = [[]]"
| "split_path (c # cs) =
     (if c = CHR ''/'' then [] # split_path cs
      else case split_path cs of [] \<Rightarrow> [[c]] | e # es \<Rightarrow> (c # e) # es)"

text \<open>
  One element of the path, the elements read so far on a stack: empty elements and dots are
  skipped, two dots take back the element before them; at the root they vanish, and at the
  beginning of a relative path they stay.
\<close>

definition clean_step :: "bool \<Rightarrow> string \<Rightarrow> string list \<Rightarrow> string list" where
  "clean_step rooted e st =
     (if e = '''' \<or> e = ''.'' then st
      else if e = ''..'' then
        (case st of
           [] \<Rightarrow> if rooted then [] else [''..'']
         | e' # rest \<Rightarrow> if e' = ''..'' then ''..'' # st else rest)
      else e # st)"

fun join_path :: "string list \<Rightarrow> string" where
  "join_path [] = ''''"
| "join_path [e] = e"
| "join_path (e # es) = e @ ''/'' @ join_path es"

definition rooted_path :: "string \<Rightarrow> bool" where
  "rooted_path path \<longleftrightarrow> (\<exists>rest. path = CHR ''/'' # rest)"

lemma rooted_path_simps [simp, code]:
  "rooted_path [] = False"
  "rooted_path (c # cs) = (c = CHR ''/'')"
  by (simp_all add: rooted_path_def)

definition clean_elements :: "string \<Rightarrow> string list" where
  "clean_elements path = rev (fold (clean_step (rooted_path path)) (split_path path) [])"

definition Clean :: "string \<Rightarrow> string" where
  "Clean path =
     (let out = join_path (clean_elements path) in
      if rooted_path path then ''/'' @ out else if out = '''' then ''.'' else out)"

section \<open>Dir\<close>

text \<open>Everything up to the last slash, cleaned.\<close>

definition upto_slash :: "string \<Rightarrow> string" where
  "upto_slash path = rev (dropWhile (\<lambda>c. c \<noteq> CHR ''/'') (rev path))"

definition Dir :: "string \<Rightarrow> string" where
  "Dir path = Clean (upto_slash path)"

section \<open>Sizes\<close>

text \<open>The length of the elements with one separator each.\<close>

definition weight :: "string list \<Rightarrow> nat" where
  "weight es = sum_list (map (\<lambda>e. Suc (length e)) es)"

lemma weight_simps [simp]:
  "weight [] = 0" "weight (e # es) = Suc (length e) + weight es" "weight (rev es) = weight es"
  by (simp_all add: weight_def rev_map [symmetric])

lemma split_path_not_Nil [simp]: "split_path path \<noteq> []"
  by (cases path) (simp_all split: list.split)

lemma weight_split_path: "weight (split_path path) = Suc (length path)"
  by (induction path) (auto split: list.split)

lemma weight_clean_step: "weight (clean_step rooted e st) \<le> weight st + Suc (length e)"
  by (auto simp: clean_step_def split: list.split)

lemma weight_clean: "weight (fold (clean_step rooted) es st) \<le> weight st + weight es"
proof (induction es arbitrary: st)
  case (Cons e es)
  have "weight (fold (clean_step rooted) es (clean_step rooted e st)) \<le> weight (clean_step rooted e st) + weight es"
    by (rule Cons.IH)
  also have "\<dots> \<le> weight st + weight (e # es)" using weight_clean_step [of rooted e st] by simp
  finally show ?case by simp
qed simp

lemma length_join_path: "es \<noteq> [] \<Longrightarrow> Suc (length (join_path es)) = weight es"
  by (induction es rule: join_path.induct) auto

text \<open>Cleaning does not make a path longer.\<close>

lemma length_Clean: "path \<noteq> [] \<Longrightarrow> length (Clean path) \<le> length path"
proof -
  assume p: "path \<noteq> []"
  let ?es = "clean_elements path"
  have len: "Suc 0 \<le> length path" using p by (simp add: Suc_le_eq)
  note join = length_join_path [of ?es]
  show ?thesis
  proof (cases "rooted_path path")
    case True
    then obtain rest where rest: "path = CHR ''/'' # rest" by (auto simp: rooted_path_def)
    have "fold (clean_step True) (split_path path) [] = fold (clean_step True) (split_path rest) []"
      by (simp add: rest clean_step_def)
    then have "weight ?es \<le> length path"
      using weight_clean [of True "split_path rest" "[]"] True rest
      by (simp add: clean_elements_def weight_split_path)
    with True len join show ?thesis by (cases "?es = []") (simp_all add: Clean_def Let_def)
  next
    case False
    have "weight ?es \<le> Suc (length path)"
      using weight_clean [of False "split_path path" "[]"] False
      by (simp add: clean_elements_def weight_split_path)
    with False len join show ?thesis by (cases "?es = []") (auto simp: Clean_def Let_def)
  qed
qed

text \<open>A slash at the end is dropped.\<close>

lemma split_path_snoc_slash: "split_path (path @ ''/'') = split_path path @ [[]]"
  by (induction path) (auto split: list.split)

lemma Clean_snoc_slash:
  assumes "path \<noteq> []"
  shows "Clean (path @ ''/'') = Clean path"
proof -
  have "rooted_path (path @ ''/'') = rooted_path path" using assms by (cases path) simp_all
  then show ?thesis
    unfolding Clean_def clean_elements_def split_path_snoc_slash by (simp add: clean_step_def)
qed

lemma upto_slash_cases:
  obtains "upto_slash path = []" "CHR ''/'' \<notin> set path"
  | pre suf where "path = pre @ ''/'' @ suf" "upto_slash path = pre @ ''/''"
proof (cases "CHR ''/'' \<in> set path")
  case True
  then obtain pre suf where p: "path = pre @ CHR ''/'' # suf" "CHR ''/'' \<notin> set suf"
    by (meson split_list_last)
  then have "upto_slash path = pre @ ''/''" by (auto simp: upto_slash_def dropWhile_append)
  with p that(2) show ?thesis by simp
next
  case False
  then have "upto_slash path = []" by (auto simp: upto_slash_def)
  with False that(1) show ?thesis by blast
qed

section \<open>Going up ends\<close>

definition path_rank :: "string \<Rightarrow> nat" where
  "path_rank path = (if path = ''.'' then 0 else Suc (length path))"

lemma Clean_Nil [simp]: "Clean [] = ''.''" and Clean_slash [simp]: "Clean ''/'' = ''/''"
  by (simp_all add: Clean_def clean_elements_def clean_step_def)

text \<open>The only directories that are their own parents are the root and the current directory.\<close>

lemma Dir_decreases:
  assumes "path \<noteq> ''/''" and "path \<noteq> ''.''"
  shows "path_rank (Dir path) < path_rank path"
proof (cases path rule: upto_slash_cases)
  case 1
  with assms(2) show ?thesis by (simp add: Dir_def path_rank_def)
next
  case (2 pre suf)
  show ?thesis
  proof (cases "pre = []")
    case True
    with 2 assms(1) have "suf \<noteq> []" by auto
    with True 2 show ?thesis by (simp add: Dir_def path_rank_def)
  next
    case False
    have "path_rank (Dir path) \<le> Suc (length (Clean pre))"
      using 2(2) False by (simp add: Dir_def Clean_snoc_slash path_rank_def)
    also have "\<dots> < Suc (length path)" using length_Clean [OF False] 2(1) by simp
    also have "Suc (length path) = path_rank path" using assms(2) by (simp add: path_rank_def)
    finally show ?thesis .
  qed
qed

lemma Dir_root [simp]: "Dir ''/'' = ''/''" and Dir_dot [simp]: "Dir ''.'' = ''.''"
  by (simp_all add: Dir_def upto_slash_def)

lemma Dir_fixpoint: "Dir path = path \<longleftrightarrow> path = ''/'' \<or> path = ''.''"
  by (metis Dir_decreases Dir_dot Dir_root less_irrefl)

lemma Dir_smaller: "Dir path \<noteq> path \<Longrightarrow> path_rank (Dir path) < path_rank path"
  by (metis Dir_decreases Dir_fixpoint)

lemma rooted_Clean: "rooted_path path \<Longrightarrow> rooted_path (Clean path)"
  by (simp add: Clean_def Let_def)

lemma rooted_Dir: "rooted_path path \<Longrightarrow> rooted_path (Dir path)"
proof (cases path rule: upto_slash_cases)
  case 1
  moreover assume "rooted_path path"
  ultimately show ?thesis by (auto simp: rooted_path_def)
next
  case (2 pre suf)
  moreover assume "rooted_path path"
  ultimately have "rooted_path (upto_slash path)" by (cases pre) auto
  then show ?thesis by (simp add: Dir_def rooted_Clean)
qed

end
