(* ===== verification/Port_Watcher.thy ===== *)
theory Port_Watcher
  imports Filepath Go_Values
begin

text \<open>
  \<open>waitForPort\<close> of \<open>main.go\<close>: wait until the serial port exists. The function runs beside a changing
  file system, so it is a step relation: \<open>wait_step\<close> has a step for every system call and
  every turn of the loops, \<open>fs_step\<close> is what others do to the file system meanwhile.

  The watcher is the package \<open>fsnotify\<close>, which is not part of the repository. Which changes it
  reports is the parameter \<open>notifies\<close>, a predicate on the watched directories and the changed
  path; the theorems say which of its documented properties they need.
\<close>

section \<open>State\<close>

text \<open>An entry of the file system; a dangling link is seen by \<open>os.Lstat\<close> but not by \<open>os.Stat\<close>.\<close>

datatype entry = Plain | Directory | Dangling

record fs_event =
  ev_create :: bool
  ev_Name :: string

text \<open>
  Where the function is: in the loop over the ancestors, before \<open>watcher.Add\<close>, before \<open>os.Lstat\<close> of the
  target, in the \<open>select\<close>, or returned.
\<close>

datatype wait_pc =
    Ancestor string
  | Adding string
  | Checking
  | Selecting
  | Returned "goerror option"

record wait_state =
  wpc :: wait_pc
  watches :: "string set"
  queue :: "fs_event list"
  files :: "string \<rightharpoonup> entry"

definition stat_ok :: "wait_state \<Rightarrow> string \<Rightarrow> bool" where
  "stat_ok s path \<longleftrightarrow> files s path \<noteq> None \<and> files s path \<noteq> Some Dangling"

definition IsDir :: "wait_state \<Rightarrow> string \<Rightarrow> bool" where
  "IsDir s path \<longleftrightarrow> files s path = Some Directory"

section \<open>The function\<close>

text \<open>The beginning: without a watcher the function returns its error.\<close>

definition wait_start :: "goerror option \<Rightarrow> string \<Rightarrow> (string \<rightharpoonup> entry) \<Rightarrow> wait_state" where
  "wait_start watcher_err waitPort fs =
     \<lparr>wpc = (case watcher_err of None \<Rightarrow> Ancestor (Dir (Clean waitPort)) | Some err \<Rightarrow> Returned (Some err)),
      watches = {}, queue = [], files = fs\<rparr>"

definition no_ancestor_error :: "string \<Rightarrow> goerror" where
  "no_ancestor_error target = ErrorString (''no existing ancestor directory for '' @ target)"

text \<open>
  The case of an event: a directory that was created is watched too, if adding it succeeds
  (\<open>added\<close>); then the loop looks for the target again.
\<close>

definition handle_event :: "bool \<Rightarrow> fs_event \<Rightarrow> wait_state \<Rightarrow> wait_state" where
  "handle_event added ev s =
     s\<lparr>wpc := Checking,
       watches := (if ev_create ev \<and> IsDir s (ev_Name ev) \<and> added then insert (ev_Name ev) (watches s)
                   else watches s)\<rparr>"

inductive wait_step :: "string \<Rightarrow> wait_state \<Rightarrow> wait_state \<Rightarrow> bool" for target :: string where
  stat_found:
    "\<lbrakk> wpc s = Ancestor dir; stat_ok s dir \<rbrakk> \<Longrightarrow> wait_step target s (s\<lparr>wpc := Adding dir\<rparr>)"
| stat_parent:
    "\<lbrakk> wpc s = Ancestor dir; \<not> stat_ok s dir; Dir dir \<noteq> dir \<rbrakk> \<Longrightarrow>
     wait_step target s (s\<lparr>wpc := Ancestor (Dir dir)\<rparr>)"
| no_ancestor:
    "\<lbrakk> wpc s = Ancestor dir; \<not> stat_ok s dir; Dir dir = dir \<rbrakk> \<Longrightarrow>
     wait_step target s (s\<lparr>wpc := Returned (Some (no_ancestor_error target))\<rparr>)"
| add_ok:
    "wpc s = Adding dir \<Longrightarrow> wait_step target s (s\<lparr>watches := insert dir (watches s), wpc := Checking\<rparr>)"
| add_fails:
    "wpc s = Adding dir \<Longrightarrow> wait_step target s (s\<lparr>wpc := Returned (Some err)\<rparr>)"
| lstat:
    "wpc s = Checking \<Longrightarrow>
     wait_step target s (s\<lparr>wpc := (if files s target \<noteq> None then Returned None else Selecting)\<rparr>)"
| event:
    "\<lbrakk> wpc s = Selecting; queue s = ev # q \<rbrakk> \<Longrightarrow> wait_step target s (handle_event added ev (s\<lparr>queue := q\<rparr>))"
| cancelled:
    "wpc s = Selecting \<Longrightarrow> wait_step target s (s\<lparr>wpc := Returned (Some err)\<rparr>)"

inductive_cases wait_stepE: "wait_step target s s'"

section \<open>The file system\<close>

type_synonym notifier = "string set \<Rightarrow> string \<Rightarrow> bool"

text \<open>Report an event for a path, if the watcher sees it.\<close>

definition notify :: "notifier \<Rightarrow> bool \<Rightarrow> string \<Rightarrow> wait_state \<Rightarrow> wait_state" where
  "notify notifies create path s =
     (if notifies (watches s) path then s\<lparr>queue := queue s @ [\<lparr>ev_create = create, ev_Name = path\<rparr>]\<rparr> else s)"

text \<open>
  An entry is created, or removed, with the watch on it if there is one, or another event is
  reported.
\<close>

inductive fs_step :: "notifier \<Rightarrow> wait_state \<Rightarrow> wait_state \<Rightarrow> bool" for notifies :: notifier where
  create:
    "files s path = None \<Longrightarrow>
     fs_step notifies s (notify notifies True path (s\<lparr>files := (files s)(path \<mapsto> k)\<rparr>))"
| remove:
    "fs_step notifies s
       ((notify notifies False path s)\<lparr>files := (files s)(path := None), watches := watches s - {path}\<rparr>)"
| other: "fs_step notifies s (notify notifies False path s)"

inductive wait_reachable :: "notifier \<Rightarrow> string \<Rightarrow> wait_state \<Rightarrow> bool" for notifies :: notifier and waitPort :: string where
  start: "wait_reachable notifies waitPort (wait_start err waitPort fs)"
| waiter: "\<lbrakk> wait_reachable notifies waitPort s; wait_step (Clean waitPort) s s' \<rbrakk> \<Longrightarrow> wait_reachable notifies waitPort s'"
| world: "\<lbrakk> wait_reachable notifies waitPort s; fs_step notifies s s' \<rbrakk> \<Longrightarrow> wait_reachable notifies waitPort s'"

section \<open>The loop over the ancestors\<close>

lemma Dir_funpow_Suc: "(Dir ^^ Suc i) dir = (Dir ^^ i) (Dir dir)"
  by (simp add: funpow_swap1)

lemma nearest_Suc:
  assumes "\<not> P dir" and "\<forall>i < k. \<not> P ((Dir ^^ i) (Dir dir))" and "i < Suc k"
  shows "\<not> P ((Dir ^^ i) dir)"
  using assms by (cases i) (auto simp: Dir_funpow_Suc simp del: funpow.simps(2))

text \<open>Alone, the loop ends: with the nearest directory that exists, or with an error if there is none.\<close>

lemma ancestor_loop:
  "wpc s = Ancestor dir \<Longrightarrow>
     (\<exists>k. (wait_step target)\<^sup>*\<^sup>* s (s\<lparr>wpc := Adding ((Dir ^^ k) dir)\<rparr>)
        \<and> stat_ok s ((Dir ^^ k) dir) \<and> (\<forall>i < k. \<not> stat_ok s ((Dir ^^ i) dir)))
     \<or> (wait_step target)\<^sup>*\<^sup>* s (s\<lparr>wpc := Returned (Some (no_ancestor_error target))\<rparr>)
        \<and> (\<forall>i. \<not> stat_ok s ((Dir ^^ i) dir))"
proof (induction "path_rank dir" arbitrary: dir s rule: less_induct)
  case less
  consider "stat_ok s dir" | "\<not> stat_ok s dir" "Dir dir = dir" | "\<not> stat_ok s dir" "Dir dir \<noteq> dir" by blast
  then show ?case
  proof cases
    case 1
    then have "wait_step target s (s\<lparr>wpc := Adding ((Dir ^^ 0) dir)\<rparr>)"
      using wait_step.stat_found [OF less.prems] by simp
    with 1 show ?thesis by (intro disjI1 exI [of _ 0]) auto
  next
    case 2
    then have "(Dir ^^ i) dir = dir" for i by (induction i) simp_all
    with 2 show ?thesis using wait_step.no_ancestor [OF less.prems] by auto
  next
    case 3
    let ?s = "s\<lparr>wpc := Ancestor (Dir dir)\<rparr>"
    have st: "stat_ok ?s = stat_ok s" by (simp add: stat_ok_def fun_eq_iff)
    have step: "wait_step target s ?s" by (rule wait_step.stat_parent [OF less.prems 3])
    have "wpc ?s = Ancestor (Dir dir)" by simp
    from less.hyps [OF Dir_smaller [OF 3(2)] this] show ?thesis
    proof (elim disjE exE conjE)
      fix k
      assume "(wait_step target)\<^sup>*\<^sup>* ?s (?s\<lparr>wpc := Adding ((Dir ^^ k) (Dir dir))\<rparr>)"
        and "stat_ok ?s ((Dir ^^ k) (Dir dir))" and "\<forall>i<k. \<not> stat_ok ?s ((Dir ^^ i) (Dir dir))"
      then show ?thesis
        using step nearest_Suc [of "stat_ok s" dir k] 3(1)
        by (intro disjI1 exI [of _ "Suc k"])
           (simp add: st Dir_funpow_Suc converse_rtranclp_into_rtranclp del: funpow.simps(2))
    next
      assume "(wait_step target)\<^sup>*\<^sup>* ?s (?s\<lparr>wpc := Returned (Some (no_ancestor_error target))\<rparr>)"
        and none: "\<forall>i. \<not> stat_ok ?s ((Dir ^^ i) (Dir dir))"
      moreover have "\<not> stat_ok s ((Dir ^^ i) dir)" for i
        using none nearest_Suc [of "stat_ok s" dir i i] 3(1) by (simp add: st)
      ultimately show ?thesis
        using step by (intro disjI2) (simp add: converse_rtranclp_into_rtranclp)
    qed
  qed
qed

text \<open>Going up from an absolute path ends at the root.\<close>

lemma reaches_root: "rooted_path dir \<Longrightarrow> \<exists>k. (Dir ^^ k) dir = ''/''"
proof (induction "path_rank dir" arbitrary: dir rule: less_induct)
  case less
  show ?case
  proof (cases "Dir dir = dir")
    case True
    with less.prems have "(Dir ^^ 0) dir = ''/''" by (auto simp: Dir_fixpoint)
    then show ?thesis by blast
  next
    case False
    from less.hyps [OF Dir_smaller [OF False] rooted_Dir [OF less.prems]] obtain k where
      "(Dir ^^ k) (Dir dir) = ''/''" by blast
    then have "(Dir ^^ Suc k) dir = ''/''" by (simp only: Dir_funpow_Suc)
    then show ?thesis by blast
  qed
qed

section \<open>No lost wake-up\<close>

text \<open>
  While the directory of the target is watched, a function that waits although the target
  exists has an event to read.
\<close>

definition wakeup_inv :: "string \<Rightarrow> wait_state \<Rightarrow> bool" where
  "wakeup_inv target s \<longleftrightarrow>
     (wpc s = Selecting \<and> Dir target \<in> watches s \<and> files s target \<noteq> None \<longrightarrow> queue s \<noteq> [])"

lemma wakeup_inv_start: "wakeup_inv target (wait_start err waitPort fs)"
  by (simp add: wakeup_inv_def wait_start_def split: option.split)

lemma wakeup_inv_wait: "wait_step target s s' \<Longrightarrow> wakeup_inv target s'"
  by (induction rule: wait_step.induct) (simp_all add: wakeup_inv_def handle_event_def)

lemma notify_simps [simp]:
  "wpc (notify notifies b path s) = wpc s" "watches (notify notifies b path s) = watches s"
  "files (notify notifies b path s) = files s"
  by (simp_all add: notify_def)

lemma queue_notify: "queue (notify notifies b path s) =
    (if notifies (watches s) path then queue s @ [\<lparr>ev_create = b, ev_Name = path\<rparr>] else queue s)"
  by (simp add: notify_def)

lemma wakeup_inv_fs:
  assumes "fs_step notifies s s'" and "wakeup_inv target s"
    and notif: "\<And>ws path. Dir path \<in> ws \<Longrightarrow> notifies ws path"
  shows "wakeup_inv target s'"
  using assms(1,2)
proof (induction rule: fs_step.induct)
  case (create s path k)
  then show ?case using notif [of path] by (auto simp: wakeup_inv_def queue_notify)
qed (auto simp: wakeup_inv_def queue_notify split: if_splits)

lemma wait_reachable_wakeup_inv:
  assumes "wait_reachable notifies waitPort s" and "\<And>ws path. Dir path \<in> ws \<Longrightarrow> notifies ws path"
  shows "wakeup_inv (Clean waitPort) s"
  using assms(1)
  by (induction rule: wait_reachable.induct)
     (auto intro: wakeup_inv_start wakeup_inv_wait wakeup_inv_fs [OF _ _ assms(2)])

section \<open>A missed port\<close>

definition dev_only :: "string \<rightharpoonup> entry" where
  "dev_only = [''/'' \<mapsto> Directory, ''/dev'' \<mapsto> Directory]"

lemma dev_paths:
  "Clean ''/dev/x/tty'' = ''/dev/x/tty''" "Dir ''/dev/x/tty'' = ''/dev/x''" "Dir ''/dev/x'' = ''/dev''" "Dir ''/dev'' = ''/''"
  by code_simp+

text \<open>The state in which the function waits for a port that exists.\<close>

definition missed :: wait_state where
  "missed = \<lparr>wpc = Selecting, watches = {''/dev''}, queue = [],
     files = dev_only(''/dev/x'' \<mapsto> Directory, ''/dev/x/tty'' \<mapsto> Plain)\<rparr>"

lemma missed_reachable:
  assumes "\<And>ws path. notifies ws path \<Longrightarrow> Dir path \<in> ws"
  shows "wait_reachable notifies ''/dev/x/tty'' missed"
proof -
  let ?r = "wait_reachable notifies ''/dev/x/tty''"
  let ?mk = "\<lambda>pc ws fs. \<lparr>wpc = pc, watches = ws, queue = [], files = fs\<rparr>"
  note wait = wait_reachable.waiter [where waitPort = "''/dev/x/tty''", unfolded dev_paths(1)]
  have quiet: "\<not> notifies {} ''/dev/x''" "\<not> notifies {''/dev''} ''/dev/x/tty''"
    using assms [of "{}" "''/dev/x''"] assms [of "{''/dev''}" "''/dev/x/tty''"] by (auto simp: dev_paths)
  have "?r (?mk (Ancestor ''/dev/x'') {} dev_only)"
    using wait_reachable.start [of notifies "''/dev/x/tty''" None dev_only] by (simp add: wait_start_def dev_paths)
  from wait [OF this wait_step.stat_parent [where dir = "''/dev/x''"]]
  have "?r (?mk (Ancestor ''/dev'') {} dev_only)" by (simp add: stat_ok_def dev_only_def dev_paths)
  from wait [OF this wait_step.stat_found [where dir = "''/dev''"]]
  have "?r (?mk (Adding ''/dev'') {} dev_only)" by (simp add: stat_ok_def dev_only_def)
  from wait_reachable.world [OF this fs_step.create [where path = "''/dev/x''" and k = Directory]]
  have "?r (?mk (Adding ''/dev'') {} (dev_only(''/dev/x'' \<mapsto> Directory)))"
    using quiet by (simp add: notify_def dev_only_def)
  from wait [OF this wait_step.add_ok [where dir = "''/dev''"]]
  have "?r (?mk Checking {''/dev''} (dev_only(''/dev/x'' \<mapsto> Directory)))" by simp
  from wait [OF this wait_step.lstat]
  have "?r (?mk Selecting {''/dev''} (dev_only(''/dev/x'' \<mapsto> Directory)))" by (simp add: dev_only_def)
  from wait_reachable.world [OF this fs_step.create [where path = "''/dev/x/tty''" and k = Plain]]
  show ?thesis using quiet by (simp add: notify_def dev_only_def missed_def)
qed

section \<open>Properties\<close>

text \<open>
  C35. The search for a directory to watch ends: left alone, it stops at the nearest ancestor of
  the port that exists, or, when none exists, with an error; for an absolute path on a system
  whose root directory exists it always finds one.
\<close>

theorem wait_finds_nearest_ancestor:
  assumes "wpc s = Ancestor dir"
  shows "((\<exists>k. (wait_step target)\<^sup>*\<^sup>* s (s\<lparr>wpc := Adding ((Dir ^^ k) dir)\<rparr>)
           \<and> stat_ok s ((Dir ^^ k) dir) \<and> (\<forall>i < k. \<not> stat_ok s ((Dir ^^ i) dir)))
        \<or> (wait_step target)\<^sup>*\<^sup>* s (s\<lparr>wpc := Returned (Some (no_ancestor_error target))\<rparr>)
           \<and> (\<forall>i. \<not> stat_ok s ((Dir ^^ i) dir)))
     \<and> (rooted_path dir \<and> stat_ok s ''/'' \<longrightarrow>
          (\<exists>d. (wait_step target)\<^sup>*\<^sup>* s (s\<lparr>wpc := Adding d\<rparr>) \<and> stat_ok s d))"
  using ancestor_loop [OF assms, of target] reaches_root [of dir] by metis

theorem wait_finds_nearest_ancestor_witness:
  "\<exists>d. (wait_step ''/dev/x/tty'')\<^sup>*\<^sup>* (wait_start None ''/dev/x/tty'' dev_only)
          ((wait_start None ''/dev/x/tty'' dev_only)\<lparr>wpc := Adding d\<rparr>)
     \<and> stat_ok (wait_start None ''/dev/x/tty'' dev_only) d"
proof -
  let ?s = "wait_start None ''/dev/x/tty'' dev_only"
  have "wpc ?s = Ancestor ''/dev/x''" by (simp add: wait_start_def dev_paths)
  moreover have "stat_ok ?s ''/''" by (simp add: wait_start_def stat_ok_def dev_only_def)
  ultimately show ?thesis using wait_finds_nearest_ancestor [of ?s "''/dev/x''" "''/dev/x/tty''"] by simp
qed

text \<open>
  C36. The port is not missed while its directory is watched: if the watcher reports what happens
  in the directories it watches, then whenever the port exists and the function is in its
  loop, it has an event to read if it waits for one, reading any event makes it look again,
  and the look returns success; success is returned only when the port exists.
\<close>

theorem wait_port_not_missed:
  assumes "wait_reachable notifies waitPort s" and "\<And>ws path. Dir path \<in> ws \<Longrightarrow> notifies ws path"
    and "Dir (Clean waitPort) \<in> watches s" and "files s (Clean waitPort) \<noteq> None"
    and "wpc s = Checking \<or> wpc s = Selecting"
  shows "(wpc s = Selecting \<longrightarrow> queue s \<noteq> [])
     \<and> (\<forall>added ev q. wait_step (Clean waitPort) (handle_event added ev (s\<lparr>queue := q\<rparr>))
            ((handle_event added ev (s\<lparr>queue := q\<rparr>))\<lparr>wpc := Returned None\<rparr>))
     \<and> (\<exists>s'. (wait_step (Clean waitPort))\<^sup>*\<^sup>* s s' \<and> wpc s' = Returned None)
     \<and> (\<forall>s1 s2. wait_step (Clean waitPort) s1 s2 \<and> wpc s2 = Returned None \<longrightarrow> files s1 (Clean waitPort) \<noteq> None)"
proof (intro conjI allI impI)
  let ?w = "wait_step (Clean waitPort)"
  show q: "queue s \<noteq> []" if "wpc s = Selecting"
    using wait_reachable_wakeup_inv [OF assms(1,2)] assms(3,4) that by (simp add: wakeup_inv_def)
  show look: "?w (handle_event added ev (s\<lparr>queue := q\<rparr>)) ((handle_event added ev (s\<lparr>queue := q\<rparr>))\<lparr>wpc := Returned None\<rparr>)"
    for added ev q
    using wait_step.lstat [of "handle_event added ev (s\<lparr>queue := q\<rparr>)" "Clean waitPort"] assms(4)
    by (simp add: handle_event_def)
  show "\<exists>s'. ?w\<^sup>*\<^sup>* s s' \<and> wpc s' = Returned None"
  proof (cases "wpc s = Selecting")
    case True
    with q obtain ev qs where "queue s = ev # qs" by (cases "queue s") auto
    with True have "?w s (handle_event False ev (s\<lparr>queue := qs\<rparr>))" by (rule wait_step.event)
    with look [of False ev qs]
    have "?w\<^sup>*\<^sup>* s ((handle_event False ev (s\<lparr>queue := qs\<rparr>))\<lparr>wpc := Returned None\<rparr>)"
      by (meson converse_rtranclp_into_rtranclp r_into_rtranclp)
    then show ?thesis by fastforce
  next
    case False
    with assms(4,5) have "?w s (s\<lparr>wpc := Returned None\<rparr>)" using wait_step.lstat [of s "Clean waitPort"] by simp
    then show ?thesis by (intro exI [of _ "s\<lparr>wpc := Returned None\<rparr>"]) auto
  qed
  show "files s1 (Clean waitPort) \<noteq> None" if "?w s1 s2 \<and> wpc s2 = Returned None" for s1 s2
    using that by (auto elim!: wait_stepE simp: handle_event_def split: if_splits)
qed

theorem wait_port_not_missed_witness:
  "\<exists>s'. (wait_step ''/dev/x/tty'')\<^sup>*\<^sup>*
     \<lparr>wpc = Checking, watches = {''/dev/x''}, queue = [], files = dev_only(''/dev/x'' \<mapsto> Directory, ''/dev/x/tty'' \<mapsto> Plain)\<rparr> s'
     \<and> wpc s' = Returned None"
proof -
  let ?fs = "dev_only(''/dev/x'' \<mapsto> Directory, ''/dev/x/tty'' \<mapsto> Plain)"
  let ?n = "\<lambda>ws path. Dir path \<in> ws"
  let ?mk = "\<lambda>pc ws. \<lparr>wpc = pc, watches = ws, queue = [], files = ?fs\<rparr>"
  note wait = wait_reachable.waiter [where waitPort = "''/dev/x/tty''" and notifies = ?n, unfolded dev_paths(1)]
  have "wait_reachable ?n ''/dev/x/tty'' (?mk (Ancestor ''/dev/x'') {})"
    using wait_reachable.start [of ?n "''/dev/x/tty''" None ?fs] by (simp add: wait_start_def dev_paths)
  from wait [OF this wait_step.stat_found [where dir = "''/dev/x''"]]
  have "wait_reachable ?n ''/dev/x/tty'' (?mk (Adding ''/dev/x'') {})" by (simp add: stat_ok_def)
  from wait [OF this wait_step.add_ok [where dir = "''/dev/x''"]]
  have "wait_reachable ?n ''/dev/x/tty'' (?mk Checking {''/dev/x''})" by simp
  from wait_port_not_missed [OF this] show ?thesis by (simp add: dev_paths)
qed

text \<open>
  C37. The port can be missed when its directory did not exist at first: if the watcher reports
  only what happens directly in the directories it watches, the directory may be created
  after the function looked for it and before the ancestor is watched; then the function can
  wait although the port exists, with no event to read, so that it only ever returns with an
  error.
\<close>

theorem wait_can_miss_port:
  assumes "\<And>ws path. notifies ws path \<Longrightarrow> Dir path \<in> ws"
  shows "\<exists>s. wait_reachable notifies ''/dev/x/tty'' s \<and> files s ''/dev/x/tty'' = Some Plain \<and> wpc s = Selecting
     \<and> queue s = [] \<and> (\<forall>s'. wait_step ''/dev/x/tty'' s s' \<longrightarrow> (\<exists>err. wpc s' = Returned (Some err)))"
proof (intro exI conjI)
  show "wait_reachable notifies ''/dev/x/tty'' missed" by (rule missed_reachable [OF assms])
  show "\<forall>s'. wait_step ''/dev/x/tty'' missed s' \<longrightarrow> (\<exists>err. wpc s' = Returned (Some err))"
    by (auto elim!: wait_stepE simp: missed_def)
qed (simp_all add: missed_def)

theorem wait_can_miss_port_witness:
  "\<exists>s. wait_reachable (\<lambda>ws path. Dir path \<in> ws) ''/dev/x/tty'' s \<and> files s ''/dev/x/tty'' = Some Plain
     \<and> wpc s = Selecting \<and> queue s = []"
  using wait_can_miss_port [of "\<lambda>ws path. Dir path \<in> ws"] by blast

end
