(* ===== verification/Router_App.thy ===== *)
theory Router_App
  imports Router_System
begin

text \<open>
  The internal methods seen from the system of connection loops: a step of the system changes
  the state of the internal APIs only by running one of the registered handlers, so what all
  of them keep holds in every state. This is the interface on which the startup code puts the
  internal APIs together.
\<close>

section \<open>What a step does to the state of the APIs\<close>

definition app_by :: "'s world \<Rightarrow> 's world \<Rightarrow> bool" where
  "app_by w w' \<longleftrightarrow>
     routesInternal (router w') = routesInternal (router w) \<and>
     (app w' = app w
      \<or> (\<exists>m h cid ps. routesInternal (router w) m = Some h \<and> app w' = snd (h cid ps (app w))))"

lemma app_by_same: "\<lbrakk> router w' = router w; app w' = app w \<rbrakk> \<Longrightarrow> app_by w w'"
  by (simp add: app_by_def)

lemma app_by_fun: "\<lbrakk> routesInternal (router w') = routesInternal (router w); app w' = app w \<rbrakk> \<Longrightarrow> app_by w w'"
  by (simp add: app_by_def)

lemma app_on_conn: "on_conn cid f w = (e, w') \<Longrightarrow> app w' = app w \<and> router w' = router w"
  by (auto simp: on_conn_def split: option.splits prod.splits)

lemma app_set_conn [simp]: "app (set_conn cid c w) = app w" "router (set_conn cid c w) = router w"
  by (simp_all add: set_conn_def)

lemma app_fwdRes [simp]: "app (fwdRes M caller result err w) = app w"
  by (auto simp: fwdRes_def Let_def split: prod.split option.split dest!: app_on_conn)
     (metis app_on_conn prod.collapse)

lemma router_fwdRes [simp]: "router (fwdRes M caller result err w) = router w"
  using fwdRes_frame [of w M caller result err] by blast

lemma app_forwardNotification [simp]:
  "app (forwardNotification M b m raw w) = app w" "router (forwardNotification M b m raw w) = router w"
  using app_on_conn [of b "SendNotification M m raw" w "fst (on_conn b (SendNotification M m raw) w)"]
  by (simp_all add: forwardNotification_def)

lemma app_handleResponse [simp]:
  "app (handleResponse M cid mid err result w) = app w" "router (handleResponse M cid mid err result w) = router w"
  by (simp_all add: handleResponse_def split: option.split prod.split sum.split)

lemma app_setMaxMsgSize: "setMaxMsgSize cid n w = Running w' \<Longrightarrow> app w' = app w \<and> router w' = router w"
  by (auto simp: setMaxMsgSize_def split: option.splits)

lemma app_by_run_builtin: "run_builtin m ps cid w = Some (Running (r, w')) \<Longrightarrow> app w' = app w"
  by (auto simp: run_builtin_def builtin_register_def builtin_unregister_def builtin_reset_def
       builtin_setMaxMsgSize_def split: if_splits option.splits prod.splits bool.splits sum.splits outcome.splits
       dest: app_setMaxMsgSize)

lemma call_internal_app:
  "call_internal h cid ps w = Running (r, w') \<Longrightarrow> app w' = snd (h cid ps (app w)) \<and> router w' = router w"
  by (auto simp: call_internal_def split: prod.splits handler_result.splits)

lemma app_by_handleRequest:
  assumes "\<not> client_method m w" and "handleRequest M cid mid m raw w = Running w'"
  shows "app_by w w'"
proof (cases "run_builtin m (decoded_params M raw) cid w")
  case (Some out)
  with assms(2) obtain result err w1 where o: "out = Running ((result, err), w1)"
    and w': "w' = fwdRes M (cid, mid) result err w1"
    by (auto simp: handleRequest_def answer_def split: outcome.splits)
  from Some o have "run_builtin m (decoded_params M raw) cid w = Some (Running ((result, err), w1))" by simp
  from app_by_run_builtin [OF this] run_builtin_frame [OF this] w' show ?thesis
    by (simp add: app_by_def local_frame_def routes_by_def)
next
  case None
  with assms(1) obtain h where h: "routesInternal (router w) m = Some h"
    by (auto simp: client_method_def run_builtin_None)
  with None assms(2) obtain result err w1 where "call_internal h cid (decoded_params M raw) w = Running ((result, err), w1)"
    and w': "w' = fwdRes M (cid, mid) result err w1"
    by (auto simp: handleRequest_def answer_def split: outcome.splits)
  with call_internal_app [OF this(1)] h show ?thesis by (auto simp: app_by_def)
qed

lemma app_by_handleNotification:
  assumes "m = ''$/setMaxMsgSize'' \<or> routesInternal (router w) m \<noteq> None \<or> getConnectionForMethod m (router w) = None"
    and "handleNotification M cid m raw w = Running w'"
  shows "app_by w w'"
proof (cases "m = ''$/setMaxMsgSize''")
  case True
  with assms(2) have "app w' = app w \<and> router w' = router w"
    by (auto simp: handleNotification_def split: sum.splits dest: app_setMaxMsgSize)
  then show ?thesis by (simp add: app_by_same)
next
  case False
  show ?thesis
  proof (cases "routesInternal (router w) m")
    case None
    with False assms have "w' = w" by (simp add: handleNotification_def)
    then show ?thesis by (simp add: app_by_same)
  next
    case (Some h)
    with False assms(2) obtain r where "call_internal h cid (decoded_params M raw) w = Running (r, w')"
      by (auto simp: handleNotification_def split: outcome.splits)
    from call_internal_app [OF this] Some show ?thesis by (auto simp: app_by_def)
  qed
qed

lemma sys_step_app_by: "sys_step M s s' \<Longrightarrow> app_by (wrld s) (wrld s')"
proof (induction rule: sys_step.induct)
  case (accept s cid out)
  show ?case by (simp add: app_by_def acceptConnection_def)
next
  case (unavailable cid s m mid raw)
  then show ?case by (simp add: app_by_def routeRequest_def)
next
  case (terminate cid s)
  show ?case by (simp add: app_by_def terminateConnection_def removeMethodsFromConnection_def)
qed (auto simp: app_by_same intro: app_by_handleRequest app_by_handleNotification)

text \<open>The state of the APIs may also change beside the connection loops.\<close>

definition set_app :: "'s \<Rightarrow> 's system \<Rightarrow> 's system" where
  "set_app a s = s\<lparr>wrld := (wrld s)\<lparr>app := a\<rparr>\<rparr>"

lemma live_inv_set_app [simp]: "live_inv (set_app a s) \<longleftrightarrow> live_inv s"
  by (simp add: set_app_def live_inv_def conns_ok_def)

section \<open>The contract of the internal methods\<close>

locale internal_handlers =
  fixes handlers :: "string \<rightharpoonup> 's RouterRequestHandler"
    and app_inv :: "'s \<Rightarrow> bool"
  assumes handler_inv: "\<lbrakk> handlers m = Some h; app_inv st \<rbrakk> \<Longrightarrow> app_inv (snd (h cid ps st))"
begin

definition sys_app_inv :: "'s system \<Rightarrow> bool" where
  "sys_app_inv s \<longleftrightarrow> routesInternal (router (wrld s)) = handlers \<and> app_inv (app (wrld s))"

lemma sys_app_inv_initial: "app_inv st \<Longrightarrow> sys_app_inv (initial handlers st)"
  by (simp add: sys_app_inv_def initial_def)

lemma sys_app_inv_step: "\<lbrakk> sys_step M s s'; sys_app_inv s \<rbrakk> \<Longrightarrow> sys_app_inv s'"
  using sys_step_app_by [of M s s'] handler_inv by (auto simp: sys_app_inv_def app_by_def)

lemma sys_app_inv_set_app:
  "\<lbrakk> sys_app_inv s; app_inv (app (wrld s)) \<Longrightarrow> app_inv a \<rbrakk> \<Longrightarrow> sys_app_inv (set_app a s)"
  by (simp add: sys_app_inv_def set_app_def)

end

end
