(* ===== verification/Serial_Supervisor.thy ===== *)
theory Serial_Supervisor
  imports Api_Table
begin

text \<open>
  The serial port of \<open>main.go\<close>: the methods \<open>$/serial/open\<close> and \<open>$/serial/close\<close> and the goroutine that
  opens the port, serves it and drops it again. They share a lock, two condition variables and
  the channel \<open>serialCloseSignal\<close>, which is nil when the port is meant to be closed.

  A channel is a number; a state of the supervisor goroutine is a value of type \<open>sup_pc\<close>. The
  critical sections and the blocking operations between them are the steps of the relation
  \<open>serial_step\<close>. Handlers that wait on \<open>serialClosed\<close> are counted, and the one that runs on
  the serial connection itself, if any, is singled out because the connection cannot end
  while its handler waits.
\<close>

section \<open>State\<close>

datatype sup_pc =
    AtTop
  | OpenedWait
  | Opening nat
  | WaitingForPort
  | Serving nat
  | Dropping nat

record serial_state =
  serialCloseSignal :: "nat option"
  next_chan :: nat
  closed_chans :: "nat set"
  pc :: sup_pc
  closed_waiters :: nat
  self_waiting :: bool

text \<open>At start the channel exists, so the port is to be opened.\<close>

definition initial_serial :: serial_state where
  "initial_serial =
     \<lparr>serialCloseSignal = Some 0, next_chan = 1, closed_chans = {}, pc = AtTop, closed_waiters = 0,
      self_waiting = False\<rparr>"

section \<open>The handlers\<close>

text \<open>The checks that both methods make before they take the lock: the error to answer, if any.\<close>

definition serial_check :: "string \<Rightarrow> any list \<Rightarrow> any option" where
  "serial_check port ps =
     (if length ps \<noteq> 1 then Some (err_pair 1 ''Invalid number of parameters'')
      else case as_string (ps ! 0) of
        None \<Rightarrow> Some (err_pair 1 ''Invalid parameter type'')
      | Some address \<Rightarrow>
          if address \<noteq> port then Some (err_pair 1 ''Invalid serial port address'') else None)"

text \<open>The critical section of \<open>$/serial/open\<close>; the broadcast wakes the supervisor if it waits.\<close>

definition open_section :: "serial_state \<Rightarrow> serial_state" where
  "open_section s =
     (if serialCloseSignal s = None
      then s\<lparr>serialCloseSignal := Some (next_chan s), next_chan := next_chan s + 1,
             pc := (if pc s = OpenedWait then AtTop else pc s)\<rparr>
      else s)"

definition serialOpen :: "string \<Rightarrow> any list \<Rightarrow> serial_state \<Rightarrow> handler_result \<times> serial_state" where
  "serialOpen port ps s =
     (case serial_check port ps of
        Some err \<Rightarrow> (Respond GoNil err, s)
      | None \<Rightarrow> succeed (GoBool True) (open_section s))"

text \<open>
  \<open>$/serial/close\<close>: either it answers at once, or it has closed the channel and waits on
  \<open>serialClosed\<close> (no result yet).
\<close>

definition close_section :: "serial_state \<Rightarrow> bool \<times> serial_state" where
  "close_section s =
     (case serialCloseSignal s of
        None \<Rightarrow> (False, s)
      | Some ch \<Rightarrow> (True, s\<lparr>closed_chans := insert ch (closed_chans s), serialCloseSignal := None\<rparr>))"

definition serialClose :: "string \<Rightarrow> any list \<Rightarrow> serial_state \<Rightarrow> handler_result option \<times> serial_state" where
  "serialClose port ps s =
     (case serial_check port ps of
        Some err \<Rightarrow> (Some (Respond GoNil err), s)
      | None \<Rightarrow>
          (case close_section s of
             (False, s') \<Rightarrow> (Some (Respond (GoBool True) GoNil), s')
           | (True, s') \<Rightarrow> (None, s'\<lparr>closed_waiters := closed_waiters s' + 1\<rparr>)))"

section \<open>The supervisor\<close>

text \<open>
  The top of the loop, under the lock: without a channel, the waiting close handlers are
  woken and the supervisor waits for an open; with one, it goes on to open the port.
\<close>

definition top_section :: "serial_state \<Rightarrow> serial_state" where
  "top_section s =
     (case serialCloseSignal s of
        None \<Rightarrow> s\<lparr>closed_waiters := 0, self_waiting := False, pc := OpenedWait\<rparr>
      | Some ch \<Rightarrow> s\<lparr>pc := Opening ch\<rparr>)"

text \<open>
  The steps of the supervisor: the port opens and a connection loop is started on it, or
  opening fails and it waits for the port; the select ends because the connection loop
  ended or because the channel was closed; then the port is closed and the connection loop
  awaited, which ends unless its own handler waits for the close.
\<close>

inductive sup_step :: "serial_state \<Rightarrow> serial_state \<Rightarrow> bool" where
  top: "pc s = AtTop \<Longrightarrow> sup_step s (top_section s)"
| opened: "pc s = Opening ch \<Longrightarrow> sup_step s (s\<lparr>pc := Serving ch\<rparr>)"
| open_fails: "pc s = Opening ch \<Longrightarrow> sup_step s (s\<lparr>pc := WaitingForPort\<rparr>)"
| port_appears: "pc s = WaitingForPort \<Longrightarrow> sup_step s (s\<lparr>pc := AtTop\<rparr>)"
| close_signalled: "\<lbrakk> pc s = Serving ch; ch \<in> closed_chans s \<rbrakk> \<Longrightarrow> sup_step s (s\<lparr>pc := Dropping ch\<rparr>)"
| dropped: "\<lbrakk> pc s = Dropping ch; \<not> self_waiting s \<rbrakk> \<Longrightarrow> sup_step s (s\<lparr>pc := AtTop\<rparr>)"

text \<open>
  All steps: those of the supervisor, a failure of the serial connection (its loop ends by
  itself, which it cannot do while its handler waits), and calls of the two methods, the
  close also over the serial connection itself.
\<close>

inductive serial_step :: "serial_state \<Rightarrow> serial_state \<Rightarrow> bool" where
  supervisor: "sup_step s s' \<Longrightarrow> serial_step s s'"
| serial_fails: "\<lbrakk> pc s = Serving ch; \<not> self_waiting s \<rbrakk> \<Longrightarrow> serial_step s (s\<lparr>pc := Dropping ch\<rparr>)"
| call_open: "serial_step s (open_section s)"
| call_close:
    "close_section s = (wait, s') \<Longrightarrow>
     serial_step s (s'\<lparr>closed_waiters := closed_waiters s' + (if wait then 1 else 0)\<rparr>)"
| call_close_over_serial:
    "\<lbrakk> pc s = Serving ch; \<not> self_waiting s; close_section s = (wait, s') \<rbrakk> \<Longrightarrow>
     serial_step s (s'\<lparr>self_waiting := wait\<rparr>)"

inductive serial_reachable :: "serial_state \<Rightarrow> bool" where
  start: "serial_reachable initial_serial"
| step: "\<lbrakk> serial_reachable s; serial_step s s' \<rbrakk> \<Longrightarrow> serial_reachable s'"

section \<open>The invariant\<close>

fun pc_chan :: "sup_pc \<Rightarrow> nat option" where
  "pc_chan (Opening ch) = Some ch"
| "pc_chan (Serving ch) = Some ch"
| "pc_chan (Dropping ch) = Some ch"
| "pc_chan _ = None"

text \<open>
  The supervisor waits for an open only while the port is meant to be closed; the channel it
  works with is the current one or was closed; the current channel was not closed.
\<close>

definition serial_inv :: "serial_state \<Rightarrow> bool" where
  "serial_inv s \<longleftrightarrow>
     (pc s = OpenedWait \<longrightarrow> serialCloseSignal s = None \<and> closed_waiters s = 0 \<and> \<not> self_waiting s) \<and>
     (\<forall>ch. pc_chan (pc s) = Some ch \<longrightarrow> serialCloseSignal s = Some ch \<or> ch \<in> closed_chans s) \<and>
     (\<forall>ch. serialCloseSignal s = Some ch \<longrightarrow> ch \<notin> closed_chans s) \<and>
     (\<forall>ch \<in> closed_chans s. ch < next_chan s) \<and>
     (\<forall>ch. serialCloseSignal s = Some ch \<longrightarrow> ch < next_chan s) \<and>
     (self_waiting s \<longrightarrow> (\<exists>ch. (pc s = Serving ch \<or> pc s = Dropping ch) \<and> ch \<in> closed_chans s))"

lemma serial_inv_initial: "serial_inv initial_serial"
  by (simp add: serial_inv_def initial_serial_def)

lemma sup_step_inv: "\<lbrakk> sup_step s s'; serial_inv s \<rbrakk> \<Longrightarrow> serial_inv s'"
  by (induction rule: sup_step.induct)
     (auto simp: serial_inv_def top_section_def split: option.splits)

lemma open_section_inv: "serial_inv s \<Longrightarrow> serial_inv (open_section s)"
  by (auto simp: serial_inv_def open_section_def)

lemma close_section_inv:
  "\<lbrakk> serial_inv s; close_section s = (wait, s') \<rbrakk> \<Longrightarrow>
     serial_inv (s'\<lparr>closed_waiters := closed_waiters s' + (if wait then 1 else 0)\<rparr>)"
  by (auto simp: serial_inv_def close_section_def split: option.splits)

lemma close_over_serial_inv:
  "\<lbrakk> serial_inv s; pc s = Serving ch; \<not> self_waiting s; close_section s = (wait, s') \<rbrakk> \<Longrightarrow>
     serial_inv (s'\<lparr>self_waiting := wait\<rparr>)"
  by (auto simp: serial_inv_def close_section_def split: option.splits)

lemma serial_step_inv: "\<lbrakk> serial_step s s'; serial_inv s \<rbrakk> \<Longrightarrow> serial_inv s'"
proof (induction rule: serial_step.induct)
  case (serial_fails s ch)
  then show ?case by (auto simp: serial_inv_def)
qed (blast intro: sup_step_inv open_section_inv close_section_inv close_over_serial_inv)+

lemma serial_reachable_inv: "serial_reachable s \<Longrightarrow> serial_inv s"
  by (induction rule: serial_reachable.induct) (blast intro: serial_inv_initial serial_step_inv)+

section \<open>The supervisor makes progress\<close>

text \<open>How many steps the supervisor is away from waiting for the next open.\<close>

fun sup_rank :: "sup_pc \<Rightarrow> nat" where
  "sup_rank OpenedWait = 0"
| "sup_rank AtTop = 1"
| "sup_rank (Dropping ch) = 2"
| "sup_rank WaitingForPort = 2"
| "sup_rank (Serving ch) = 3"
| "sup_rank (Opening ch) = 4"

inductive_cases sup_stepE: "sup_step s s'"

lemma sup_step_closing:
  assumes "sup_step s s'" and "serialCloseSignal s = None"
  shows "serialCloseSignal s' = None" and "sup_rank (pc s') < sup_rank (pc s)"
    and "self_waiting s' \<longrightarrow> self_waiting s"
  using assms by (induction rule: sup_step.induct) (auto simp: top_section_def)

lemma sup_can_step:
  assumes "serial_inv s" and "serialCloseSignal s = None" and "\<not> self_waiting s" and "pc s \<noteq> OpenedWait"
  shows "\<exists>s'. sup_step s s'"
proof (cases "pc s")
  case (Serving ch)
  with assms(1,2) have "ch \<in> closed_chans s" by (auto simp: serial_inv_def)
  with Serving show ?thesis by (blast intro: sup_step.close_signalled)
qed (use assms in \<open>blast intro: sup_step.intros\<close>)+

lemma sup_reaches_wait:
  "\<lbrakk> serial_inv s; serialCloseSignal s = None; \<not> self_waiting s \<rbrakk> \<Longrightarrow>
     \<exists>s'. sup_step\<^sup>*\<^sup>* s s' \<and> pc s' = OpenedWait \<and> serial_inv s'"
proof (induction "sup_rank (pc s)" arbitrary: s rule: less_induct)
  case less
  show ?case
  proof (cases "pc s = OpenedWait")
    case True
    with less.prems show ?thesis by blast
  next
    case False
    then obtain s1 where s1: "sup_step s s1" using sup_can_step less.prems by blast
    note c = sup_step_closing [OF s1 less.prems(2)]
    have "\<exists>s'. sup_step\<^sup>*\<^sup>* s1 s' \<and> pc s' = OpenedWait \<and> serial_inv s'"
      using c less.prems sup_step_inv [OF s1] by (intro less.hyps) auto
    with s1 show ?thesis by (blast intro: converse_rtranclp_into_rtranclp)
  qed
qed

lemma serial_reachable_rtranclp: "\<lbrakk> serial_step\<^sup>*\<^sup>* s s'; serial_reachable s \<rbrakk> \<Longrightarrow> serial_reachable s'"
  by (induction rule: rtranclp_induct) (auto intro: serial_reachable.step)

lemma self_waiting_step:
  assumes "serial_step s s'" and "serial_inv s" and "self_waiting s"
  shows "self_waiting s'"
  using assms
proof (induction rule: serial_step.induct)
  case (supervisor s s')
  then show ?case
    by (induction rule: sup_step.induct) (auto simp: serial_inv_def)
next
  case (call_open s)
  then show ?case by (simp add: open_section_def)
next
  case (call_close s wait s')
  then show ?case by (auto simp: close_section_def split: option.splits)
qed auto

section \<open>Properties\<close>




lemma reach_serving: "serial_reachable (initial_serial\<lparr>pc := Serving 0\<rparr>)"
proof -
  have "serial_step initial_serial (top_section initial_serial)"
    by (intro serial_step.supervisor sup_step.top) (simp add: initial_serial_def)
  then have "serial_reachable (initial_serial\<lparr>pc := Opening 0\<rparr>)"
    using serial_reachable.start serial_reachable.step by (simp add: top_section_def initial_serial_def)
  moreover have "serial_step (initial_serial\<lparr>pc := Opening 0\<rparr>) (initial_serial\<lparr>pc := Serving 0\<rparr>)"
    using serial_step.supervisor [OF sup_step.opened [of "initial_serial\<lparr>pc := Opening 0\<rparr>" 0]] by simp
  ultimately show ?thesis by (rule serial_reachable.step)
qed

lemma reach_closing:
  "serial_reachable (initial_serial\<lparr>pc := Serving 0, closed_chans := {0}, serialCloseSignal := None, closed_waiters := 1\<rparr>)"
proof -
  have "close_section (initial_serial\<lparr>pc := Serving 0\<rparr>)
      = (True, initial_serial\<lparr>pc := Serving 0, closed_chans := {0}, serialCloseSignal := None\<rparr>)"
    by (simp add: close_section_def initial_serial_def)
  from serial_reachable.step [OF reach_serving serial_step.call_close [OF this]] show ?thesis
    by (simp add: initial_serial_def)
qed


text \<open>
  A close call can miss its wake-up: if the port is opened again before the supervisor has
  come back to the top of its loop, the supervisor does not signal the close, and the close
  call goes on waiting although the connection it closed was dropped and a new one is being
  served.
\<close>

lemma serial_close_can_be_missed:
  "\<exists>s. serial_reachable s \<and> closed_waiters s = 1 \<and> pc s = Serving 1 \<and> serialCloseSignal s = Some 1
     \<and> 0 \<in> closed_chans s"
proof -
  let ?c = "initial_serial\<lparr>closed_chans := {0}, closed_waiters := 1, serialCloseSignal := Some 1, next_chan := Suc 1\<rparr>"
  have "serial_reachable (?c\<lparr>pc := Serving 0\<rparr>)"
    using serial_reachable.step [OF reach_closing serial_step.call_open]
    by (simp add: open_section_def initial_serial_def)
  moreover have "serial_step (?c\<lparr>pc := Serving 0\<rparr>) (?c\<lparr>pc := Dropping 0\<rparr>)"
    using serial_step.supervisor [OF sup_step.close_signalled [of "?c\<lparr>pc := Serving 0\<rparr>" 0]] by simp
  moreover have "serial_step (?c\<lparr>pc := Dropping 0\<rparr>) (?c\<lparr>pc := AtTop\<rparr>)"
    using serial_step.supervisor [OF sup_step.dropped [of "?c\<lparr>pc := Dropping 0\<rparr>" 0]]
    by (simp add: initial_serial_def)
  moreover have "serial_step (?c\<lparr>pc := AtTop\<rparr>) (?c\<lparr>pc := Opening 1\<rparr>)"
    using serial_step.supervisor [OF sup_step.top [of "?c\<lparr>pc := AtTop\<rparr>"]] by (simp add: top_section_def)
  moreover have "serial_step (?c\<lparr>pc := Opening 1\<rparr>) (?c\<lparr>pc := Serving 1\<rparr>)"
    using serial_step.supervisor [OF sup_step.opened [of "?c\<lparr>pc := Opening 1\<rparr>" 1]] by simp
  ultimately have "serial_reachable (?c\<lparr>pc := Serving 1\<rparr>)" by (meson serial_reachable.step)
  then show ?thesis by (intro exI [of _ "?c\<lparr>pc := Serving 1\<rparr>"]) simp
qed

text \<open>
  C40. A close call over the serial connection itself deadlocks: its handler waits for the
  supervisor, the supervisor waits for the connection loop that runs the handler, and no
  sequence of further steps ends this.
\<close>

theorem serial_close_over_serial_deadlocks:
  assumes "serial_reachable s" and "self_waiting s" and "serial_step\<^sup>*\<^sup>* s s'"
  shows "self_waiting s' \<and> (\<exists>ch. pc s' = Serving ch \<or> pc s' = Dropping ch)"
proof -
  from assms(3) have "self_waiting s' \<and> serial_reachable s'"
  proof (induction rule: rtranclp_induct)
    case base
    show ?case using assms(1,2) by blast
  next
    case (step s1 s2)
    then show ?case
      using self_waiting_step [OF step.hyps(2)] serial_reachable_inv serial_reachable.step by blast
  qed
  moreover from this have "serial_inv s'" using serial_reachable_inv by blast
  ultimately show ?thesis unfolding serial_inv_def by blast
qed

theorem serial_close_over_serial_deadlocks_witness:
  "\<exists>s. serial_reachable s \<and> self_waiting s \<and> (\<forall>s'. serial_step\<^sup>*\<^sup>* s s' \<longrightarrow> self_waiting s')"
proof -
  have "close_section (initial_serial\<lparr>pc := Serving 0\<rparr>)
      = (True, initial_serial\<lparr>pc := Serving 0, closed_chans := {0}, serialCloseSignal := None\<rparr>)"
    by (simp add: close_section_def initial_serial_def)
  from serial_reachable.step [OF reach_serving serial_step.call_close_over_serial [OF _ _ this]]
  have "serial_reachable (initial_serial\<lparr>pc := Serving 0, closed_chans := {0}, serialCloseSignal := None,
      self_waiting := True\<rparr>)" (is "serial_reachable ?s")
    by (simp add: initial_serial_def)
  moreover have "self_waiting ?s" by simp
  ultimately show ?thesis using serial_close_over_serial_deadlocks by blast
qed

end
