(* ===== verification/Startup.thy ===== *)
theory Startup
  imports Router_App Network_Props Monitor_Api Hci_Api Serial_Supervisor
begin

text \<open>
  \<open>main\<close> and \<open>startRouter\<close> of \<open>main.go\<close>: the configuration, the listening sockets, and the router with all
  its internal APIs. The state of the internal APIs is one record; a handler of an API works on
  its field. The answers of the operating system differ from call to call, so they come from
  a sequence for each API, indexed by the number of calls so far.

  The relation \<open>process_step\<close> is the running process: the connection loops, the goroutines of the
  monitor and the serial supervisor. Logging and the command run after startup are left out.
\<close>

section \<open>Configuration\<close>

datatype log_level = LevelDebug | LevelInfo

record Config =
  LogLevel :: log_level
  ListenTCPAddr :: string
  ListenUnixAddr :: string
  AfterReadyCommand :: string
  SerialPortAddr :: string
  SerialBaudRate :: "64 word"
  MonitorPortAddr :: string

text \<open>The values of the flags that are not given on the command line.\<close>

definition default_flags :: Config where
  "default_flags =
     \<lparr>LogLevel = LevelInfo, ListenTCPAddr = '''', ListenUnixAddr = ''/var/run/arduino-router.sock'',
      AfterReadyCommand = '''', SerialPortAddr = '''', SerialBaudRate = 115200,
      MonitorPortAddr = ''127.0.0.1:7500''\<rparr>"

text \<open>
  The function \<open>Run\<close> of the command before it starts the router: \<open>changed\<close> is whether the flag
  \<open>unix-port\<close> was given, \<open>env\<close> the value of \<open>ARDUINO_ROUTER_SOCKET\<close>, empty when it is not set.
\<close>

definition effective_config :: "bool \<Rightarrow> bool \<Rightarrow> string \<Rightarrow> Config \<Rightarrow> Config" where
  "effective_config verbose changed env cfg =
     (let cfg1 = cfg\<lparr>LogLevel := (if verbose then LevelDebug else LevelInfo)\<rparr> in
      if \<not> changed then cfg1\<lparr>ListenUnixAddr := (if env \<noteq> '''' then env else ListenUnixAddr cfg1)\<rparr>
      else cfg1)"

section \<open>Listening sockets\<close>

record startup_events =
  ev_net_Listen :: "string \<Rightarrow> string \<Rightarrow> goerror option"
  ev_Chmod :: "goerror option"
  ev_LookupGroup :: "goerror + string"
  ev_Chown :: "int \<Rightarrow> goerror option"

text \<open>What the startup does to the system, in order.\<close>

datatype os_action = OsRemove string | OsListen string string | OsChmod string nat | OsChown string int
  | OsCloseListener string string

definition open_tcp :: "startup_events \<Rightarrow> Config \<Rightarrow> os_action list \<times> (goerror + (string \<times> string) list)" where
  "open_tcp ev cfg =
     (let addr = ListenTCPAddr cfg in
      if addr = '''' then ([], Inr [])
      else case ev_net_Listen ev ''tcp'' addr of
        Some err \<Rightarrow> ([OsListen ''tcp'' addr], Inl (Errorf_w (''failed to listen on TCP port '' @ addr) err))
      | None \<Rightarrow> ([OsListen ''tcp'' addr], Inr [(''tcp'', addr)]))"

text \<open>The group of the socket file: unchanged when the group does not exist.\<close>

definition chown_socket :: "startup_events \<Rightarrow> string \<Rightarrow> os_action list \<times> goerror option" where
  "chown_socket ev addr =
     (case ev_LookupGroup ev of
        Inl _ \<Rightarrow> ([], None)
      | Inr group_id \<Rightarrow>
          (case Atoi group_id of
             None \<Rightarrow> ([], Some (Errorf_w ''invalid gid for group arduino-router'' (ErrorString (Atoi_error group_id))))
           | Some gid \<Rightarrow>
               (case ev_Chown ev gid of
                  Some err \<Rightarrow> ([OsChown addr gid], Some (Errorf_w (''failed to change group of unix socket '' @ addr) err))
                | None \<Rightarrow> ([OsChown addr gid], None))))"

text \<open>The mode 0660 is 432.\<close>

definition open_unix :: "startup_events \<Rightarrow> Config \<Rightarrow> os_action list \<times> (goerror + (string \<times> string) list)" where
  "open_unix ev cfg =
     (let addr = ListenUnixAddr cfg in
      if addr = '''' then ([], Inr [])
      else case ev_net_Listen ev ''unix'' addr of
        Some err \<Rightarrow>
          ([OsRemove addr, OsListen ''unix'' addr], Inl (Errorf_w (''failed to listen on UNIX socket '' @ addr) err))
      | None \<Rightarrow>
          (let acts = [OsRemove addr, OsListen ''unix'' addr, OsChmod addr 432] in
           case ev_Chmod ev of
             Some err \<Rightarrow> (acts, Inl err)
           | None \<Rightarrow>
               (case chown_socket ev addr of
                  (acts2, Some err) \<Rightarrow> (acts @ acts2, Inl err)
                | (acts2, None) \<Rightarrow> (acts @ acts2, Inr [(''unix'', addr)]))))"

lemma open_tcp_done:
  "open_tcp ev cfg = (acts, Inr ls) \<Longrightarrow>
     acts = (if ListenTCPAddr cfg = '''' then [] else [OsListen ''tcp'' (ListenTCPAddr cfg)])
     \<and> ls = (if ListenTCPAddr cfg = '''' then [] else [(''tcp'', ListenTCPAddr cfg)])"
  by (auto simp: open_tcp_def Let_def split: if_splits option.splits)

lemma open_unix_done:
  "open_unix ev cfg = (acts, Inr ls) \<Longrightarrow>
     acts = (if ListenUnixAddr cfg = '''' then []
             else [OsRemove (ListenUnixAddr cfg), OsListen ''unix'' (ListenUnixAddr cfg), OsChmod (ListenUnixAddr cfg) 432]
                  @ fst (chown_socket ev (ListenUnixAddr cfg)))
     \<and> ls = (if ListenUnixAddr cfg = '''' then [] else [(''unix'', ListenUnixAddr cfg)])"
  by (auto simp: open_unix_def Let_def split: if_splits option.splits prod.splits)

section \<open>The internal APIs together\<close>

record 'p app_state =
  net_st :: net_state
  hci_st :: hci_state
  mon_st :: "'p mon_state"
  serial_st :: serial_state
  calls :: nat

record os_env =
  net_env :: "nat \<Rightarrow> net_events"
  hci_env :: "nat \<Rightarrow> hci_events"
  mon_order :: "nat \<Rightarrow> visit_order"

definition initial_app :: "'p \<Rightarrow> 'p app_state" where
  "initial_app p =
     \<lparr>net_st = initial_net, hci_st = initial_hci, mon_st = initial_mon p, serial_st = initial_serial, calls = 0\<rparr>"

text \<open>The handlers of an API as handlers of the router, on the field of their API.\<close>

definition lift_net :: "os_env \<Rightarrow> net_handler \<Rightarrow> 'p app_state RouterRequestHandler" where
  "lift_net E h cid ps a =
     (case h (net_env E (calls a)) ps (net_st a) of (r, st) \<Rightarrow> (r, a\<lparr>net_st := st, calls := Suc (calls a)\<rparr>))"

definition lift_hci :: "os_env \<Rightarrow> hci_handler \<Rightarrow> 'p app_state RouterRequestHandler" where
  "lift_hci E h cid ps a =
     (case h (hci_env E (calls a)) ps (hci_st a) of (r, st) \<Rightarrow> (r, a\<lparr>hci_st := st, calls := Suc (calls a)\<rparr>))"

definition lift_mon :: "os_env \<Rightarrow> 'p mon_handler \<Rightarrow> 'p app_state RouterRequestHandler" where
  "lift_mon E h cid ps a =
     (case h (mon_order E (calls a)) ps (mon_st a) of (r, st) \<Rightarrow> (r, a\<lparr>mon_st := st, calls := Suc (calls a)\<rparr>))"

definition version_handler :: "string \<Rightarrow> 'p app_state RouterRequestHandler" where
  "version_handler Version cid ps a = (Respond (GoString Version) GoNil, a)"

definition serial_open_handler :: "string \<Rightarrow> 'p app_state RouterRequestHandler" where
  "serial_open_handler port cid ps a =
     (case serialOpen port ps (serial_st a) of (r, st) \<Rightarrow> (r, a\<lparr>serial_st := st\<rparr>))"

text \<open>A close call that has to wait for the supervisor blocks its connection loop.\<close>

definition serial_close_handler :: "string \<Rightarrow> 'p app_state RouterRequestHandler" where
  "serial_close_handler port cid ps a =
     (case serialClose port ps (serial_st a) of
        (Some r, st) \<Rightarrow> (r, a\<lparr>serial_st := st\<rparr>)
      | (None, st) \<Rightarrow> (Hang, a\<lparr>serial_st := st\<rparr>))"

section \<open>startRouter\<close>

text \<open>The methods for the serial port; \<open>f.Assert\<close> panics when a registration fails.\<close>

definition register_serial ::
  "string \<Rightarrow> 'p app_state Router \<Rightarrow> 'p app_state Router option" where
  "register_serial port r =
     (if port = '''' then Some r
      else case RegisterMethod ''$/serial/open'' (serial_open_handler port) r of
        (Some err, r1) \<Rightarrow> None
      | (None, r1) \<Rightarrow>
          (case RegisterMethod ''$/serial/close'' (serial_close_handler port) r1 of
             (Some err, r2) \<Rightarrow> None
           | (None, r2) \<Rightarrow> Some r2))"

text \<open>The router with its internal methods; errors in registering the version or the monitor are only logged.\<close>

definition build_router ::
  "bool \<Rightarrow> 'p pipe_ops \<Rightarrow> os_env \<Rightarrow> goerror option \<Rightarrow> string \<Rightarrow> Config \<Rightarrow> 'p app_state Router option" where
  "build_router linux P E mon_err Version cfg =
     (let r1 = Register_network (lift_net E) New;
          r2 = (if linux then Register_hci (lift_hci E) r1 else Register_hci_default r1);
          r3 = snd (RegisterMethod ''$/version'' (version_handler Version) r2);
          r4 = snd (Register_monitor P mon_err (lift_mon E) r3)
      in register_serial (SerialPortAddr cfg) r4)"

text \<open>
  How far \<open>startRouter\<close> comes: it returns an error before the router exists, an assertion fails, or
  it serves the listeners until a signal arrives. The list is what was done to the system.
\<close>

datatype 's start_result = StartFailed goerror | AssertFailed | Serving_on "(string \<times> string) list" "'s Router"

definition startRouter ::
  "bool \<Rightarrow> 'p pipe_ops \<Rightarrow> os_env \<Rightarrow> startup_events \<Rightarrow> string \<Rightarrow> Config
     \<Rightarrow> os_action list \<times> 'p app_state start_result" where
  "startRouter linux P E ev Version cfg =
     (case open_tcp ev cfg of
        (a1, Inl err) \<Rightarrow> (a1, StartFailed err)
      | (a1, Inr l1) \<Rightarrow>
          (case open_unix ev cfg of
             (a2, Inl err) \<Rightarrow> (a1 @ a2, StartFailed err)
           | (a2, Inr l2) \<Rightarrow>
               (case build_router linux P E (ev_net_Listen ev ''tcp'' (MonitorPortAddr cfg)) Version cfg of
                  None \<Rightarrow> (a1 @ a2 @ [OsListen ''tcp'' (MonitorPortAddr cfg)], AssertFailed)
                | Some r \<Rightarrow> (a1 @ a2 @ [OsListen ''tcp'' (MonitorPortAddr cfg)], Serving_on (l1 @ l2) r))))"

section \<open>The table of internal methods\<close>

definition internal_table ::
  "bool \<Rightarrow> 'p pipe_ops \<Rightarrow> os_env \<Rightarrow> bool \<Rightarrow> string \<Rightarrow> string \<Rightarrow> (string \<times> 'p app_state RouterRequestHandler) list" where
  "internal_table linux P E monitor Version port =
     map (\<lambda>(m, h). (m, lift_net E h)) network_methods @
     (if linux then map (\<lambda>(m, h). (m, lift_hci E h)) hci_methods else []) @
     [(''$/version'', version_handler Version)] @
     (if monitor then map (\<lambda>(m, h). (m, lift_mon E h)) (monitor_methods P) else []) @
     (if port \<noteq> ''''
      then [(''$/serial/open'', serial_open_handler port), (''$/serial/close'', serial_close_handler port)] else [])"

lemma map_of_map_lift: "map_of (map (\<lambda>(m, h). (m, f h)) table) x = map_option f (map_of table x)"
  by (induction table) auto

lemma method_names:
  "map fst network_methods =
     [''tcp/connect'', ''tcp/listen'', ''tcp/closeListener'', ''tcp/accept'', ''tcp/read'', ''tcp/write'', ''tcp/close'',
      ''tcp/connectSSL'', ''udp/connect'', ''udp/beginPacket'', ''udp/write'', ''udp/endPacket'', ''udp/awaitPacket'',
      ''udp/read'', ''udp/dropPacket'', ''udp/close'']"
  "map fst hci_methods = [''hci/open'', ''hci/send'', ''hci/recv'', ''hci/avail'', ''hci/close'']"
  "map fst (monitor_methods P) = [''mon/connected'', ''mon/read'', ''mon/write'', ''mon/reset'']"
  by (simp_all add: network_methods_def hci_methods_def monitor_methods_def)

lemma fst_lift: "map fst (map (\<lambda>(m, h). (m, f h)) table) = map fst table"
  by (induction table) auto

definition internal_names :: "bool \<Rightarrow> bool \<Rightarrow> bool \<Rightarrow> string list" where
  "internal_names linux monitor serial =
     [''tcp/connect'', ''tcp/listen'', ''tcp/closeListener'', ''tcp/accept'', ''tcp/read'', ''tcp/write'', ''tcp/close'',
      ''tcp/connectSSL'', ''udp/connect'', ''udp/beginPacket'', ''udp/write'', ''udp/endPacket'', ''udp/awaitPacket'',
      ''udp/read'', ''udp/dropPacket'', ''udp/close''] @
     (if linux then [''hci/open'', ''hci/send'', ''hci/recv'', ''hci/avail'', ''hci/close''] else []) @
     [''$/version''] @
     (if monitor then [''mon/connected'', ''mon/read'', ''mon/write'', ''mon/reset''] else []) @
     (if serial then [''$/serial/open'', ''$/serial/close''] else [])"

lemma internal_table_names:
  "map fst (internal_table linux P E monitor Version port) = internal_names linux monitor (port \<noteq> '''')"
  unfolding internal_table_def internal_names_def map_append
  by (simp only: fst_lift method_names if_distrib [of "map fst"] list.map fst_conv)

lemma internal_names_distinct: "distinct (internal_names linux monitor serial)"
  unfolding internal_names_def by (cases linux; cases monitor; cases serial; simp)

lemma internal_names_not_builtin: "set (internal_names linux monitor serial) \<inter> set builtin_methods = {}"
  unfolding internal_names_def builtin_methods_def by (cases linux; cases monitor; cases serial; simp)

text \<open>Registration appends to the table.\<close>

lemma register_all_table:
  "routesInternal r = map_of T \<Longrightarrow>
     routesInternal (register_all table lift r) = map_of (T @ map (\<lambda>(m, h). (m, lift h)) table)"
  by (rule ext) (simp add: routesInternal_register_all map_add_def map_of_map_lift split: option.split)

lemma RegisterMethod_table:
  "routesInternal r = map_of T \<Longrightarrow> routesInternal (snd (RegisterMethod m h r)) = map_of (T @ [(m, h)])"
  by (rule ext) (simp add: routesInternal_RegisterMethod map_add_def split: option.split)

lemma RegisterMethod_fresh:
  "\<lbrakk> routesInternal r = map_of T; m \<notin> set (map fst T) \<rbrakk> \<Longrightarrow> fst (RegisterMethod m h r) = None"
  by (simp add: RegisterMethod_def map_of_eq_None_iff [THEN iffD2] split: option.split)

definition common_table ::
  "bool \<Rightarrow> 'p pipe_ops \<Rightarrow> os_env \<Rightarrow> bool \<Rightarrow> string \<Rightarrow> (string \<times> 'p app_state RouterRequestHandler) list" where
  "common_table linux P E monitor Version = internal_table linux P E monitor Version ''''"

lemma internal_table_serial:
  "port \<noteq> '''' \<Longrightarrow>
     internal_table linux P E monitor Version port =
       (common_table linux P E monitor Version @ [(''$/serial/open'', serial_open_handler port)])
       @ [(''$/serial/close'', serial_close_handler port)]"
  by (simp add: internal_table_def common_table_def)

lemma register_serial_table:
  assumes "routesInternal r = map_of (common_table linux P E monitor Version)" and "routes r = Map.empty"
  shows "\<exists>r'. register_serial port r = Some r' \<and> routes r' = Map.empty
     \<and> routesInternal r' = map_of (internal_table linux P E monitor Version port)"
proof (cases "port = ''''")
  case True
  with assms show ?thesis by (simp add: register_serial_def common_table_def)
next
  case False
  let ?h1 = "serial_open_handler port" and ?h2 = "serial_close_handler port"
  let ?r1 = "snd (RegisterMethod ''$/serial/open'' ?h1 r)"
  let ?T = "common_table linux P E monitor Version @ [(''$/serial/open'', ?h1)]"
  have "distinct (map fst (?T @ [(''$/serial/close'', ?h2)]))"
    using internal_names_distinct [of linux monitor True] internal_table_names [of linux P E monitor Version port] False
    by (simp only: internal_table_serial [OF False, symmetric] simp_thms)
  then have "''$/serial/open'' \<notin> set (map fst (common_table linux P E monitor Version))"
    "''$/serial/close'' \<notin> set (map fst ?T)" by auto
  with assms(1) have e: "fst (RegisterMethod ''$/serial/open'' ?h1 r) = None"
    "fst (RegisterMethod ''$/serial/close'' ?h2 ?r1) = None" and r: "routesInternal ?r1 = map_of ?T"
    using RegisterMethod_fresh RegisterMethod_table by blast+
  from RegisterMethod_table [OF r, of "''$/serial/close''" ?h2]
  have "routesInternal (snd (RegisterMethod ''$/serial/close'' ?h2 ?r1)) = map_of (internal_table linux P E monitor Version port)"
    by (simp only: internal_table_serial [OF False])
  with e False assms(2) show ?thesis
    by (auto simp: register_serial_def split: prod.split option.split) (metis routes_RegisterMethod snd_conv)
qed

lemma New_table: "routesInternal New = map_of []" "routes New = Map.empty"
  by (simp_all add: New_def)

lemma build_router_table:
  "\<exists>r. build_router linux P E mon_err Version cfg = Some r \<and> routes r = Map.empty
     \<and> routesInternal r = map_of (internal_table linux P E (mon_err = None) Version (SerialPortAddr cfg))"
proof -
  define net where "net = map (\<lambda>(m, h). (m, lift_net E h :: 'a app_state RouterRequestHandler)) network_methods"
  define hci where "hci = (if linux then map (\<lambda>(m, h). (m, lift_hci E h :: 'a app_state RouterRequestHandler)) hci_methods else [])"
  define r1 where "r1 = Register_network (lift_net E) (New :: 'a app_state Router)"
  define r2 where "r2 = (if linux then Register_hci (lift_hci E) r1 else Register_hci_default r1)"
  define r3 where "r3 = snd (RegisterMethod ''$/version'' (version_handler Version) r2)"
  define r4 where "r4 = snd (Register_monitor P mon_err (lift_mon E) r3)"
  have "routesInternal r1 = map_of net"
    using register_all_table [OF New_table(1), of network_methods] by (simp add: r1_def Register_network_def net_def)
  then have "routesInternal r2 = map_of (net @ hci)"
    using register_all_table [of r1 net hci_methods "lift_hci E"]
    by (simp add: r2_def hci_def Register_hci_def Register_hci_default_def)
  then have r3: "routesInternal r3 = map_of ((net @ hci) @ [(''$/version'', version_handler Version)])"
    unfolding r3_def by (rule RegisterMethod_table)
  have "common_table linux P E mon Version = ((net @ hci) @ [(''$/version'', version_handler Version)])
      @ (if mon then map (\<lambda>(m, h). (m, lift_mon E h)) (monitor_methods P) else [])" for mon
    by (simp add: common_table_def internal_table_def net_def hci_def)
  with r3 register_all_table [OF r3, of "monitor_methods P" "lift_mon E"]
  have "routesInternal r4 = map_of (common_table linux P E (mon_err = None) Version)"
    by (cases mon_err) (simp_all only: r4_def Register_monitor_def option.case snd_conv simp_thms if_True if_False
          option.distinct append_Nil2)
  moreover have "routes r4 = Map.empty"
    by (cases mon_err) (simp_all add: r4_def r3_def r2_def r1_def Register_monitor_def Register_hci_def
          Register_hci_default_def Register_network_def New_table)
  moreover have "build_router linux P E mon_err Version cfg = register_serial (SerialPortAddr cfg) r4"
    by (simp only: build_router_def Let_def r1_def r2_def r3_def r4_def)
  ultimately show ?thesis
    using register_serial_table [of r4 linux P E "mon_err = None" Version "SerialPortAddr cfg"] by simp
qed

section \<open>The invariant of the internal APIs\<close>

definition app_ok :: "'p app_state \<Rightarrow> bool" where
  "app_ok a \<longleftrightarrow> net_inv (net_st a) \<and> hci_inv (hci_st a) \<and> sockets_ok (mon_st a) \<and> serial_inv (serial_st a)"

lemma app_ok_initial: "app_ok (initial_app p)"
  by (simp add: app_ok_def initial_app_def net_inv_initial hci_inv_initial serial_inv_initial
        sockets_ok_def initial_mon_def)

lemma lift_net_ok: "\<lbrakk> (m, h) \<in> set network_methods; app_ok a \<rbrakk> \<Longrightarrow> app_ok (snd (lift_net E h cid ps a))"
  using net_api.keeps_inv [of m h "net_st a" "net_env E (calls a)" ps]
  by (simp add: app_ok_def lift_net_def split: prod.split) fastforce

lemma lift_hci_ok:
  "\<lbrakk> (m, h) \<in> set hci_methods; app_ok a; sane_events (hci_env E (calls a)) \<rbrakk> \<Longrightarrow> app_ok (snd (lift_hci E h cid ps a))"
  using hci_api.keeps_inv [of m h "hci_env E (calls a)" "hci_st a" ps]
  by (simp add: app_ok_def lift_hci_def split: prod.split) fastforce

lemma lift_mon_ok: "\<lbrakk> (m, h) \<in> set (monitor_methods P); app_ok a \<rbrakk> \<Longrightarrow> app_ok (snd (lift_mon E h cid ps a))"
  using mon_api.keeps_inv [of m h P "mon_st a" "mon_order E (calls a)" ps]
  by (simp add: app_ok_def lift_mon_def split: prod.split) fastforce

lemma version_ok: "app_ok a \<Longrightarrow> app_ok (snd (version_handler Version cid ps a))"
  by (simp add: version_handler_def)

lemma serial_open_ok: "app_ok a \<Longrightarrow> app_ok (snd (serial_open_handler port cid ps a))"
  by (auto simp: app_ok_def serial_open_handler_def serialOpen_def succeed_def open_section_inv
       split: option.split prod.split)

lemma serialClose_inv: "serial_inv s \<Longrightarrow> serial_inv (snd (serialClose port ps s))"
  using close_section_inv [of s "fst (close_section s)" "snd (close_section s)"]
  by (cases "fst (close_section s)")
     (auto simp: serialClose_def split: option.split prod.split bool.split)

lemma serial_close_ok: "app_ok a \<Longrightarrow> app_ok (snd (serial_close_handler port cid ps a))"
  using serialClose_inv [of "serial_st a" port ps]
  by (auto simp: app_ok_def serial_close_handler_def split: option.split prod.split)

text \<open>The kernel only hands out descriptors that are not negative.\<close>

definition sane_env :: "os_env \<Rightarrow> bool" where
  "sane_env E \<longleftrightarrow> (\<forall>n. sane_events (hci_env E n))"

lemma internal_table_ok:
  assumes "(m, h) \<in> set (internal_table linux P E monitor Version port)" and "sane_env E" and "app_ok a"
  shows "app_ok (snd (h cid ps a))"
  using assms lift_net_ok lift_hci_ok lift_mon_ok version_ok serial_open_ok serial_close_ok
  by (fastforce simp: internal_table_def sane_env_def split: if_splits)

definition env_app_ok :: "os_env \<Rightarrow> 'p app_state \<Rightarrow> bool" where
  "env_app_ok E a \<longleftrightarrow> (sane_env E \<longrightarrow> app_ok a)"

interpretation process: internal_handlers "map_of (internal_table linux P E monitor Version port)" "env_app_ok E"
  for linux P E monitor Version port
  by unfold_locales (auto simp: env_app_ok_def dest: map_of_SomeD internal_table_ok)

section \<open>Accepting connections\<close>

text \<open>
  The goroutine of a listener: every accepted connection gets a connection loop; the first error
  ends the goroutine. A connection is new, and open.
\<close>

fun accept_loop :: "(goerror + conn_id \<times> out_stream) list \<Rightarrow> 's system \<Rightarrow> 's system" where
  "accept_loop [] s = s"
| "accept_loop (Inl err # rest) s = s"
| "accept_loop (Inr (cid, out) # rest) s =
     accept_loop rest (s\<lparr>wrld := acceptConnection cid out (wrld s), alive := insert cid (alive s)\<rparr>)"

fun new_conns :: "(goerror + conn_id \<times> out_stream) list \<Rightarrow> (conn_id \<Rightarrow> bool) \<Rightarrow> bool" where
  "new_conns [] used = True"
| "new_conns (Inl err # rest) used = True"
| "new_conns (Inr (cid, out) # rest) used = (\<not> used cid \<and> \<not> out_closed out \<and> new_conns rest (\<lambda>c. c = cid \<or> used c))"

lemma accept_loop_steps:
  "new_conns results (\<lambda>c. conns (wrld s) c \<noteq> None) \<Longrightarrow> (sys_step M)\<^sup>*\<^sup>* s (accept_loop results s)"
proof (induction results s rule: accept_loop.induct)
  case (3 cid out rest s)
  let ?s = "s\<lparr>wrld := acceptConnection cid out (wrld s), alive := insert cid (alive s)\<rparr>"
  from 3(2) have "sys_step M s ?s" by (intro sys_step.accept) auto
  moreover have "(\<lambda>c. conns (wrld ?s) c \<noteq> None) = (\<lambda>c. c = cid \<or> conns (wrld s) c \<noteq> None)"
    by (auto simp: acceptConnection_def fun_eq_iff)
  with 3 have "(sys_step M)\<^sup>*\<^sup>* ?s (accept_loop rest ?s)" by simp
  ultimately show ?case by (simp add: converse_rtranclp_into_rtranclp)
qed simp_all

text \<open>The shutdown after a signal: every listener is closed, errors are only logged.\<close>

definition shutdown :: "(string \<times> string) list \<Rightarrow> os_action list" where
  "shutdown listeners = map (\<lambda>(network, addr). OsCloseListener network addr) listeners"

section \<open>The stream of the serial port\<close>

text \<open>
  \<open>MsgpackDebugStream\<close> logs what passes through it. The operations of the stream below it are a
  parameter; the log is a list of messages with their data.
\<close>

record 'u MsgpackDebugStream =
  Upstream :: 'u
  Name :: string

record 'u stream_ops =
  up_Read :: "'u \<Rightarrow> nat \<Rightarrow> (bytes \<times> goerror option) \<times> 'u"
  up_Write :: "'u \<Rightarrow> bytes \<Rightarrow> (nat \<times> goerror option) \<times> 'u"
  up_Close :: "'u \<Rightarrow> goerror option \<times> 'u"

definition hex_digit :: "nat \<Rightarrow> char" where
  "hex_digit d = (if d < 10 then digit_char d else char_of (87 + d))"

definition hex_EncodeToString :: "bytes \<Rightarrow> string" where
  "hex_EncodeToString bs = concat (map (\<lambda>b. [hex_digit (unat b div 16), hex_digit (unat b mod 16)]) bs)"

definition debug_Read ::
  "'u stream_ops \<Rightarrow> nat \<Rightarrow> 'u MsgpackDebugStream
     \<Rightarrow> (bytes \<times> goerror option) \<times> (string \<times> string) \<times> 'u MsgpackDebugStream" where
  "debug_Read up n d =
     (case up_Read up (Upstream d) n of ((b, err), u) \<Rightarrow>
        ((b, err),
         (case err of
            Some e \<Rightarrow> (''Read error from '' @ Name d, Error e)
          | None \<Rightarrow> (''Read from '' @ Name d, hex_EncodeToString b)),
         d\<lparr>Upstream := u\<rparr>))"

definition debug_Write ::
  "'u stream_ops \<Rightarrow> bytes \<Rightarrow> 'u MsgpackDebugStream
     \<Rightarrow> (nat \<times> goerror option) \<times> (string \<times> string) \<times> 'u MsgpackDebugStream" where
  "debug_Write up p d =
     (case up_Write up (Upstream d) p of ((n, err), u) \<Rightarrow>
        ((n, err),
         (case err of
            Some e \<Rightarrow> (''Write error to '' @ Name d, Error e)
          | None \<Rightarrow> (''Write to  '' @ Name d, hex_EncodeToString (take n p))),
         d\<lparr>Upstream := u\<rparr>))"

definition debug_Close :: "'u stream_ops \<Rightarrow> 'u MsgpackDebugStream \<Rightarrow> goerror option \<times> 'u MsgpackDebugStream" where
  "debug_Close up d = (case up_Close up (Upstream d) of (err, u) \<Rightarrow> (err, d\<lparr>Upstream := u\<rparr>))"

text \<open>The stream is transparent: what the router reads and writes is what the port reads and writes.\<close>

lemma debug_stream_transparent:
  "fst (debug_Read up n d) = fst (up_Read up (Upstream d) n)"
  "Upstream (snd (snd (debug_Read up n d))) = snd (up_Read up (Upstream d) n)"
  "fst (debug_Write up p d) = fst (up_Write up (Upstream d) p)"
  "Upstream (snd (snd (debug_Write up p d))) = snd (up_Write up (Upstream d) p)"
  "fst (debug_Close up d) = fst (up_Close up (Upstream d))"
  "Upstream (snd (debug_Close up d)) = snd (up_Close up (Upstream d))"
  by (simp_all add: debug_Read_def debug_Write_def debug_Close_def split: prod.split)

section \<open>The running process\<close>

text \<open>
  The steps of the connection loops, of the goroutines of the monitor, and of the serial supervisor
  and the calls of the serial methods that have to wait. A monitor connection is new when it
  is accepted.
\<close>

fun mon_event_new :: "mon_event \<Rightarrow> 'p mon_state \<Rightarrow> bool" where
  "mon_event_new (Accepted conn out) st = (conn \<notin> set (map fst (sockets st)))"
| "mon_event_new _ st = True"

inductive process_step :: "msgpack \<Rightarrow> 'p pipe_ops \<Rightarrow> 'p app_state system \<Rightarrow> 'p app_state system \<Rightarrow> bool"
  for M :: msgpack and P :: "'p pipe_ops" where
  connections: "sys_step M s s' \<Longrightarrow> process_step M P s s'"
| monitor:
    "\<lbrakk> a = app (wrld s); mon_event_new ev (mon_st a) \<rbrakk> \<Longrightarrow>
     process_step M P s (set_app (a\<lparr>mon_st := connectionHandler P ev (mon_st a)\<rparr>) s)"
| serial:
    "\<lbrakk> a = app (wrld s); serial_step (serial_st a) st \<rbrakk> \<Longrightarrow> process_step M P s (set_app (a\<lparr>serial_st := st\<rparr>) s)"

text \<open>The process starts with the router that \<open>startRouter\<close> built.\<close>

inductive process_reachable ::
  "msgpack \<Rightarrow> 'p pipe_ops \<Rightarrow> 'p app_state Router \<Rightarrow> 'p app_state system \<Rightarrow> bool"
  for M :: msgpack and P :: "'p pipe_ops" and r :: "'p app_state Router" where
  start: "process_reachable M P r (initial (routesInternal r) (initial_app p))"
| step: "\<lbrakk> process_reachable M P r s; process_step M P s s' \<rbrakk> \<Longrightarrow> process_reachable M P r s'"

lemma connectionHandler_ok:
  "\<lbrakk> sockets_ok st; mon_event_new ev st \<rbrakk> \<Longrightarrow> sockets_ok (connectionHandler P ev st)"
proof (induction P ev st rule: connectionHandler.induct)
  case (2 P conn buff st)
  then show ?case
    using mon_close_ok [of "st\<lparr>monSendPipe := p\<rparr>" conn for p]
    by (auto simp: sockets_ok_def mon_close_def distinct_filter_keys split: prod.split option.split)
qed (simp_all add: sockets_ok_def mon_close_def distinct_filter_keys)

lemma process_reachable_inv:
  assumes "process_reachable M P r s" and "routesInternal r = map_of (internal_table linux P E monitor Version port)"
  shows "process.sys_app_inv linux P E monitor Version port s \<and> live_inv s"
  using assms(1)
proof (induction rule: process_reachable.induct)
  case (start p)
  have "live_inv (initial (routesInternal r) (initial_app p))"
    using sys_reachable_live_inv [OF sys_reachable.start] .
  moreover have "env_app_ok E (initial_app p)" by (simp add: env_app_ok_def app_ok_initial)
  ultimately show ?case unfolding assms(2) by (blast intro: process.sys_app_inv_initial)
next
  case (step s s')
  from step.hyps(2) show ?case
  proof cases
    case connections
    with step.IH show ?thesis by (blast intro: process.sys_app_inv_step sys_step_live_inv)
  next
    case (monitor a ev)
    then have "env_app_ok E a \<Longrightarrow> env_app_ok E (a\<lparr>mon_st := connectionHandler P ev (mon_st a)\<rparr>)"
      by (simp add: env_app_ok_def app_ok_def connectionHandler_ok)
    with step.IH monitor show ?thesis by (auto intro: process.sys_app_inv_set_app)
  next
    case (serial a st)
    then have "env_app_ok E a \<Longrightarrow> env_app_ok E (a\<lparr>serial_st := st\<rparr>)"
      using serial_step_inv by (auto simp: env_app_ok_def app_ok_def)
    with step.IH serial show ?thesis by (auto intro: process.sys_app_inv_set_app)
  qed
qed

lemma startRouter_router:
  "startRouter linux P E ev Version cfg = (acts, Serving_on ls r) \<Longrightarrow>
     routesInternal r = map_of (internal_table linux P E
       (ev_net_Listen ev ''tcp'' (MonitorPortAddr cfg) = None) Version (SerialPortAddr cfg))"
  using build_router_table [of linux P E "ev_net_Listen ev ''tcp'' (MonitorPortAddr cfg)" Version cfg]
  by (auto simp: startRouter_def split: prod.splits sum.splits)

text \<open>The methods that can panic, as the router calls them.\<close>

lemma tcp_handlers:
  "map_of (internal_table linux P E monitor Version port) ''tcp/connectSSL'' = Some (lift_net E tcpConnectSSL)"
  "map_of (internal_table linux P E monitor Version port) ''tcp/read'' = Some (lift_net E tcpRead)"
  by (simp_all add: internal_table_def map_of_map_lift network_methods_def)

lemma fst_lift_net: "fst (lift_net E h cid ps a) = fst (h (net_env E (calls a)) ps (net_st a))"
  by (simp add: lift_net_def split: prod.split)

section \<open>Properties\<close>

text \<open>
  C34. The outcome of \<open>startRouter\<close>: it fails only when a listening socket cannot be set up, and with
  that error; the assertions on the registration never fail; otherwise it serves the
  configured sockets, having removed a stale socket file before listening and restricted its
  mode, with a router that has no routes of clients and exactly the internal methods of the
  configured APIs, each with its own handler and none hidden by a built-in method.
\<close>

theorem startRouter_outcome:
  "case startRouter linux P E ev Version cfg of
     (acts, StartFailed err) \<Rightarrow> snd (open_tcp ev cfg) = Inl err \<or> snd (open_unix ev cfg) = Inl err
   | (acts, AssertFailed) \<Rightarrow> False
   | (acts, Serving_on ls r) \<Rightarrow>
       ls = (if ListenTCPAddr cfg = '''' then [] else [(''tcp'', ListenTCPAddr cfg)]) @
            (if ListenUnixAddr cfg = '''' then [] else [(''unix'', ListenUnixAddr cfg)])
       \<and> acts = (if ListenTCPAddr cfg = '''' then [] else [OsListen ''tcp'' (ListenTCPAddr cfg)]) @
            (if ListenUnixAddr cfg = '''' then []
             else [OsRemove (ListenUnixAddr cfg), OsListen ''unix'' (ListenUnixAddr cfg), OsChmod (ListenUnixAddr cfg) 432]
                  @ fst (chown_socket ev (ListenUnixAddr cfg))) @
            [OsListen ''tcp'' (MonitorPortAddr cfg)]
       \<and> routes r = Map.empty
       \<and> routesInternal r = map_of (internal_table linux P E
             (ev_net_Listen ev ''tcp'' (MonitorPortAddr cfg) = None) Version (SerialPortAddr cfg))
       \<and> dom (routesInternal r) = set (internal_names linux
             (ev_net_Listen ev ''tcp'' (MonitorPortAddr cfg) = None) (SerialPortAddr cfg \<noteq> ''''))
       \<and> dom (routesInternal r) \<inter> set builtin_methods = {}"
proof -
  let ?mon = "ev_net_Listen ev ''tcp'' (MonitorPortAddr cfg)"
  obtain r where r: "build_router linux P E ?mon Version cfg = Some r" "routes r = Map.empty"
    "routesInternal r = map_of (internal_table linux P E (?mon = None) Version (SerialPortAddr cfg))"
    using build_router_table by blast
  have d: "dom (routesInternal r) = set (internal_names linux (?mon = None) (SerialPortAddr cfg \<noteq> ''''))"
    unfolding r(3) dom_map_of_conv_image_fst
    using internal_table_names [of linux P E "?mon = None" Version "SerialPortAddr cfg"] by (metis set_map)
  then have "dom (routesInternal r) \<inter> set builtin_methods = {}" using internal_names_not_builtin by simp
  with r d open_tcp_done [of ev cfg] open_unix_done [of ev cfg] show ?thesis
    by (cases "open_tcp ev cfg"; cases "snd (open_tcp ev cfg)"; cases "open_unix ev cfg"; cases "snd (open_unix ev cfg)")
       (simp_all add: startRouter_def)
qed


definition quiet_startup :: startup_events where
  "quiet_startup =
     \<lparr>ev_net_Listen = (\<lambda>_ _. None), ev_Chmod = None, ev_LookupGroup = Inl (ErrorString ''unknown group''),
      ev_Chown = (\<lambda>_. None)\<rparr>"

definition quiet_env :: os_env where
  "quiet_env = \<lparr>net_env = (\<lambda>_. quiet_events), hci_env = (\<lambda>_. good_hci_events), mon_order = (\<lambda>_ order. order)\<rparr>"

lemma quiet_start:
  "\<exists>acts ls r. startRouter True list_pipe quiet_env quiet_startup ''1.0'' default_flags = (acts, Serving_on ls r)"
proof -
  obtain r where r: "build_router True list_pipe quiet_env None ''1.0'' default_flags = Some r"
    using build_router_table by blast
  have "ListenTCPAddr default_flags = ''''" "ListenUnixAddr default_flags = ''/var/run/arduino-router.sock''"
    by (simp_all add: default_flags_def)
  with r show ?thesis
    by (simp add: startRouter_def open_tcp_def open_unix_def chown_socket_def quiet_startup_def Let_def)
qed


text \<open>
  C38. Single requests that stop the whole router, whatever the configuration: \<open>tcp/connectSSL\<close> with
  one parameter, \<open>tcp/read\<close> on a live connection with a size the allocator cannot provide, and
  \<open>$/setMaxMsgSize\<close> with such a size.
\<close>

theorem requests_crash_router:
  assumes "startRouter linux P E ev Version cfg = (acts, Serving_on ls r)"
    and "routesInternal (router w) = routesInternal r"
    and "liveConnections (net_st (app w)) i = Some conn" and "conns w cid = Some c"
  shows "handleRequest M cid mid ''tcp/connectSSL'' [GoString host] w = Crashed
     \<and> handleRequest M cid mid ''tcp/read'' [GoUint i, GoUint (2 ^ 62)] w = Crashed
     \<and> handleRequest M cid mid ''$/setMaxMsgSize'' [GoInt64 (2 ^ 62)] w = Crashed"
proof -
  note r = assms(2) [unfolded startRouter_router [OF assms(1)]]
  have ps: "decoded_params M [GoString host] = [GoString host]"
    "decoded_params M [GoUint i, GoUint (2 ^ 62)] = [GoUint i, GoUint (2 ^ 62)]"
    by (simp_all add: decoded_params_eq decode_param_def)
  have "handleRequest M cid mid ''tcp/connectSSL'' [GoString host] w = Crashed"
    by (rule handleRequest_internal_panic [where h = "lift_net E tcpConnectSSL"])
       (simp_all only: r tcp_handlers fst_lift_net ps tcpConnectSSL_panics, simp add: builtin_methods_def)
  moreover have "handleRequest M cid mid ''tcp/read'' [GoUint i, GoUint (2 ^ 62)] w = Crashed"
    by (rule handleRequest_internal_panic [where h = "lift_net E tcpRead"])
       (simp_all only: r tcp_handlers fst_lift_net ps tcpRead_panics [OF assms(3)], simp add: builtin_methods_def)
  ultimately show ?thesis using set_max_huge_crashes [OF assms(4)] by blast
qed

theorem requests_crash_router_witness:
  "\<exists>w :: bytes app_state world. handleRequest mp_codec 1 9 ''tcp/connectSSL'' [GoString ''host''] w = Crashed"
proof -
  obtain acts ls r where st: "startRouter True list_pipe quiet_env quiet_startup ''1.0'' default_flags = (acts, Serving_on ls r)"
    using quiet_start by blast
  define w where "w = \<lparr>router = r, conns = [1 \<mapsto> NewConnection new_stream],
     app = (initial_app [])\<lparr>net_st := initial_net\<lparr>liveConnections := [1 \<mapsto> new_stream]\<rparr>\<rparr>\<rparr>"
  have "routesInternal (router w) = routesInternal r" "liveConnections (net_st (app w)) 1 = Some new_stream"
    "conns w 1 = Some (NewConnection new_stream)"
    by (simp_all add: w_def)
  from requests_crash_router [OF st this] show ?thesis by blast
qed

end
