(* ===== verification/Programs.thy ===== *)
theory Programs
  imports Startup Cli
begin

text \<open>
  The main functions of the two programs, \<open>main.go\<close> and \<open>cmd/arduino-router-cli/main.go\<close>: what they do from the parsed command line to
  the exit status. Parsing the flags is cobra's; what it finds is an argument. A printed line is
  a text or a value that \<open>print\<close> writes as JSON.
\<close>

section \<open>The router\<close>

text \<open>The command run after startup: what its goroutine ends with.\<close>

datatype after_ready_outcome = NotConfigured | NotCreated goerror | NotExecuted goerror | Executed "string list"

definition after_ready :: "goerror option \<Rightarrow> goerror option \<Rightarrow> Config \<Rightarrow> after_ready_outcome" where
  "after_ready new_err run_err cfg =
     (if AfterReadyCommand cfg = '''' then NotConfigured
      else case new_err of
        Some err \<Rightarrow> NotCreated err
      | None \<Rightarrow>
          (case run_err of
             Some err \<Rightarrow> NotExecuted err
           | None \<Rightarrow> Executed [''sh'', ''-c'', AfterReadyCommand cfg]))"

text \<open>
  The command itself, from its flags to the exit status: \<open>startRouter\<close> returns an error at once, panics on a failed assertion, or
  serves until a signal and then closes its listeners and returns.
\<close>

definition router_command ::
  "bool \<Rightarrow> 'p pipe_ops \<Rightarrow> os_env \<Rightarrow> startup_events \<Rightarrow> string \<Rightarrow> bool \<Rightarrow> bool \<Rightarrow> string \<Rightarrow> Config
     \<Rightarrow> os_action list \<times> nat" where
  "router_command linux P E ev Version verbose changed env cfg =
     (case startRouter linux P E ev Version (effective_config verbose changed env cfg) of
        (acts, StartFailed err) \<Rightarrow> (acts, 1)
      | (acts, AssertFailed) \<Rightarrow> (acts, 2)
      | (acts, Serving_on ls r) \<Rightarrow> (acts @ shutdown ls, 0))"

definition version_command :: "string \<Rightarrow> string" where
  "version_command Version = ''Arduino Router '' @ Version"

section \<open>The command line client\<close>

record cli_options =
  opt_notification :: bool
  opt_server :: string
  opt_verbose :: bool

definition default_cli_options :: cli_options where
  "default_cli_options =
     \<lparr>opt_notification = False, opt_server = ''/var/run/arduino-router.sock'', opt_verbose = False\<rparr>"

datatype cli_line = CliText string | CliJson any

text \<open>
  \<open>send\<close>: \<open>dial\<close> is the result of dialling, \<open>reply_of\<close> what the notification or the request on the new connection ends with.
\<close>

definition cli_dial_send ::
  "(string \<Rightarrow> string \<Rightarrow> goerror option) \<Rightarrow> (string \<Rightarrow> any list \<Rightarrow> bool \<Rightarrow> goerror + any \<times> any) \<Rightarrow> string \<Rightarrow> string
     \<Rightarrow> any list \<Rightarrow> bool \<Rightarrow> goerror + any \<times> any" where
  "cli_dial_send dial reply_of server method args notification =
     (case dial (netType server) server of
        Some err \<Rightarrow> Inl (Errorf_w ''error connecting to server'' err)
      | None \<Rightarrow>
          if notification
          then (case reply_of method args True of
                  Inl err \<Rightarrow> Inl (Errorf_w ''error sending notification'' err)
                | Inr _ \<Rightarrow> Inr (GoNil, GoNil))
          else (case reply_of method args False of
                  Inl err \<Rightarrow> Inl (Errorf_w ''error sending request'' err)
                | Inr x \<Rightarrow> Inr x))"

definition cli_report :: "cli_options \<Rightarrow> string \<Rightarrow> any list \<Rightarrow> goerror + any \<times> any \<Rightarrow> cli_line list \<times> nat" where
  "cli_report opts method args ans =
     (case ans of
        Inl err \<Rightarrow> ([CliText (''Error sending request: '' @ Error err)], 1)
      | Inr (rpcResp, rpcErr) \<Rightarrow>
          (let q = [CHR 0x27];
               intro = (if opt_verbose opts
                 then [CliText ((if opt_notification opts then ''Sending notification'' else ''Sending request'')
                          @ '' for method '' @ q @ method @ q @ '', with parameters: ''), CliJson (GoSlice args)]
                 else []);
               label = (\<lambda>txt. if opt_verbose opts then [CliText txt] else [])
           in if \<not> opt_notification opts then
                if rpcErr \<noteq> GoNil then (intro @ label ''Got RPC error: '' @ [CliJson rpcErr], 1)
                else if rpcResp \<noteq> GoNil then (intro @ label ''Got RPC response: '' @ [CliJson rpcResp], 0)
                else (intro, 0)
              else (intro, 0)))"

text \<open>
  \<open>None\<close> stands for a panic. Without a method name cobra refuses the call, and the program exits with 200.
\<close>

definition cli_main ::
  "float_parser \<Rightarrow> (string \<Rightarrow> string \<Rightarrow> goerror option) \<Rightarrow> (string \<Rightarrow> any list \<Rightarrow> bool \<Rightarrow> goerror + any \<times> any)
     \<Rightarrow> string \<Rightarrow> cli_options \<Rightarrow> string list \<Rightarrow> (cli_line list \<times> nat) option" where
  "cli_main F dial reply_of appname opts cliArgs =
     (if length cliArgs < 1 then Some ([CliText (''Use: '' @ appname @ '' -h for help.'')], 200)
      else case run F cliArgs of
        None \<Rightarrow> None
      | Some CliPanic \<Rightarrow> None
      | Some (Exit1 message) \<Rightarrow> Some ([CliText message], 1)
      | Some (CallServer method args) \<Rightarrow>
          Some (cli_report opts method args
            (cli_dial_send dial reply_of (opt_server opts) method args (opt_notification opts))))"

section \<open>What they end with\<close>

lemma cli_report_status: "snd (cli_report opts m args ans) = exit_status (opt_notification opts) ans"
  by (auto simp: cli_report_def exit_status_def Let_def split: sum.split prod.split)

text \<open>Every listener of the router is closed on a signal, the monitor's excepted, which is not among them.\<close>

lemma router_command_closes:
  assumes "router_command linux P E ev Version verbose changed env cfg = (acts, 0)"
  defines "cfg' \<equiv> effective_config verbose changed env cfg"
  shows "\<exists>opened. acts = opened @ shutdown
      ((if ListenTCPAddr cfg' = '''' then [] else [(''tcp'', ListenTCPAddr cfg')])
       @ (if ListenUnixAddr cfg' = '''' then [] else [(''unix'', ListenUnixAddr cfg')]))"
proof -
  from assms(1) obtain a ls and r :: "'a app_state Router" where
    s: "startRouter linux P E ev Version cfg' = (a, Serving_on ls r)" and acts: "acts = a @ shutdown ls"
    unfolding cfg'_def router_command_def by (auto split: prod.splits start_result.splits)
  from s obtain a1 l1 a2 l2 where "open_tcp ev cfg' = (a1, Inr l1)" "open_unix ev cfg' = (a2, Inr l2)" "ls = l1 @ l2"
    by (auto simp: startRouter_def split: prod.splits sum.splits option.splits)
  then have "ls = (if ListenTCPAddr cfg' = '''' then [] else [(''tcp'', ListenTCPAddr cfg')])
       @ (if ListenUnixAddr cfg' = '''' then [] else [(''unix'', ListenUnixAddr cfg')])"
    using open_tcp_done [of ev cfg' a1 l1] open_unix_done [of ev cfg' a2 l2] by simp
  with acts show ?thesis by blast
qed

lemma run_returns: "\<exists>act. run F words = Some act"
proof -
  obtain x where "composeArgs F (''['' # tl words @ ['']'']) = Some x"
    using composeArgs_returns by blast
  then show ?thesis by (auto simp: run_def split: compose_result.split any.split)
qed



end
