(* ===== verification/Spec2Isabelle.thy ===== *)
theory Spec2Isabelle
  imports Router_System End_To_End Rpc_Logging Network_Locks Monitor_Race Hci_Race Port_Watcher Programs
begin

text \<open>
  A verification of \<open>arduino-router\<close>, a daemon that routes MessagePack-RPC calls between the
  processes of a Linux board and its microcontroller.

  \<^bold>\<open>The program.\<close> Clients connect over TCP, a Unix socket or the serial port. Each connection is a
  \<open>msgpackrpc.Connection\<close>: a read loop that decodes messages and calls handlers, and a sending
  side with a table of pending requests and an optional limit on the size of messages. The
  router gives every connection a loop; clients register method names, and a request for a
  registered method is sent on to its client under a new ID, whose response goes back to the
  caller. Requests for internal methods are answered by the router itself: the network, monitor
  and HCI APIs, the version, and the opening and closing of the serial port. \<open>main.go\<close> opens the
  listening sockets, registers the internal methods and supervises the serial port;
  \<open>arduino-router-cli\<close> makes single calls.

  \<^bold>\<open>Shared vocabulary.\<close> \<open>Prelude\<close> has bytes, strings, decimal numbers, the allocation limit of \<open>make\<close>, and
  the locale \<open>step_invariant\<close> of invariants of step relations;
  \<open>Go_Values\<close> the dynamic values of type \<open>any\<close>, errors with their chains of causes, and output
  streams that may fail or be closed. Go's \<open>int\<close> and \<open>uint\<close> are 64-bit words, smaller integers words of
  their width. A panic is \<open>None\<close>, \<open>Panic\<close> or \<open>Crashed\<close>, a call that never returns \<open>Hang\<close> or \<open>Hung\<close>.

  \<^bold>\<open>The msgpack package\<close> (\<open>vmihailenco/msgpack\<close>) is not part of the repository. It is the record \<open>msgpack\<close>
  of \<open>Msgpack_Codec\<close>, with what the code relies on as locales: \<open>msgpack_format\<close> (decoding gives back
  what was encoded), \<open>msgpack_sizes\<close> (the sizes the MessagePack specification gives to short values)
  and \<open>msgpack_progress\<close> (a decoder consumes input). \<open>Msgpack_Format\<close> is an implementation of the
  MessagePack specification and interprets all of them, so the laws can hold together.

  \<^bold>\<open>Connection\<close> (\<open>msgpackrpc/\<close>). \<open>Type_Conversion\<close>: \<open>ToInt\<close> and \<open>ToUint\<close> keep the value of every integer they
  accept. \<open>Limited_Buffer\<close>: the buffer keeps the first bytes up to its limit and reports an overflow.
  \<open>Rpc_Decode\<close>: \<open>decodeRpcPacket\<close> refines a specification of MessagePack-RPC on decoded values.
  \<open>Rpc_Connection\<close>: the record of a connection, \<open>send\<close>, \<open>sendRequest\<close>, \<open>handleIncomingResponse\<close>, \<open>Run\<close>; the
  read loop ends on every finite stream (its fuel is the number of bytes plus one, and each
  turn consumes a byte), delivers the messages in order and survives invalid ones.
  \<open>Rpc_Session\<close>: two ends of a connection, and all interleavings of the operations on one.
  \<open>Rpc_Endpoint\<close>: a connection with the handler of a program, as the clients and servers use it.
  \<open>Rpc_Logging\<close>: the logger interface and every place that calls it. A logger changes nothing but its log,
  which is why the other theories leave logging out; the locales \<open>handler_simulation\<close> and
  \<open>handler_invariant\<close> carry such statements from the handlers to the read loop.

  \<^bold>\<open>Router\<close> (\<open>internal/msgpackrouter/\<close>). \<open>Router\<close>: the routing table, the built-in methods, the handling of
  requests, notifications and responses, and the connection loop; the locale \<open>route_table\<close> is the
  contract of the table. \<open>Router_Calls\<close>: what a call leaves on the streams of the connections.
  \<open>Router_Mux\<close>: with any number of requests under way, the router implements a multiplexer of requests and responses.
  \<open>Router_System\<close>: the connection loops as a step relation that interleaves at the locks; routes lead
  to live connections and no answer is invented. \<open>Router_App\<close>: the locale \<open>internal_handlers\<close>, what
  all internal methods keep holds in every state.

  \<^bold>\<open>Internal APIs.\<close> Each is a record of its state and a table of handlers, with the answers of the
  operating system as an argument. \<open>Api_Table\<close> has registration and the locale \<open>api_table\<close>.
  \<open>Network_Tcp\<close>, \<open>Network_Udp\<close>, \<open>Network_Props\<close> (\<open>internal/network-api\<close>): the sixteen methods; IDs are
  searched with a fuel of \<open>2 ^ 32\<close>, all values of the counter, so running out of it means that the
  loop of the code never ends. \<open>Monitor_Api\<close> (\<open>internal/monitorapi\<close>): the pipe of the package \<open>nio\<close> is the
  locale \<open>fifo_pipe\<close>. \<open>Hci_Api\<close> (\<open>internal/hciapi\<close>). \<open>Serial_Supervisor\<close> (\<open>main.go\<close>): the lock, the condition
  variables and the supervisor as a step relation.

  \<^bold>\<open>Races.\<close> The handlers of the internal APIs run in the goroutines of the connections, and the theories above
  run each as one step. \<open>Hci_Race\<close> and \<open>Monitor_Race\<close> cut them into their atomic steps, show that the handlers are
  sequences of these, and what holds in every interleaving: a descriptor has one owner, the bytes of the monitor are
  neither lost nor reordered. \<open>Network_Locks\<close> lists the critical sections of the network API, checks the lists
  against the handlers, and determines which calls can be in conflicting sections together.

  \<^bold>\<open>Startup\<close> (\<open>main.go\<close>). \<open>Filepath\<close> and \<open>Port_Watcher\<close>: \<open>waitForPort\<close> beside a changing file system; what the
  package \<open>fsnotify\<close> reports is a parameter. \<open>Startup\<close>: the configuration, \<open>startRouter\<close>, and the running
  process, in which the invariants of all APIs and of the router hold together. \<open>Programs\<close>: the main
  functions, to the exit status.

  \<^bold>\<open>Command line client\<close> (\<open>cmd/arduino-router-cli\<close>). \<open>Cli\<close>: \<open>composeArgs\<close> has fuel, twice the number of words
  plus one, which is shown to be enough for all words; values survive the round trip through
  their words. \<open>Programs\<close>: its output and exit status in every case.

  \<^bold>\<open>Examples and whole calls.\<close> \<open>Examples\<close> (\<open>examples/\<close>): the ping and mult servers, the ping client, the generic client, which
  reads plain words as \<open>arduino-router-cli\<close> does, and the dump of a file; its fuel is one more than the number of values.
  \<open>End_To_End\<close>: a program that registers a method, the router, and a program that calls it. The predicate \<open>reads\<close> says
  what a read loop does with the bytes of one message; a call is five such steps, each on the
  bytes that the one before wrote, and to the caller it is a call of the other program's handler.

  \<^bold>\<open>Theorems about faults.\<close> Some theorems show what the code does against its comments or intention:
  a limit of zero or less, the reuse of a live UDP ID, requests that stop the router, close
  calls that are missed or deadlock, timeouts that wrap around, a serial port that is missed, and the
  races at the end of this theory.

  \<^bold>\<open>Not modelled.\<close> The calls of \<open>log/slog\<close>; the text of help messages and of printed JSON; the parsing of flags by
  the package \<open>cobra\<close>, whose results are arguments; the standard output of the examples beyond the value they print. A
  handler that blocks forever has no further step in \<open>Router_System\<close>. In the theories on races the tables
  and the pipe are as atomic as their locks make them; the memory model of Go below that is
  not represented. Times are not modelled beyond the deadlines that are passed to the system and the
  durations that are logged.
\<close>

section \<open>Races between calls of different clients\<close>

text \<open>
  C39. Four races that calls of different clients can run into. Two calls of \<open>hci/open\<close> lose an open
  descriptor for good. A call of \<open>mon/read\<close> waits on an empty pipe, also when the counter is back at 0 and no
  writer is under way. Two calls of \<open>udp/write\<close> change the table of packets at the same time, both under the read lock. A call of
  \<open>$/serial/close\<close> goes on waiting although its connection was dropped, because the port was opened again in time.
\<close>

theorem races_reachable:
  "(\<exists>r. hci_reachable 2 r \<and> set (rc_threads r) = {Ready} \<and> lost 3 r
      \<and> \<not> (\<exists>r'. hci_step\<^sup>*\<^sup>* r r' \<and> \<not> in_use 3 (rc_state r')))
   \<and> (\<exists>r r'. mon_reachable list_pipe (\<lambda>p. p) [] 1 1 r \<and> blocked (\<lambda>p. p) 0 r \<and> mr_count r = - 3
      \<and> mon_race_step list_pipe (\<lambda>p. p) r r' \<and> blocked (\<lambda>p. p) 0 r' \<and> mr_count r' = 0 \<and> mr_writers r' = [WIdle])
   \<and> (\<exists>s. lock_reachable 2 [Some (''udp/write'', s), Some (''udp/write'', s)]
      \<and> sec_mode s = Shared \<and> WriteBufs \<in> set (sec_writes s))
   \<and> (\<exists>s. serial_reachable s \<and> closed_waiters s = 1 \<and> pc s = Serving 1 \<and> serialCloseSignal s = Some 1
      \<and> 0 \<in> closed_chans s)"
proof (intro conjI)
  show "\<exists>s. lock_reachable 2 [Some (''udp/write'', s), Some (''udp/write'', s)]
      \<and> sec_mode s = Shared \<and> WriteBufs \<in> set (sec_writes s)"
    using reach_two_writes by (intro exI conjI) (assumption, simp_all add: sec_def)
qed (rule hci_race_leaks mon_read_can_block serial_close_can_be_missed)+

end
